(* ===== verification/Prelude.thy ===== *)
theory Prelude
  imports Main "HOL-Library.Word" "HOL-Library.Signed_Division" "HOL-Library.List_Lexorder"
    "HOL-Library.Char_ord"
begin

text \<open>
  Shared vocabulary of the development: how a C++ computation can fail, the C++ standard library
  routines the sources use on strings and integers (\<open>std::to_string\<close>, \<open>std::stoi\<close>,
  \<open>std::getline\<close>), and the generic facts about lists that several components need.
\<close>

section \<open>Failures of C++ code\<close>

text \<open>
  A failed \<open>assert\<close>, a standard library exception, or the \<open>exit(1)\<close> with which
  \<open>Diagnostics::error\<close> ends the process.
\<close>

datatype cxx_failure =
    AssertFailed string
  | InvalidArgument string
  | OutOfRange string
  | NullPointer string
  | Exited int

type_synonym 'a result = "cxx_failure + 'a"

fun bind_result :: "'a result \<Rightarrow> ('a \<Rightarrow> 'b result) \<Rightarrow> 'b result" where
  "bind_result (Inl e) f = Inl e"
| "bind_result (Inr x) f = f x"

definition cxx_assert :: "string \<Rightarrow> bool \<Rightarrow> unit result" where
  "cxx_assert msg b = (if b then Inr () else Inl (AssertFailed msg))"

fun map_result_list :: "('a \<Rightarrow> 'b result) \<Rightarrow> 'a list \<Rightarrow> 'b list result" where
  "map_result_list f [] = Inr []"
| "map_result_list f (x # xs) =
     bind_result (f x) (\<lambda>y. bind_result (map_result_list f xs) (\<lambda>ys. Inr (y # ys)))"

lemma bind_result_Inr [simp]:
  "bind_result r f = Inr y \<longleftrightarrow> (\<exists>x. r = Inr x \<and> f x = Inr y)"
  by (cases r) auto

lemma cxx_assert_Inr [simp]: "cxx_assert msg b = Inr u \<longleftrightarrow> b"
  by (cases u) (simp add: cxx_assert_def)

lemma cxx_assert_True [simp]: "cxx_assert msg True = Inr ()"
  by (simp add: cxx_assert_def)

lemma map_result_list_all_Inr:
  "(\<And>x. x \<in> set xs \<Longrightarrow> f x = Inr (g x)) \<Longrightarrow> map_result_list f xs = Inr (map g xs)"
  by (induction xs) auto

text \<open>The same with a state that is kept when the computation fails.\<close>

definition st_return :: "'a \<Rightarrow> 's \<Rightarrow> 's \<times> 'a result" where
  "st_return x s = (s, Inr x)"

definition st_bind ::
  "('s \<Rightarrow> 's \<times> 'a result) \<Rightarrow> ('a \<Rightarrow> 's \<Rightarrow> 's \<times> 'b result) \<Rightarrow> 's \<Rightarrow> 's \<times> 'b result" where
  "st_bind m f s = (case m s of (s', Inl e) \<Rightarrow> (s', Inl e) | (s', Inr x) \<Rightarrow> f x s')"

definition st_lift :: "'a result \<Rightarrow> 's \<Rightarrow> 's \<times> 'a result" where
  "st_lift r s = (s, r)"

lemma st_bind_return [simp]: "st_bind (st_return x) f = f x"
  by (simp add: st_bind_def st_return_def fun_eq_iff)

lemma st_return_bind [simp]: "st_bind m st_return = m"
  by (auto simp: st_bind_def st_return_def fun_eq_iff split: prod.split sum.split)

lemma st_bind_assoc: "st_bind (st_bind m f) g = st_bind m (\<lambda>x. st_bind (f x) g)"
  by (auto simp: st_bind_def fun_eq_iff split: prod.split sum.split)

lemma st_bind_Inr:
  "st_bind m f s = (s', Inr y) \<longleftrightarrow> (\<exists>s1 x. m s = (s1, Inr x) \<and> f x s1 = (s', Inr y))"
  by (auto simp: st_bind_def split: prod.splits sum.splits)

section \<open>Machine integers\<close>

text \<open>The C++ \<open>int\<close> of every platform Mull supports is a 32-bit two's complement value.\<close>

definition int_of_size :: "nat \<Rightarrow> int" where
  "int_of_size n = sint (of_nat n :: 32 word)"

lemma int_of_size_small:
  assumes "n < 2 ^ 31"
  shows "int_of_size n = int n"
proof -
  have "signed_take_bit 31 (int n) = int n"
    using assms by (intro signed_take_bit_int_eq_self) auto
  then show ?thesis
    by (simp add: int_of_size_def signed_of_nat)
qed

lemma sint_small:
  assumes "uint (w :: 32 word) < 2 ^ 31"
  shows "sint w = uint w"
proof -
  have "- (2 ^ 31) \<le> uint w" by (rule order_trans [OF _ uint_ge_0]) simp
  then show ?thesis using signed_take_bit_int_eq_self [of 31 "uint w"] assms by (simp add: sint_uint)
qed

section \<open>Decimal numbers as strings\<close>

text \<open>\<open>std::to_string\<close> on non-negative and on signed values.\<close>

definition digit_char :: "nat \<Rightarrow> char" where
  "digit_char d = ''0123456789'' ! d"

fun string_of_nat :: "nat \<Rightarrow> string" where
  "string_of_nat n =
     (if n < 10 then [digit_char n] else string_of_nat (n div 10) @ [digit_char (n mod 10)])"

declare string_of_nat.simps [simp del]

definition string_of_int :: "int \<Rightarrow> string" where
  "string_of_int i = (if i < 0 then CHR ''-'' # string_of_nat (nat (- i)) else string_of_nat (nat i))"

definition is_digit :: "char \<Rightarrow> bool" where
  "is_digit c \<longleftrightarrow> 48 \<le> (of_char c :: nat) \<and> (of_char c :: nat) \<le> 57"

definition digit_value :: "char \<Rightarrow> nat" where
  "digit_value c = of_char c - 48"

definition is_space :: "char \<Rightarrow> bool" where
  "is_space c \<longleftrightarrow> (of_char c :: nat) = 32 \<or> (9 \<le> (of_char c :: nat) \<and> (of_char c :: nat) \<le> 13)"

definition digits_value :: "string \<Rightarrow> nat" where
  "digits_value ds = foldl (\<lambda>acc c. 10 * acc + digit_value c) 0 ds"

text \<open>
  \<open>std::stoi\<close>: leading white space and one sign are skipped, the longest run of decimal digits is
  read, what follows is ignored; no digit is \<open>std::invalid_argument\<close>, a value outside \<open>int\<close> is
  \<open>std::out_of_range\<close>.
\<close>

definition stoi :: "string \<Rightarrow> int result" where
  "stoi s =
     (let t = dropWhile is_space s;
          neg = (t \<noteq> [] \<and> hd t = CHR ''-'');
          u = (if t \<noteq> [] \<and> (hd t = CHR ''-'' \<or> hd t = CHR ''+'') then tl t else t);
          ds = takeWhile is_digit u;
          v = (if neg then - int (digits_value ds) else int (digits_value ds))
      in if ds = [] then Inl (InvalidArgument ''stoi'')
         else if v < - (2 ^ 31) \<or> 2 ^ 31 \<le> v then Inl (OutOfRange ''stoi'')
         else Inr v)"

lemma digit_char_cases:
  assumes "d < 10"
  shows "is_digit (digit_char d) \<and> digit_value (digit_char d) = d \<and> \<not> is_space (digit_char d)"
proof -
  have "d \<in> {0, 1, 2, 3, 4, 5, 6, 7, 8, 9}" using assms by auto
  then show ?thesis
    by (auto simp: digit_char_def is_digit_def digit_value_def is_space_def)
qed

lemma is_digit_digit_char [simp]: "d < 10 \<Longrightarrow> is_digit (digit_char d)"
  by (simp add: digit_char_cases)

lemma digit_value_digit_char [simp]: "d < 10 \<Longrightarrow> digit_value (digit_char d) = d"
  by (simp add: digit_char_cases)

lemma string_of_nat_nonempty [simp]: "string_of_nat n \<noteq> []"
  by (subst string_of_nat.simps) simp

lemma string_of_nat_digits: "\<forall>c \<in> set (string_of_nat n). is_digit c"
proof (induction n rule: string_of_nat.induct)
  case (1 n)
  show ?case
    by (cases "n < 10"; subst string_of_nat.simps) (use 1 in auto)
qed

lemma digits_value_snoc [simp]:
  "digits_value (ds @ [c]) = 10 * digits_value ds + digit_value c"
  by (simp add: digits_value_def)

lemma digits_value_single [simp]: "digits_value [c] = digit_value c"
  by (simp add: digits_value_def)

lemma digits_value_string_of_nat [simp]: "digits_value (string_of_nat n) = n"
proof (induction n rule: string_of_nat.induct)
  case (1 n)
  show ?case
    by (cases "n < 10"; subst string_of_nat.simps) (use 1 in auto)
qed

lemma string_of_nat_inject [simp]: "string_of_nat m = string_of_nat n \<longleftrightarrow> m = n"
  by (metis digits_value_string_of_nat)

lemma not_digit_chars [simp]:
  "\<not> is_digit CHR ''-''" "\<not> is_digit CHR '':''" "\<not> is_digit CHR 0x00" "\<not> is_digit CHR ''+''"
  by (simp_all add: is_digit_def)

lemma digit_not_space: "is_digit c \<Longrightarrow> \<not> is_space c"
  by (auto simp: is_digit_def is_space_def)

lemma hd_string_of_nat_digit: "is_digit (hd (string_of_nat n))"
  using string_of_nat_digits [of n] by (metis hd_in_set string_of_nat_nonempty)

lemma stoi_string_of_nat:
  assumes "n < 2 ^ 31"
  shows "stoi (string_of_nat n) = Inr (int n)"
proof -
  have d: "is_digit (hd (string_of_nat n))" by (rule hd_string_of_nat_digit)
  have "dropWhile is_space (string_of_nat n) = string_of_nat n"
    using digit_not_space [OF d] by (cases "string_of_nat n") auto
  moreover have "takeWhile is_digit (string_of_nat n) = string_of_nat n"
    using string_of_nat_digits by simp
  moreover have "hd (string_of_nat n) \<noteq> CHR ''-''" "hd (string_of_nat n) \<noteq> CHR ''+''"
    using d by auto
  ultimately show ?thesis
    using assms by (simp add: stoi_def Let_def del: takeWhile_eq_all_conv)
qed

lemma string_of_int_nonneg: "0 \<le> i \<Longrightarrow> string_of_int i = string_of_nat (nat i)"
  by (simp add: string_of_int_def)

definition newline :: string where
  "newline = [CHR 0x0A]"

section \<open>Splitting a stream at a delimiter\<close>

text \<open>
  The lines a loop \<open>while (std::getline(stream, line, d))\<close> reads: the text between delimiters; the
  text after the last delimiter is a line only when it is not empty.
\<close>

function getlines :: "char \<Rightarrow> string \<Rightarrow> string list" where
  "getlines d s =
     (if s = [] then []
      else takeWhile (\<lambda>c. c \<noteq> d) s # getlines d (tl (dropWhile (\<lambda>c. c \<noteq> d) s)))"
  by pat_completeness auto
termination
proof (relation "measure (\<lambda>(d, s). length s)", simp)
  fix d :: char and s :: string
  assume "s \<noteq> []"
  moreover have "length (dropWhile (\<lambda>c. c \<noteq> d) s) \<le> length s" by (rule length_dropWhile_le)
  moreover have "length (tl (dropWhile (\<lambda>c. c \<noteq> d) s)) = length (dropWhile (\<lambda>c. c \<noteq> d) s) - 1"
    by simp
  moreover have "0 < length s" using \<open>s \<noteq> []\<close> by simp
  ultimately have "length (tl (dropWhile (\<lambda>c. c \<noteq> d) s)) < length s" by linarith
  then show "((d, tl (dropWhile (\<lambda>c. c \<noteq> d) s)), d, s) \<in> measure (\<lambda>(d, s). length s)" by simp
qed

declare getlines.simps [simp del]

lemma getlines_Nil [simp]: "getlines d [] = []"
  by (simp add: getlines.simps)

lemma getlines_append:
  assumes "d \<notin> set xs"
  shows "getlines d (xs @ d # ys) = xs # getlines d ys"
proof -
  have tw: "takeWhile (\<lambda>c. c \<noteq> d) (xs @ d # ys) = xs"
    using assms(1) by (induction xs) auto
  have dw: "dropWhile (\<lambda>c. c \<noteq> d) (xs @ d # ys) = d # ys"
    using assms(1) by (induction xs) auto
  show ?thesis by (subst getlines.simps) (simp add: tw dw)
qed

lemma getlines_last:
  assumes "d \<notin> set xs" and "xs \<noteq> []"
  shows "getlines d xs = [xs]"
proof -
  have tw: "takeWhile (\<lambda>c. c \<noteq> d) xs = xs" and dw: "dropWhile (\<lambda>c. c \<noteq> d) xs = []"
    using assms(1) by auto
  show ?thesis by (subst getlines.simps) (simp add: assms(2) tw dw)
qed

section \<open>\<open>std::set\<close> and \<open>std::map\<close>\<close>

text \<open>
  Both are kept as lists in the order of their iteration: strictly increasing elements, and pairs with
  strictly increasing keys. Strings are ordered by their characters' codes, as \<open>std::string\<close> is.
\<close>

fun set_insert :: "'a :: linorder \<Rightarrow> 'a list \<Rightarrow> 'a list" where
  "set_insert x [] = [x]"
| "set_insert x (y # ys) =
     (if x < y then x # y # ys else if x = y then y # ys else y # set_insert x ys)"

fun map_insert :: "'k :: linorder \<Rightarrow> 'v \<Rightarrow> ('k \<times> 'v) list \<Rightarrow> ('k \<times> 'v) list" where
  "map_insert k v [] = [(k, v)]"
| "map_insert k v ((l, w) # m) =
     (if k < l then (k, v) # (l, w) # m else if k = l then (k, v) # m else (l, w) # map_insert k v m)"

abbreviation ordered_set :: "'a :: linorder list \<Rightarrow> bool" where
  "ordered_set xs \<equiv> sorted_wrt (<) xs"

abbreviation ordered_map :: "('k :: linorder \<times> 'v) list \<Rightarrow> bool" where
  "ordered_map m \<equiv> sorted_wrt (<) (map fst m)"

lemma set_set_insert [simp]: "set (set_insert x xs) = insert x (set xs)"
  by (induction xs) auto

lemma ordered_set_insert: "ordered_set xs \<Longrightarrow> ordered_set (set_insert x xs)"
  by (induction xs) auto

lemma map_of_map_insert:
  "ordered_map m \<Longrightarrow> map_of (map_insert k v m) = (map_of m)(k \<mapsto> v)"
proof (induction m)
  case (Cons a m)
  obtain l w where a: "a = (l, w)" by (cases a)
  have "map_of m l = None" if "k = l"
    using Cons.prems a by (auto simp: map_of_eq_None_iff)
  with Cons show ?case by (auto simp: a fun_eq_iff)
qed auto

lemma keys_map_insert: "set (map fst (map_insert k v m)) = insert k (set (map fst m))"
proof (induction m)
  case (Cons a m)
  then show ?case by (cases a) (simp add: insert_commute)
qed simp

lemma ordered_map_insert: "ordered_map m \<Longrightarrow> ordered_map (map_insert k v m)"
proof (induction m)
  case (Cons a m)
  obtain l w where a: "a = (l, w)" by (cases a)
  have l: "l < x" if "x \<in> set (map fst m)" for x using Cons.prems that by (auto simp: a)
  consider "k < l" | "k = l" | "l < k" by fastforce
  then show ?case
  proof cases
    case 3
    have "l < x" if "x \<in> set (map fst (map_insert k v m))" for x
      using that l 3 unfolding keys_map_insert by blast
    moreover have "\<not> k < l" "k \<noteq> l" using 3 by auto
    ultimately show ?thesis using Cons by (simp add: a)
  qed (use Cons.prems l in \<open>auto simp: a intro: less_trans\<close>)
qed simp

text \<open>A sequence of assignments \<open>m[k] = v\<close>; the last one for a key counts.\<close>

definition map_inserts :: "('k :: linorder \<times> 'v) list \<Rightarrow> ('k \<times> 'v) list \<Rightarrow> ('k \<times> 'v) list" where
  "map_inserts kvs m = foldl (\<lambda>m (k, v). map_insert k v m) m kvs"

lemma map_inserts_simps [simp]:
  "map_inserts [] m = m"
  "map_inserts ((k, v) # kvs) m = map_inserts kvs (map_insert k v m)"
  by (simp_all add: map_inserts_def)

lemma map_inserts_ordered: "ordered_map m \<Longrightarrow> ordered_map (map_inserts kvs m)"
  by (induction kvs arbitrary: m) (auto simp: ordered_map_insert)

lemma map_of_map_inserts:
  "ordered_map m \<Longrightarrow> map_of (map_inserts kvs m) = map_of m ++ map_of (rev kvs)"
proof (induction kvs arbitrary: m)
  case (Cons a kvs)
  obtain k v where a: "a = (k, v)" by (cases a)
  from Cons show ?case
    by (simp add: a ordered_map_insert map_of_map_insert fun_upd_def [symmetric])
qed simp

lemma map_of_rev_distinct: "distinct (map fst kvs) \<Longrightarrow> map_of (rev kvs) = map_of kvs"
  by (metis map_of_inject_set distinct_rev rev_map set_rev)

lemma ordered_map_distinct: "ordered_map m \<Longrightarrow> distinct (map fst m)"
  using strict_sorted_iff by blast

lemma ordered_map_filter: "ordered_map m \<Longrightarrow> ordered_map (filter P m)"
  by (induction m) auto

lemma map_of_filter_key: "map_of (filter (\<lambda>(k, _). k \<noteq> a) m) = (map_of m)(a := None)"
  by (induction m) auto

lemma ordered_set_unique:
  "ordered_set xs \<Longrightarrow> ordered_set ys \<Longrightarrow> set xs = set ys \<Longrightarrow> xs = ys"
  using strict_sorted_equal by blast

section \<open>Generic facts on lists\<close>

lemma concat_map_singleton_if:
  "concat (map (\<lambda>x. if P x then [] else [x]) xs) = filter (\<lambda>x. \<not> P x) xs"
  by (induction xs) auto

lemma sum_list_list_update:
  fixes xs :: "nat list"
  assumes "i < length xs"
  shows "sum_list (xs[i := v]) + xs ! i = sum_list xs + v"
  using assms
proof (induction xs arbitrary: i)
  case (Cons x xs)
  then show ?case by (cases i) (auto simp: algebra_simps)
qed simp

end
