(* ===== verification/Caches.thy ===== *)
theory Caches
  imports Prelude
begin

text \<open>
  Lookups through a cache. Three components answer queries from a cache they fill on the way: the file
  path filter (\<open>lib/Filters/FilePathFilter.cpp\<close>), the storage of syntax trees
  (\<open>lib/JunkDetection/CXX/ASTStorage.cpp\<close>) and the source manager (\<open>lib/Reporters/SourceManager.cpp\<close>).
  Threads share the first two under a mutex, so that their queries come in some order. The locales
  state what makes such a cache invisible, and what it costs.
\<close>

section \<open>Computations that keep what they depend on\<close>

text \<open>
  A computation on a good state answers from the part of the state that \<open>view\<close> shows, leaves this part
  as it is, and the state good.
\<close>

definition steady ::
  "('s \<Rightarrow> bool) \<Rightarrow> ('s \<Rightarrow> 'c) \<Rightarrow> ('s \<Rightarrow> 's \<times> 'v) \<Rightarrow> ('c \<Rightarrow> 'v) \<Rightarrow> bool" where
  "steady current view m answer \<longleftrightarrow>
     (\<forall>s. current s \<longrightarrow> (\<exists>s'. m s = (s', answer (view s)) \<and> current s' \<and> view s' = view s))"

lemma steadyI:
  "(\<And>s. current s \<Longrightarrow> \<exists>s'. m s = (s', answer (view s)) \<and> current s' \<and> view s' = view s) \<Longrightarrow>
    steady current view m answer"
  by (simp add: steady_def)

lemma steadyE:
  assumes "steady current view m answer" "current s"
  obtains s' where "m s = (s', answer (view s))" "current s'" "view s' = view s"
  using assms unfolding steady_def by blast

lemma steady_return [intro]: "steady current view (st_return x) (\<lambda>c. Inr x)"
  by (simp add: steady_def st_return_def)

lemma steady_lift [intro]: "steady current view (st_lift r) (\<lambda>c. r)"
  by (simp add: steady_def st_lift_def)

lemma steady_bind [intro]:
  assumes "steady current view m f" "\<And>x. steady current view (k x) (g x)"
  shows "steady current view (st_bind m k) (\<lambda>c. bind_result (f c) (\<lambda>x. g x c))"
proof (rule steadyI)
  fix s assume s: "current s"
  obtain s1 where s1: "m s = (s1, f (view s))" "current s1" "view s1 = view s"
    using steadyE [OF assms(1) s] by blast
  show "\<exists>s'. st_bind m k s = (s', bind_result (f (view s)) (\<lambda>x. g x (view s))) \<and> current s' \<and> view s' = view s"
  proof (cases "f (view s)")
    case (Inl e)
    then show ?thesis using s1 by (simp add: st_bind_def)
  next
    case (Inr x)
    obtain s2 where "k x s1 = (s2, g x (view s1))" "current s2" "view s2 = view s1"
      using assms(2) [of x] s1(2) by (rule steadyE)
    then show ?thesis using s1 Inr by (simp add: st_bind_def)
  qed
qed

text \<open>The answer is the one from any other good state with the same view.\<close>

lemma steady_answer:
  assumes "steady current view m answer" "current s"
  shows "snd (m s) = answer (view s)" "current (fst (m s))" "view (fst (m s)) = view s"
proof -
  obtain s' where "m s = (s', answer (view s))" "current s'" "view s' = view s"
    using assms by (rule steadyE)
  then show "snd (m s) = answer (view s)" "current (fst (m s))" "view (fst (m s)) = view s" by simp_all
qed

text \<open>Computations that are steady for some answer, built from others.\<close>

definition settled :: "('s \<Rightarrow> bool) \<Rightarrow> ('s \<Rightarrow> 'c) \<Rightarrow> ('s \<Rightarrow> 's \<times> 'v) \<Rightarrow> bool" where
  "settled current view m \<longleftrightarrow> (\<exists>answer. steady current view m answer)"

named_theorems settled_intros

lemma settled_steady_intro: "steady current view m answer \<Longrightarrow> settled current view m"
  by (auto simp: settled_def)

lemma settled_return [settled_intros]: "settled current view (st_return x)"
  by (rule settled_steady_intro, rule steady_return)

lemma settled_lift [settled_intros]: "settled current view (st_lift r)"
  by (rule settled_steady_intro, rule steady_lift)

lemma settled_bind [settled_intros]:
  assumes "settled current view m" "\<And>x. settled current view (k x)"
  shows "settled current view (st_bind m k)"
proof -
  obtain f where f: "steady current view m f" using assms(1) by (auto simp: settled_def)
  obtain g where g: "\<And>x. steady current view (k x) (g x)" using assms(2) unfolding settled_def by metis
  show ?thesis by (rule settled_steady_intro [OF steady_bind [OF f g]])
qed

lemma settled_case_option [settled_intros]:
  assumes "settled current view m" "\<And>x. settled current view (k x)"
  shows "settled current view (case r of None \<Rightarrow> m | Some x \<Rightarrow> k x)"
  using assms by (simp split: option.split)

lemma settled_if [settled_intros]:
  "settled current view m \<Longrightarrow> settled current view m' \<Longrightarrow> settled current view (if b then m else m')"
  by simp

lemma settled_case_prod [settled_intros]:
  "(\<And>x y. settled current view (k x y)) \<Longrightarrow> settled current view (case p of (x, y) \<Rightarrow> k x y)"
  by (simp split: prod.split)

lemma settled_answer:
  assumes "settled current view m" "\<And>c. current (base c)" "\<And>c. view (base c) = c"
  shows "steady current view m (\<lambda>c. snd (m (base c)))"
proof -
  obtain f where f: "steady current view m f" using assms(1) by (auto simp: settled_def)
  have "snd (m (base c)) = f c" for c
    using steady_answer(1) [OF f assms(2), of c] by (simp add: assms(3))
  with f show ?thesis by simp
qed

section \<open>Lookups\<close>

text \<open>A session of lookups.\<close>

primrec ask_all :: "('k \<Rightarrow> 's \<Rightarrow> 's \<times> 'v) \<Rightarrow> 'k list \<Rightarrow> 's \<Rightarrow> 's \<times> 'v list" where
  "ask_all ask [] s = (s, [])"
| "ask_all ask (k # ks) s =
     (let (s1, v) = ask k s; (s2, vs) = ask_all ask ks s1 in (s2, v # vs))"

text \<open>The first uses of the keys that are not known yet.\<close>

fun first_uses :: "'k set \<Rightarrow> 'k list \<Rightarrow> 'k list" where
  "first_uses known [] = []"
| "first_uses known (k # ks) =
     (if k \<in> known then first_uses known ks else k # first_uses (insert k known) ks)"

locale cached_lookup =
  fixes ask :: "'k \<Rightarrow> 's \<Rightarrow> 's \<times> 'v"
    and current :: "'s \<Rightarrow> bool"
    and view :: "'s \<Rightarrow> 'c"
    and answer :: "'k \<Rightarrow> 'c \<Rightarrow> 'v"
  assumes ask_steady: "steady current view (ask k) (answer k)"
begin

lemma ask_answer:
  assumes "current s"
  shows "snd (ask k s) = answer k (view s)" "current (fst (ask k s))" "view (fst (ask k s)) = view s"
  using steady_answer [OF ask_steady assms] by simp_all

lemma ask_all_answers:
  assumes "current s"
  shows "\<exists>s'. ask_all ask ks s = (s', map (\<lambda>k. answer k (view s)) ks) \<and> current s' \<and> view s' = view s"
  using assms
proof (induction ks arbitrary: s)
  case (Cons k ks)
  obtain s1 where "ask k s = (s1, answer k (view s))" "current s1" "view s1 = view s"
    using steadyE [OF ask_steady Cons.prems] by blast
  then show ?case using Cons.IH [of s1] by auto
qed simp

text \<open>An answer never depends on what was asked before.\<close>

lemma answer_after_others:
  assumes "current s"
  shows "snd (ask k (fst (ask_all ask ks s))) = snd (ask k s)"
  using ask_all_answers [OF assms, of ks] ask_answer(1) assms by auto

end

text \<open>When a lookup says what it costs, a session pays once for each new key, in the order of first uses.\<close>

locale paid_lookup = cached_lookup ask current view answer
  for ask :: "'k \<Rightarrow> 's \<Rightarrow> 's \<times> 'v" and current and view :: "'s \<Rightarrow> 'c" and answer +
  fixes known :: "'s \<Rightarrow> 'k set"
    and paid :: "'s \<Rightarrow> 'p list"
    and cost :: "'k \<Rightarrow> 'c \<Rightarrow> 'p list"
  assumes known_ask: "current s \<Longrightarrow> known (fst (ask k s)) = insert k (known s)"
    and paid_ask: "current s \<Longrightarrow> paid (fst (ask k s)) = paid s @ (if k \<in> known s then [] else cost k (view s))"
begin

lemma session_paid:
  assumes "current s"
  shows "paid (fst (ask_all ask ks s)) =
    paid s @ concat (map (\<lambda>k. cost k (view s)) (first_uses (known s) ks))"
  using assms
proof (induction ks arbitrary: s)
  case (Cons k ks)
  obtain s1 where s1: "ask k s = (s1, answer k (view s))" "current s1" "view s1 = view s"
    using steadyE [OF ask_steady Cons.prems] by blast
  have "fst (ask_all ask (k # ks) s) = fst (ask_all ask ks s1)" by (simp add: s1(1) split: prod.split)
  then show ?case
    using Cons.IH [OF s1(2)] known_ask [OF Cons.prems, of k] paid_ask [OF Cons.prems, of k]
    by (auto simp: s1 insert_absorb)
qed simp

end

end
