(* ===== verification/IR.thy ===== *)
theory IR
  imports Prelude
begin

text \<open>
  The part of LLVM's intermediate representation that Mull's library reads and writes: modules,
  functions, basic blocks and instructions with their debug locations. LLVM is not part of the
  repository; the records below are the data its accessors expose, and nothing more. Function names,
  block labels and instruction references stand for the C++ pointers, which is why a well-formed
  module has no two equal ones in one list.
\<close>

section \<open>Data\<close>

text \<open>A \<open>ConstFP\<close> keeps whether it is zero, the only thing the sources ask of one.\<close>

datatype ir_value =
    ConstInt int
  | ConstFP bool
  | NullPointerValue
  | InstRef string
  | ArgRef nat
  | FunctionRef string
  | GlobalString string

text \<open>
  A conditional branch has the operands 0 (condition), 1 (the block taken when the condition is
  false, the sources' \<open>right\<close>) and 2 (the block taken when it is true, \<open>left\<close>); the constructor lists
  them as \<open>BranchInst::Create\<close> does: true block, false block, condition.
\<close>

datatype ir_op =
    CondBr string string ir_value
  | Br string
  | Phi "(ir_value \<times> string) list"
  | Ret "ir_value option"
  | Alloca
  | Store ir_value ir_value
  | Load ir_value
  | ICmpNE ir_value ir_value
  | Call ir_value "ir_value list"
  | BinaryOp string ir_value ir_value
  | OtherOp string "ir_value list"

record debug_info =
  di_directory :: string
  di_filename :: string
  di_line :: "32 word"
  di_column :: "32 word"
  di_unit :: "(string \<times> string) option"

record instruction =
  iref :: string
  opcode :: ir_op
  dbg :: "debug_info option"

record basic_block =
  label :: string
  insts :: "instruction list"

record ir_function =
  fname :: string
  blocks :: "basic_block list"
  subprogram :: "debug_info option"
  param_count :: nat
  returns_void :: bool
  internal_linkage :: bool

record ir_module =
  module_id :: string
  function_list :: "ir_function list"
  used_globals :: "(string \<times> string \<times> string) list"

text \<open>A pointer to an instruction, with the parents \<open>getFunction\<close> and \<open>getParent\<close> give.\<close>

record inst_ptr =
  in_function :: string
  in_block :: string
  at_inst :: string

section \<open>Access\<close>

definition nth_opt :: "'a list \<Rightarrow> nat \<Rightarrow> 'a option" where
  "nth_opt xs i = (if i < length xs then Some (xs ! i) else None)"

definition get_function :: "ir_module \<Rightarrow> string \<Rightarrow> ir_function option" where
  "get_function m n = find (\<lambda>f. fname f = n) (function_list m)"

definition get_block :: "ir_function \<Rightarrow> string \<Rightarrow> basic_block option" where
  "get_block f l = find (\<lambda>b. label b = l) (blocks f)"

definition get_inst :: "basic_block \<Rightarrow> string \<Rightarrow> instruction option" where
  "get_inst b r = find (\<lambda>i. iref i = r) (insts b)"

definition deref :: "ir_module \<Rightarrow> inst_ptr \<Rightarrow> instruction option" where
  "deref m p = Option.bind (get_function m (in_function p)) (\<lambda>f.
     Option.bind (get_block f (in_block p)) (\<lambda>b. get_inst b (at_inst p)))"

text \<open>\<open>llvm::instructions(function)\<close>: every instruction with its block, in program order.\<close>

definition instructions :: "ir_function \<Rightarrow> (basic_block \<times> instruction) list" where
  "instructions f = concat (map (\<lambda>b. map (Pair b) (insts b)) (blocks f))"

definition is_conditional :: "ir_op \<Rightarrow> bool" where
  "is_conditional x = (case x of CondBr _ _ _ \<Rightarrow> True | _ \<Rightarrow> False)"

definition is_binary_op :: "ir_op \<Rightarrow> bool" where
  "is_binary_op x = (case x of BinaryOp _ _ _ \<Rightarrow> True | _ \<Rightarrow> False)"

fun operand0 :: "ir_op \<Rightarrow> ir_value option" where
  "operand0 (CondBr _ _ c) = Some c"
| "operand0 (Phi ((v, _) # _)) = Some v"
| "operand0 (Ret (Some v)) = Some v"
| "operand0 (Store v _) = Some v"
| "operand0 (Load p) = Some p"
| "operand0 (ICmpNE v _) = Some v"
| "operand0 (BinaryOp _ v _) = Some v"
| "operand0 (OtherOp _ (v # _)) = Some v"
| "operand0 (Call _ (v # _)) = Some v"
| "operand0 _ = None"

section \<open>Well-formedness\<close>

definition wf_function :: "ir_function \<Rightarrow> bool" where
  "wf_function f \<longleftrightarrow> distinct (map label (blocks f)) \<and>
     list_all (\<lambda>b. distinct (map iref (insts b))) (blocks f)"

definition wf_module :: "ir_module \<Rightarrow> bool" where
  "wf_module m \<longleftrightarrow> distinct (map fname (function_list m)) \<and> list_all wf_function (function_list m)"

lemma find_distinct_key:
  assumes "distinct (map k xs)" "i < length xs"
  shows "find (\<lambda>x. k x = k (xs ! i)) xs = Some (xs ! i)"
  using assms
proof (induction xs arbitrary: i)
  case (Cons x xs)
  show ?case
  proof (cases i)
    case (Suc j)
    with Cons.prems have "k (xs ! j) \<in> k ` set xs" by simp
    with Cons.prems have "k x \<noteq> k (xs ! j)" by auto
    with Suc Cons show ?thesis by auto
  qed simp
qed simp

lemma find_key_in_set: "find (\<lambda>x. k x = v) xs = Some y \<Longrightarrow> y \<in> set xs \<and> k y = v"
  by (induction xs) (auto split: if_splits)

lemma find_by_key:
  assumes "distinct (map k xs)" "x \<in> set xs"
  shows "find (\<lambda>y. k y = k x) xs = Some x"
  using find_distinct_key [OF assms(1)] assms(2) by (metis in_set_conv_nth)

lemma nth_opt_Some: "nth_opt xs i = Some x \<longleftrightarrow> i < length xs \<and> xs ! i = x"
  by (auto simp: nth_opt_def)

lemma set_instructions:
  "(b, i) \<in> set (instructions f) \<longleftrightarrow> b \<in> set (blocks f) \<and> i \<in> set (insts b)"
  by (auto simp: instructions_def)

end
