(* ===== verification/SourceLocations.thy ===== *)
theory SourceLocations
  imports IR
begin

text \<open>
  Source locations: \<open>lib/SourceLocation.cpp\<close> and \<open>lib/Path.cpp\<close>. A location is read from the debug
  information of an instruction or of a function; relative file names are completed with the
  directory. LLVM's test whether a path is absolute is the parameter \<open>is_absolute\<close>; the separator is
  the one of the host, \<open>/\<close>.
\<close>

record SourceLocation =
  unitDirectory :: string
  unitFilePath :: string
  directory :: string
  filePath :: string
  line :: int
  column :: int

definition absoluteFilePath :: "(string \<Rightarrow> bool) \<Rightarrow> string \<Rightarrow> string \<Rightarrow> string" where
  "absoluteFilePath is_absolute dir path =
     (if path \<noteq> [] \<and> \<not> is_absolute path then dir @ ''/'' @ path else path)"

definition nullSourceLocation :: SourceLocation where
  "nullSourceLocation =
     \<lparr>unitDirectory = [], unitFilePath = [], directory = [], filePath = [], line = 0, column = 0\<rparr>"

definition location_unit :: "debug_info \<Rightarrow> string \<times> string" where
  "location_unit d = (case di_unit d of None \<Rightarrow> ([], []) | Some u \<Rightarrow> u)"

definition locationFromInstruction :: "(string \<Rightarrow> bool) \<Rightarrow> instruction \<Rightarrow> SourceLocation" where
  "locationFromInstruction is_absolute i =
     (case dbg i of
        None \<Rightarrow> nullSourceLocation
      | Some d \<Rightarrow>
          (let dir = di_directory d;
               path = absoluteFilePath is_absolute dir (di_filename d);
               (udir, ufile) = location_unit d
           in \<lparr>unitDirectory = udir, unitFilePath = absoluteFilePath is_absolute udir ufile,
               directory = dir, filePath = path, line = sint (di_line d), column = sint (di_column d)\<rparr>))"

definition locationFromFunction :: "(string \<Rightarrow> bool) \<Rightarrow> ir_function \<Rightarrow> SourceLocation" where
  "locationFromFunction is_absolute f =
     (case subprogram f of
        None \<Rightarrow> nullSourceLocation
      | Some d \<Rightarrow>
          (let (udir, ufile) = location_unit d;
               dir = di_directory d;
               path = absoluteFilePath is_absolute dir (di_filename d)
           in \<lparr>unitDirectory = udir, unitFilePath = absoluteFilePath is_absolute udir ufile,
               directory = dir, filePath = path, line = sint (di_line d), column = 0\<rparr>))"

definition isNull :: "SourceLocation \<Rightarrow> bool" where
  "isNull l \<longleftrightarrow>
     (directory l = [] \<and> filePath l = [] \<and> line l = 0 \<and> column l = 0) \<or> (line l = 0 \<and> column l = 0)"

lemma isNull_iff: "isNull l \<longleftrightarrow> line l = 0 \<and> column l = 0"
  by (auto simp: isNull_def)

lemma isNull_nullSourceLocation [simp]: "isNull nullSourceLocation"
  by (simp add: isNull_def nullSourceLocation_def)

lemma absoluteFilePath_idem:
  assumes "\<And>p. is_absolute (d @ ''/'' @ p)"
  shows "absoluteFilePath is_absolute d' (absoluteFilePath is_absolute d p) =
    (if is_absolute p \<or> p = [] then p else d @ ''/'' @ p)"
  using assms by (auto simp: absoluteFilePath_def)

lemma locationFromInstruction_filePath_absolute:
  assumes "dbg i = Some d" "di_filename d \<noteq> []"
    and "\<And>p. is_absolute (di_directory d @ ''/'' @ p)"
  shows "is_absolute (filePath (locationFromInstruction is_absolute i))"
  using assms by (auto simp: locationFromInstruction_def absoluteFilePath_def Let_def split: prod.splits)

end
