(* ===== verification/Diagnostics.thy ===== *)
theory Diagnostics
  imports Prelude
begin

text \<open>
  \<open>lib/Diagnostics/Diagnostics.cpp\<close>: the logger every component reports to. Its state is the three
  flags and what has been written so far. \<open>error\<close>, and \<open>warning\<close> in strict mode, end the process; the
  output written before that stays in the state.
\<close>

datatype diag_event =
    LogInfo string
  | LogWarning string
  | LogError string
  | LogDebug string
  | ProgressText string
  | NewlineText

record diagnostics =
  seenProgress :: bool
  debugModeEnabled :: bool
  strictModeEnabled :: bool
  log_output :: "diag_event list"

definition new_diagnostics :: diagnostics where
  "new_diagnostics =
     \<lparr>seenProgress = False, debugModeEnabled = False, strictModeEnabled = False, log_output = []\<rparr>"

type_synonym 'a diag = "diagnostics \<Rightarrow> diagnostics \<times> 'a result"

abbreviation diag_return :: "'a \<Rightarrow> 'a diag" where
  "diag_return \<equiv> st_return"

abbreviation diag_bind :: "'a diag \<Rightarrow> ('a \<Rightarrow> 'b diag) \<Rightarrow> 'b diag" where
  "diag_bind \<equiv> st_bind"

abbreviation diag_lift :: "'a result \<Rightarrow> 'a diag" where
  "diag_lift \<equiv> st_lift"

definition emit :: "diag_event \<Rightarrow> diagnostics \<Rightarrow> diagnostics" where
  "emit e d = d\<lparr>log_output := log_output d @ [e]\<rparr>"

definition diag_prepare :: "diagnostics \<Rightarrow> diagnostics" where
  "diag_prepare d = (if seenProgress d then (emit NewlineText d)\<lparr>seenProgress := False\<rparr> else d)"

definition enableDebugMode :: "diagnostics \<Rightarrow> diagnostics" where
  "enableDebugMode d = d\<lparr>debugModeEnabled := True\<rparr>"

definition enableStrictMode :: "diagnostics \<Rightarrow> diagnostics" where
  "enableStrictMode d = d\<lparr>strictModeEnabled := True\<rparr>"

definition diag_info :: "string \<Rightarrow> unit diag" where
  "diag_info message d = (emit (LogInfo message) (diag_prepare d), Inr ())"

definition diag_warning :: "string \<Rightarrow> unit diag" where
  "diag_warning message d =
     (let d1 = emit (LogWarning message) (diag_prepare d)
      in if strictModeEnabled d1
         then (emit (LogWarning ''Strict Mode enabled: warning messages are treated as fatal errors. Exiting now.'') d1,
               Inl (Exited 1))
         else (d1, Inr ()))"

definition diag_error :: "string \<Rightarrow> 'a diag" where
  "diag_error message d =
     (emit (LogError ''Error messages are treated as fatal errors. Exiting now.'')
        (emit (LogError message) (diag_prepare d)),
      Inl (Exited 1))"

definition diag_progress :: "string \<Rightarrow> unit diag" where
  "diag_progress message d = (emit (ProgressText message) (d\<lparr>seenProgress := True\<rparr>), Inr ())"

definition diag_debug :: "string \<Rightarrow> unit diag" where
  "diag_debug message d =
     (if debugModeEnabled d then (emit (LogDebug message) (diag_prepare d), Inr ()) else (d, Inr ()))"

fun diag_mapM :: "('a \<Rightarrow> 'b diag) \<Rightarrow> 'a list \<Rightarrow> 'b list diag" where
  "diag_mapM f [] = diag_return []"
| "diag_mapM f (x # xs) =
     diag_bind (f x) (\<lambda>y. diag_bind (diag_mapM f xs) (\<lambda>ys. diag_return (y # ys)))"

lemma diag_prepare_flags [simp]:
  "strictModeEnabled (diag_prepare d) = strictModeEnabled d"
  "debugModeEnabled (diag_prepare d) = debugModeEnabled d"
  "seenProgress (diag_prepare d) = False"
  by (simp_all add: diag_prepare_def emit_def)

lemma emit_flags [simp]:
  "strictModeEnabled (emit e d) = strictModeEnabled d"
  "debugModeEnabled (emit e d) = debugModeEnabled d"
  "seenProgress (emit e d) = seenProgress d"
  "log_output (emit e d) = log_output d @ [e]"
  by (simp_all add: emit_def)

definition warnings_of :: "diagnostics \<Rightarrow> string list" where
  "warnings_of d = concat (map (\<lambda>e. case e of LogWarning m \<Rightarrow> [m] | _ \<Rightarrow> []) (log_output d))"

lemma warnings_of_emit [simp]:
  "warnings_of (emit e d) = warnings_of d @ (case e of LogWarning m \<Rightarrow> [m] | _ \<Rightarrow> [])"
  by (simp add: warnings_of_def)

lemma warnings_of_prepare [simp]: "warnings_of (diag_prepare d) = warnings_of d"
  by (simp add: diag_prepare_def warnings_of_def emit_def)

lemma diag_warning_lenient:
  "\<not> strictModeEnabled d \<Longrightarrow>
     diag_warning m d = (emit (LogWarning m) (diag_prepare d), Inr ())"
  by (simp add: diag_warning_def Let_def)

lemma diag_warning_strict:
  "strictModeEnabled d \<Longrightarrow> snd (diag_warning m d) = Inl (Exited 1)"
  by (simp add: diag_warning_def Let_def)

end
