(* ===== verification/TaskExecutor.thy ===== *)
theory TaskExecutor
  imports Prelude
begin

text \<open>
  The parallel task executor: \<open>lib/Parallelization/TaskExecutor.cpp\<close> (\<open>taskBatches\<close>) and
  \<open>include/mull/Parallelization/TaskExecutor.h\<close> (\<open>execute\<close>, \<open>executeSequentially\<close>,
  \<open>executeInParallel\<close>), with the progress counters of \<open>Progress.cpp\<close>. A task's call operator runs
  over a range of inputs and appends to a storage; the locale \<open>batch_task\<close> states what the executor
  relies on. The threads are modelled twice: as the value the joined storages have, and as a step
  relation in which the workers' loop bodies and counter increments interleave in any order.
\<close>

section \<open>Splitting the input into batches\<close>

text \<open>
  One iteration of the loop in \<open>taskBatches\<close>; the loop state is \<open>(k, end, s, result)\<close>. C++ division
  and remainder truncate: \<open>sdiv\<close> and \<open>smod\<close>.
\<close>

function task_batches_loop ::
  "int \<Rightarrow> int \<Rightarrow> int \<Rightarrow> int \<Rightarrow> int \<Rightarrow> int list \<Rightarrow> int \<times> int list" where
  "task_batches_loop n m k end' s res =
     (if k < m then
        (let q = (n - k) sdiv m;
             r = (n - k) smod m;
             start = end';
             end'' = end' + q + (if r \<noteq> 0 then 1 else 0)
         in task_batches_loop n m (k + 1) end'' (s + end'' - start) (res @ [end'' - start]))
      else (s, res))"
  by pat_completeness auto
termination
  by (relation "measure (\<lambda>(n, m, k, e, s, res). nat (m - k))") auto

declare task_batches_loop.simps [simp del]

text \<open>The sums of the loop are exact here; the ones of the code, of type \<open>int\<close>, are exact up to
  \<open>2 ^ 30\<close> items.\<close>

definition taskBatches :: "nat \<Rightarrow> nat \<Rightarrow> int list result" where
  "taskBatches itemsCount tasks =
     bind_result (cxx_assert ''itemsCount >= tasks'' (tasks \<le> itemsCount)) (\<lambda>_.
       let n = int_of_size itemsCount;
           m = int_of_size tasks;
           (s, res) = task_batches_loop n m 0 0 0 []
       in bind_result (cxx_assert ''s == n'' (s = n)) (\<lambda>_. Inr res))"

text \<open>The size the loop gives to batch \<open>k\<close>: the first \<open>n mod m\<close> batches get one item more.\<close>

definition batch_size :: "int \<Rightarrow> int \<Rightarrow> int \<Rightarrow> int" where
  "batch_size n m k = n div m + (if k < n mod m then 1 else 0)"

lemma loop_item_eq_batch_size:
  fixes n m k :: int
  assumes "0 < m" "m \<le> n" "0 \<le> k" "k < m"
  shows "(n - k) sdiv m + (if (n - k) smod m \<noteq> 0 then 1 else 0) = batch_size n m k"
proof -
  have nn: "0 \<le> n - k" using assms by simp
  have sd: "(n - k) sdiv m = (n - k) div m" and sm: "(n - k) smod m = (n - k) mod m"
    using nn assms(1) by (simp_all add: signed_divide_int_def signed_modulo_int_def sgn_if abs_if
        minus_mult_div_eq_mod)
  define q r where "q = n div m" and "r = n mod m"
  have n: "n = m * q + r" and r: "0 \<le> r" "r < m"
    using assms(1) by (simp_all add: q_def r_def)
  consider "k < r" | "k = r" | "r < k" by linarith
  then show ?thesis
  proof cases
    case 1
    have e: "n - k = (r - k) + m * q" using n by simp
    have "(n - k) div m = q" "(n - k) mod m = r - k"
      unfolding e using 1 r assms(3) by (simp_all add: div_pos_pos_trivial)
    then show ?thesis unfolding sd sm batch_size_def q_def [symmetric] r_def [symmetric] using 1 by simp
  next
    case 2
    have e: "n - k = m * q" using n 2 by simp
    have "(n - k) div m = q" "(n - k) mod m = 0"
      unfolding e using assms(1) by simp_all
    then show ?thesis unfolding sd sm batch_size_def q_def [symmetric] r_def [symmetric] using 2 by simp
  next
    case 3
    have e: "n - k = (m + r - k) + m * (q - 1)" using n by (simp add: algebra_simps)
    have "(m + r - k) div m = 0" "(m + r - k) mod m = m + r - k"
      using 3 r assms(4) by (simp_all add: div_pos_pos_trivial)
    then have "(n - k) div m = q - 1" "(n - k) mod m = m + r - k"
      unfolding e using assms(1) by simp_all
    then show ?thesis unfolding sd sm batch_size_def q_def [symmetric] r_def [symmetric] using 3 r assms(4) by simp
  qed
qed

definition batch_offset :: "int \<Rightarrow> int \<Rightarrow> int \<Rightarrow> int" where
  "batch_offset n m k = k * (n div m) + min k (n mod m)"

lemma batch_offset_step: "batch_offset n m (k + 1) = batch_offset n m k + batch_size n m k"
  by (auto simp: batch_offset_def batch_size_def min_def algebra_simps)

lemma batch_offset_all: "0 < m \<Longrightarrow> batch_offset n m m = n"
proof -
  assume m: "0 < m"
  have "n mod m < m" using m by simp
  then show ?thesis by (simp add: batch_offset_def min_def)
qed

lemma task_batches_loop_eq:
  assumes "0 < m" "m \<le> n" "k = m - int j" "int j \<le> m"
  shows "task_batches_loop n m k (batch_offset n m k) (batch_offset n m k) res =
           (n, res @ map (batch_size n m) [k..m - 1])"
  using assms
proof (induction j arbitrary: k res)
  case 0
  then show ?case by (simp add: task_batches_loop.simps batch_offset_all)
next
  case (Suc j)
  have k: "0 \<le> k" "k < m" using Suc.prems by auto
  have step: "(n - k) sdiv m + (if (n - k) smod m \<noteq> 0 then 1 else 0) = batch_size n m k"
    by (rule loop_item_eq_batch_size [OF Suc.prems(1,2) k])
  let ?e = "batch_offset n m k"
  have e: "?e + (n - k) sdiv m + (if (n - k) smod m \<noteq> 0 then 1 else 0) = batch_offset n m (k + 1)"
    using step by (simp add: batch_offset_step)
  have d: "batch_offset n m (k + 1) - ?e = batch_size n m k"
    by (simp add: batch_offset_step)
  have "task_batches_loop n m k ?e ?e res =
          task_batches_loop n m (k + 1) (batch_offset n m (k + 1)) (batch_offset n m (k + 1))
            (res @ [batch_size n m k])"
    by (subst task_batches_loop.simps) (simp only: k(2) Let_def e if_True, simp add: d)
  also have "\<dots> = (n, (res @ [batch_size n m k]) @ map (batch_size n m) [k + 1..m - 1])"
    by (rule Suc.IH) (use Suc.prems in auto)
  also have "\<dots> = (n, res @ map (batch_size n m) [k..m - 1])"
    using k by (simp add: upto_rec1 [of k "m - 1"])
  finally show ?case .
qed

lemma taskBatches_eq:
  assumes "0 < m" "m \<le> n" "n < 2 ^ 31"
  shows "taskBatches n m = Inr (map (batch_size (int n) (int m)) [0..int m - 1])"
proof -
  have c: "int_of_size n = int n" "int_of_size m = int m"
    using assms by (simp_all add: int_of_size_small)
  have "task_batches_loop (int n) (int m) 0 0 0 [] =
          (int n, map (batch_size (int n) (int m)) [0..int m - 1])"
    using task_batches_loop_eq [of "int m" "int n" 0 m "[]"] assms
    by (simp add: batch_offset_def)
  then show ?thesis using assms(2) by (simp add: taskBatches_def c)
qed

lemma sum_list_batch_size:
  assumes "0 \<le> k" "0 < m"
  shows "sum_list (map (batch_size n m) [0..k - 1]) = batch_offset n m k"
proof -
  have "sum_list (map (batch_size n m) [0..int j - 1]) = batch_offset n m (int j)" for j
  proof (induction j)
    case 0
    then show ?case using assms(2) by (simp add: batch_offset_def)
  next
    case (Suc j)
    have "[0..int (Suc j) - 1] = [0..int j - 1] @ [int j]"
      using upto_rec2 [of 0 "int j"] by simp
    with Suc show ?case by (simp add: batch_offset_step add.commute [of 1])
  qed
  from this [of "nat k"] show ?thesis using assms by simp
qed

lemma taskBatches_sum:
  assumes "0 < m" "m \<le> n" "n < 2 ^ 31"
  shows "\<exists>bs. taskBatches n m = Inr bs \<and> sum_list bs = int n \<and> (\<forall>b \<in> set bs. 0 \<le> b)"
proof -
  have "\<forall>b \<in> set (map (batch_size (int n) (int m)) [0..int m - 1]). 0 \<le> b"
    using assms(1) by (auto simp: batch_size_def pos_imp_zdiv_nonneg_iff)
  then show ?thesis
    using taskBatches_eq [OF assms] sum_list_batch_size [of "int m" "int m" "int n"] assms(1)
    by (simp add: batch_offset_all)
qed

text \<open>C17. For every number of items up to the range of \<open>int\<close> and every number of workers
  between 1 and the number of items, \<open>taskBatches\<close> passes both of its assertions and returns one
  batch per worker; the batches add up to the number of items, none is empty, and they differ by
  at most one.\<close>

theorem taskBatches_fair_partition:
  assumes "0 < tasks" "tasks \<le> items" "items < 2 ^ 31"
  shows "\<exists>bs. taskBatches items tasks = Inr bs \<and> length bs = tasks \<and> sum_list bs = int items \<and>
    set bs \<subseteq> {int (items div tasks), int (items div tasks) + 1} \<and> (\<forall>b. b \<in> set bs \<longrightarrow> 1 \<le> b)"
proof -
  let ?bs = "map (batch_size (int items) (int tasks)) [0..int tasks - 1]"
  have eq: "taskBatches items tasks = Inr ?bs" by (rule taskBatches_eq [OF assms])
  have len: "length ?bs = tasks" by simp
  have sum: "sum_list ?bs = int items"
    using sum_list_batch_size [of "int tasks" "int tasks" "int items"] assms(1)
    by (simp add: batch_offset_all)
  have vals: "set ?bs \<subseteq> {int (items div tasks), int (items div tasks) + 1}"
    by (auto simp: batch_size_def zdiv_int split: if_splits)
  have "1 \<le> items div tasks" using assms(1,2) by (metis One_nat_def Suc_leI div_greater_zero_iff)
  then have "\<forall>b. b \<in> set ?bs \<longrightarrow> 1 \<le> b" using vals by fastforce
  with eq len sum vals show ?thesis by blast
qed

lemma taskBatches_fair_partition_witness:
  "\<exists>bs. taskBatches 11 4 = Inr bs \<and> length bs = 4 \<and> sum_list bs = int 11 \<and>
    set bs \<subseteq> {int (11 div 4), int (11 div 4) + 1} \<and> (\<forall>b. b \<in> set bs \<longrightarrow> 1 \<le> b)"
  by (rule taskBatches_fair_partition) simp_all

section \<open>The executor\<close>

text \<open>
  \<open>run xs st\<close> is a task's \<open>operator()(begin, end, storage, counter)\<close> on the range \<open>xs\<close>: it
  returns the storage after the loop. \<open>split_batches\<close> advances the iterators by the batch sizes.
\<close>

type_synonym ('i, 'o) batch_run = "'i list \<Rightarrow> 'o list \<Rightarrow> 'o list"

fun split_batches :: "int list \<Rightarrow> 'i list \<Rightarrow> 'i list list" where
  "split_batches [] xs = []"
| "split_batches (b # bs) xs = take (nat b) xs # split_batches bs (drop (nat b) xs)"

definition executeSequentially :: "('i, 'o) batch_run \<Rightarrow> 'i list \<Rightarrow> 'o list \<Rightarrow> 'o list" where
  "executeSequentially run input out = run input out"

definition executeInParallel ::
  "('i, 'o) batch_run \<Rightarrow> nat \<Rightarrow> 'i list \<Rightarrow> 'o list \<Rightarrow> 'o list result" where
  "executeInParallel run tasks input out =
     (let workers = min (length input) tasks
      in bind_result (taskBatches (length input) workers) (\<lambda>batches.
           let storages = map (\<lambda>chunk. run chunk []) (split_batches batches input)
           in Inr (out @ concat storages)))"

definition execute ::
  "('i, 'o) batch_run \<Rightarrow> nat \<Rightarrow> 'i list \<Rightarrow> 'o list \<Rightarrow> 'o list result" where
  "execute run tasks input out =
     (if tasks = 0 \<or> input = [] then Inr out
      else if tasks = 1 \<or> length input = 1 then Inr (executeSequentially run input out)
      else executeInParallel run tasks input out)"

lemma concat_split_batches:
  assumes "sum_list bs = int (length xs)" "\<forall>b \<in> set bs. 0 \<le> b"
  shows "concat (split_batches bs xs) = xs"
  using assms
proof (induction bs arbitrary: xs)
  case (Cons b bs)
  have nn: "0 \<le> sum_list bs" using Cons.prems(2) by (intro sum_list_nonneg) auto
  have "concat (split_batches bs (drop (nat b) xs)) = drop (nat b) xs"
    by (rule Cons.IH) (use Cons.prems nn in auto)
  then show ?case by simp
qed simp

subsection \<open>What the executor needs from a task\<close>

locale batch_task =
  fixes run :: "('i, 'o) batch_run"
  assumes run_Nil: "run [] st = st"
    and run_append: "run (xs @ ys) st = run ys (run xs st)"
    and run_storage: "run xs st = st @ run xs []"
begin

definition body :: "'i \<Rightarrow> 'o list" where
  "body x = run [x] []"

lemma run_eq_concat: "run xs st = st @ concat (map body xs)"
proof (induction xs arbitrary: st)
  case Nil
  then show ?case by (simp add: run_Nil)
next
  case (Cons x xs)
  have "run (x # xs) st = run xs (run [x] st)" using run_append [of "[x]" xs st] by simp
  also have "\<dots> = run [x] st @ concat (map body xs)" by (rule Cons.IH)
  also have "run [x] st = st @ body x" unfolding body_def by (rule run_storage)
  finally show ?case by simp
qed

lemma concat_runs: "concat (map (\<lambda>chunk. run chunk []) chunks) = run (concat chunks) []"
  by (induction chunks) (simp_all add: run_eq_concat)

lemma executeInParallel_eq:
  assumes "0 < tasks" "input \<noteq> []" "length input < 2 ^ 31"
  shows "executeInParallel run tasks input out = Inr (run input out)"
proof -
  let ?w = "min (length input) tasks"
  obtain bs where bs: "taskBatches (length input) ?w = Inr bs" "sum_list bs = int (length input)"
    and pos: "\<forall>b \<in> set bs. 0 \<le> b"
    using taskBatches_sum [of ?w "length input"] assms by auto
  have "concat (split_batches bs input) = input"
    by (rule concat_split_batches [OF bs(2) pos])
  then have "concat (map (\<lambda>chunk. run chunk []) (split_batches bs input)) = run input []"
    by (simp add: concat_runs)
  then show ?thesis
    using run_storage [of input out] by (simp add: executeInParallel_def bs(1) Let_def)
qed

lemma execute_eq:
  assumes "0 < tasks" "length input < 2 ^ 31"
  shows "execute run tasks input out = Inr (run input out)"
  using assms executeInParallel_eq run_Nil
  by (auto simp: execute_def executeSequentially_def)

lemma execute_no_tasks: "execute run 0 input out = Inr out"
  by (simp add: execute_def)

end

text \<open>The loop every task is written as: one push-back list per item.\<close>

definition for_each_push :: "('i \<Rightarrow> 'o list) \<Rightarrow> ('i, 'o) batch_run" where
  "for_each_push f xs st = st @ concat (map f xs)"

interpretation loop_task: batch_task "for_each_push f" for f
  by unfold_locales (simp_all add: for_each_push_def)

section \<open>Interleaved workers\<close>

text \<open>
  A worker thread holds the rest of its range, its own storage and its own counter. Its loop
  \<open>for (it = begin; it != end; ++it, counter.increment())\<close> takes two kinds of steps: the body at
  the current item, then the increment. The threads of \<open>executeInParallel\<close> share nothing else.
\<close>

record ('i, 'o) worker =
  pending :: "'i list"
  storage :: "'o list"
  counter :: nat
  at_increment :: bool

definition spawn :: "'i list \<Rightarrow> ('i, 'o) worker" where
  "spawn chunk = \<lparr>pending = chunk, storage = [], counter = 0, at_increment = False\<rparr>"

fun worker_step :: "('i \<Rightarrow> 'o list) \<Rightarrow> ('i, 'o) worker \<Rightarrow> ('i, 'o) worker option" where
  "worker_step f w =
     (case pending w of
        [] \<Rightarrow> None
      | x # xs \<Rightarrow>
          Some (if at_increment w
                then w\<lparr>pending := xs, counter := counter w + 1, at_increment := False\<rparr>
                else w\<lparr>storage := storage w @ f x, at_increment := True\<rparr>))"

inductive threads_step ::
  "('i \<Rightarrow> 'o list) \<Rightarrow> ('i, 'o) worker list \<Rightarrow> ('i, 'o) worker list \<Rightarrow> bool" for f where
  step: "i < length ws \<Longrightarrow> worker_step f (ws ! i) = Some w \<Longrightarrow> threads_step f ws (ws[i := w])"

inductive threads_reach ::
  "('i \<Rightarrow> 'o list) \<Rightarrow> ('i, 'o) worker list \<Rightarrow> ('i, 'o) worker list \<Rightarrow> bool" for f where
  start: "threads_reach f ws ws"
| more: "threads_reach f ws us \<Longrightarrow> threads_step f us vs \<Longrightarrow> threads_reach f ws vs"

inductive_cases threads_stepE: "threads_step f ws us"

definition joined :: "('i, 'o) worker list \<Rightarrow> bool" where
  "joined ws \<longleftrightarrow> (\<forall>w \<in> set ws. pending w = [])"

definition join_storages :: "('i, 'o) worker list \<Rightarrow> 'o list \<Rightarrow> 'o list" where
  "join_storages ws out = out @ concat (map storage ws)"

text \<open>The invariant of one worker that was given \<open>chunk\<close>.\<close>

definition worker_inv :: "('i \<Rightarrow> 'o list) \<Rightarrow> 'i list \<Rightarrow> ('i, 'o) worker \<Rightarrow> bool" where
  "worker_inv f chunk w \<longleftrightarrow>
     pending w = drop (counter w) chunk \<and> counter w \<le> length chunk \<and>
     storage w = concat (map f (take (counter w) chunk)) @
       (if at_increment w then f (hd (pending w)) else []) \<and>
     (at_increment w \<longrightarrow> pending w \<noteq> [])"

lemma worker_inv_spawn: "worker_inv f chunk (spawn chunk)"
  by (simp add: worker_inv_def spawn_def)

lemma worker_inv_pending: "worker_inv f chunk w \<Longrightarrow> pending w = drop (counter w) chunk"
  by (simp add: worker_inv_def)

lemma worker_inv_step:
  assumes "worker_inv f chunk w" "worker_step f w = Some w'"
  shows "worker_inv f chunk w'"
proof -
  obtain x xs where p: "pending w = x # xs" using assms(2) by (auto split: list.splits)
  have d: "drop (counter w) chunk = x # xs" using worker_inv_pending [OF assms(1)] p by simp
  then have len: "counter w < length chunk" by (metis drop_all list.discI not_le)
  have x: "chunk ! counter w = x" using d len by (metis hd_drop_conv_nth list.sel(1))
  have tk: "take (Suc (counter w)) chunk = take (counter w) chunk @ [x]"
    using len x by (simp add: take_Suc_conv_app_nth)
  have dr: "drop (Suc (counter w)) chunk = xs"
    using d by (metis drop_Suc list.sel(3) tl_drop)
  show ?thesis
  proof (cases "at_increment w")
    case True
    then have w': "w' = w\<lparr>pending := xs, counter := counter w + 1, at_increment := False\<rparr>"
      using assms(2) p by simp
    have st: "storage w = concat (map f (take (counter w) chunk)) @ f x"
      using assms(1) True p by (simp add: worker_inv_def)
    show ?thesis using dr len st by (simp add: worker_inv_def w' tk)
  next
    case False
    then have w': "w' = w\<lparr>storage := storage w @ f x, at_increment := True\<rparr>"
      using assms(2) p by simp
    have "storage w = concat (map f (take (counter w) chunk))"
      using assms(1) False by (simp add: worker_inv_def)
    then show ?thesis using len p d by (simp add: worker_inv_def w')
  qed
qed

lemma worker_inv_done:
  "worker_inv f chunk w \<Longrightarrow> pending w = [] \<Longrightarrow> storage w = concat (map f chunk)"
  by (auto simp: worker_inv_def)

lemma worker_inv_counter:
  assumes "worker_inv f chunk w"
  shows "counter w \<le> length chunk \<and> (counter w = length chunk \<longleftrightarrow> pending w = [])"
  using worker_inv_pending [OF assms] assms by (auto simp: worker_inv_def)

lemma threads_reach_inv:
  "threads_reach f ws us \<Longrightarrow> ws = map spawn chunks \<Longrightarrow> list_all2 (worker_inv f) chunks us"
proof (induction rule: threads_reach.induct)
  case (start ws)
  then show ?case by (auto simp: list_all2_conv_all_nth worker_inv_spawn)
next
  case (more ws us vs)
  from more.IH more.prems have inv: "list_all2 (worker_inv f) chunks us" by simp
  from more.hyps(2) obtain i w where i: "i < length us" "worker_step f (us ! i) = Some w"
    and vs: "vs = us[i := w]" by (auto elim: threads_stepE)
  have "worker_inv f (chunks ! i) w"
    by (rule worker_inv_step [OF _ i(2)]) (use inv i(1) in \<open>auto simp: list_all2_conv_all_nth\<close>)
  then show ?case
    using inv i(1) unfolding vs by (auto simp: list_all2_conv_all_nth nth_list_update)
qed

lemma joined_storages:
  assumes "list_all2 (worker_inv f) chunks us" "joined us"
  shows "concat (map storage us) = concat (map f (concat chunks))"
  using assms
proof (induction rule: list_all2_induct)
  case (Cons c cs w ws)
  then show ?case by (auto simp: joined_def worker_inv_done)
qed simp

definition work_left :: "('i, 'o) worker list \<Rightarrow> nat" where
  "work_left ws = sum_list (map (\<lambda>w. 2 * length (pending w) - (if at_increment w then 1 else 0)) ws)"

lemma worker_step_work_left:
  "worker_step f w = Some w' \<Longrightarrow>
     2 * length (pending w') - (if at_increment w' then 1 else 0) <
     2 * length (pending w) - (if at_increment w then 1 else 0)"
  by (auto split: list.splits if_splits)

lemma threads_step_decreases:
  assumes "threads_step f ws us"
  shows "work_left us < work_left ws"
proof -
  let ?m = "\<lambda>w :: ('a, 'b) worker. 2 * length (pending w) - (if at_increment w then 1 else (0::nat))"
  from assms obtain i w where i: "i < length ws" and st: "worker_step f (ws ! i) = Some w"
    and us: "us = ws[i := w]" by (auto elim: threads_stepE)
  have "?m w < ?m (ws ! i)" using worker_step_work_left [OF st] by simp
  moreover have "work_left us + ?m (ws ! i) = work_left ws + ?m w"
    using sum_list_list_update [of i "map ?m ws" "?m w"] i
    by (simp add: work_left_def us map_update)
  ultimately show ?thesis by simp
qed

lemma threads_progress:
  assumes "\<not> joined ws"
  shows "\<exists>us. threads_step f ws us"
proof -
  from assms obtain w where "w \<in> set ws" "pending w \<noteq> []" by (auto simp: joined_def)
  then obtain i x xs where "i < length ws" "pending (ws ! i) = x # xs"
    by (metis in_set_conv_nth neq_Nil_conv)
  then show ?thesis by (auto intro!: exI threads_step.step)
qed

lemma threads_reach_trans1:
  assumes "threads_step f us vs" "threads_reach f vs ws"
  shows "threads_reach f us ws"
  using assms(2,1) by induction (auto intro: threads_reach.intros)

lemma threads_can_finish: "\<exists>us. threads_reach f ws us \<and> joined us"
proof (induction "work_left ws" arbitrary: ws rule: less_induct)
  case less
  show ?case
  proof (cases "joined ws")
    case True
    then show ?thesis by (auto intro: threads_reach.start)
  next
    case False
    then obtain us where us: "threads_step f ws us" using threads_progress by blast
    from less [OF threads_step_decreases [OF us]] show ?thesis
      using threads_reach_trans1 [OF us] by blast
  qed
qed

section \<open>The progress reporter\<close>

text \<open>
  One round of the reporter's loop: the counters are read one by one and added up (\<open>snapshot\<close>);
  the loop goes on while the sum is 0 and ends when it is the total.
\<close>

definition reporter_exits :: "nat \<Rightarrow> nat list \<Rightarrow> bool" where
  "reporter_exits items snapshot =
     (let current = sum_list snapshot
      in if current = 0 then False else current = items)"

lemma sum_list_le_eq:
  fixes xs ys :: "nat list"
  assumes "list_all2 (\<le>) xs ys" "sum_list ys \<le> sum_list xs"
  shows "xs = ys"
  using assms
proof (induction rule: list_all2_induct)
  case (Cons x xs y ys)
  have "sum_list xs \<le> sum_list ys"
    using Cons(2) by (induction rule: list_all2_induct) auto
  with Cons show ?case by auto
qed simp

lemma threads_counters:
  assumes "list_all2 (worker_inv f) chunks ws"
  shows "sum_list (map counter ws) \<le> length (concat chunks) \<and>
    (sum_list (map counter ws) = length (concat chunks) \<longleftrightarrow> joined ws)"
  using assms
proof (induction rule: list_all2_induct)
  case (Cons c cs w ws)
  with worker_inv_counter [OF Cons(1)] show ?case by (auto simp: joined_def)
qed (simp add: joined_def)

lemma concat_batches_of:
  assumes "taskBatches (length input) workers = Inr bs" "0 < workers" "workers \<le> length input"
    "length input < 2 ^ 31"
  shows "concat (split_batches bs input) = input"
  using concat_split_batches taskBatches_sum [OF assms(2-4)] assms(1) by fastforce

section \<open>Properties\<close>

text \<open>Running a task on several workers gives exactly the output of the sequential run, in
  the same order, whatever the number of workers is, as long as there is one worker.\<close>

lemma execute_equals_sequential:
  assumes "0 < tasks" "length input < 2 ^ 31"
  shows "execute (for_each_push f) tasks input out =
    Inr (executeSequentially (for_each_push f) input out)"
  using loop_task.execute_eq [OF assms] by (simp add: executeSequentially_def)

lemma execute_equals_sequential_witness:
  "execute (for_each_push (\<lambda>x::nat. [x, x + 10])) 3 [1, 2, 3, 4] [] =
    Inr (executeSequentially (for_each_push (\<lambda>x::nat. [x, x + 10])) [1, 2, 3, 4] [])"
  by (rule execute_equals_sequential) simp_all

text \<open>C6. Every interleaving of the worker threads' loop bodies and counter increments that lets
  all threads be joined leaves storages whose concatenation is the sequential output.\<close>

theorem executeInParallel_any_schedule:
  assumes "0 < tasks" "input \<noteq> []" "length input < 2 ^ 31"
    and "taskBatches (length input) (min (length input) tasks) = Inr bs"
    and "threads_reach f (map spawn (split_batches bs input)) ws" "joined ws"
  shows "executeInParallel (for_each_push f) tasks input out = Inr (join_storages ws out) \<and>
    join_storages ws out = executeSequentially (for_each_push f) input out"
proof -
  have "concat (map storage ws) = concat (map f (concat (split_batches bs input)))"
    by (rule joined_storages [OF threads_reach_inv [OF assms(5) refl] assms(6)])
  also have "concat (split_batches bs input) = input"
    by (rule concat_batches_of [OF assms(4)]) (use assms in auto)
  finally have "join_storages ws out = for_each_push f input out"
    by (simp add: join_storages_def for_each_push_def)
  then show ?thesis
    using loop_task.executeInParallel_eq [OF assms(1-3)] by (simp add: executeSequentially_def)
qed

lemma executeInParallel_any_schedule_witness:
  "\<exists>ws :: (nat, nat) worker list. joined ws \<and>
    executeInParallel (for_each_push (\<lambda>x::nat. [2 * x])) 2 [1, 2, 3] [] = Inr (join_storages ws []) \<and>
    join_storages ws [] = executeSequentially (for_each_push (\<lambda>x. [2 * x])) [1, 2, 3] []"
proof -
  obtain bs where bs: "taskBatches (length [1, 2, 3::nat]) (min (length [1, 2, 3::nat]) 2) = Inr bs"
    using taskBatches_sum [of "min (length [1, 2, 3::nat]) 2" "length [1, 2, 3::nat]"] by auto
  obtain ws where ws: "threads_reach (\<lambda>x::nat. [2 * x]) (map spawn (split_batches bs [1, 2, 3])) ws"
    and j: "joined ws" using threads_can_finish by blast
  have "executeInParallel (for_each_push (\<lambda>x::nat. [2 * x])) 2 [1, 2, 3] [] = Inr (join_storages ws []) \<and>
    join_storages ws [] = executeSequentially (for_each_push (\<lambda>x. [2 * x])) [1, 2, 3] []"
    by (rule executeInParallel_any_schedule [OF _ _ _ bs ws j]) simp_all
  with j show ?thesis by blast
qed

text \<open>C18. The progress reporter never ends its loop early: if what it has read of the counters (at
  different moments, so each value is at most the counter's present one) adds up to the total, then
  every worker has processed its whole batch. And once the workers are done, a fresh reading of
  the counters ends the loop, so joining the reporter thread cannot block.\<close>

theorem reporter_exits_iff_workers_done:
  assumes "0 < tasks" "input \<noteq> []" "length input < 2 ^ 31"
    and "taskBatches (length input) (min (length input) tasks) = Inr bs"
    and "threads_reach f (map spawn (split_batches bs input)) ws"
    and "list_all2 (\<le>) snapshot (map counter ws)"
  shows "(reporter_exits (length input) snapshot \<longrightarrow> joined ws) \<and>
    (joined ws \<longrightarrow> reporter_exits (length input) (map counter ws))"
proof -
  have c: "concat (split_batches bs input) = input"
    by (rule concat_batches_of [OF assms(4)]) (use assms in auto)
  note cnt = threads_counters [OF threads_reach_inv [OF assms(5) refl], unfolded c]
  have "joined ws" if "reporter_exits (length input) snapshot"
  proof -
    have "sum_list snapshot = length input"
      using that by (simp only: reporter_exits_def Let_def split: if_splits)
    then show ?thesis using sum_list_le_eq [OF assms(6)] cnt by auto
  qed
  moreover have "reporter_exits (length input) (map counter ws)" if "joined ws"
  proof -
    have s: "sum_list (map counter ws) = length input" using cnt that by blast
    show ?thesis unfolding reporter_exits_def Let_def s using assms(2) by simp
  qed
  ultimately show ?thesis by blast
qed

lemma reporter_exits_iff_workers_done_witness:
  "\<exists>ws :: (char, char) worker list. joined ws \<and> reporter_exits 3 (map counter ws)"
proof -
  obtain bs where bs: "taskBatches (length ''abc'') (min (length ''abc'') 2) = Inr bs"
    using taskBatches_sum [of "min (length ''abc'') 2" "length ''abc''"] by auto
  obtain ws where ws: "threads_reach (\<lambda>c. [c, c]) (map spawn (split_batches bs ''abc'')) ws"
    and j: "joined ws" using threads_can_finish by blast
  have "(reporter_exits (length ''abc'') (map counter ws) \<longrightarrow> joined ws) \<and>
    (joined ws \<longrightarrow> reporter_exits (length ''abc'') (map counter ws))"
    by (rule reporter_exits_iff_workers_done [OF _ _ _ bs ws]) (simp_all add: list.rel_refl)
  with j show ?thesis by (auto simp: numeral_3_eq_3)
qed

end
