(* ===== verification/Tasks.thy ===== *)
theory Tasks
  imports TaskExecutor Diagnostics
begin

text \<open>
  How the components use the task executor. The body of a task may end the process (a failed
  assertion, \<open>Diagnostics::error\<close>): it pushes a \<open>result\<close>, and the first failure in input order stands
  for the process ending. What worker threads log is not modelled.
\<close>

definition run_tasks :: "int \<Rightarrow> ('i \<Rightarrow> 'o result list) \<Rightarrow> 'i list \<Rightarrow> 'o list result" where
  "run_tasks workers body input =
     bind_result (execute (for_each_push body) (nat workers) input []) (map_result_list (\<lambda>r. r))"

text \<open>A task that changes its items in place and stores nothing; no workers, no change.\<close>

definition update_tasks :: "int \<Rightarrow> ('i \<Rightarrow> 'i) \<Rightarrow> 'i list \<Rightarrow> 'i list result" where
  "update_tasks workers body input =
     (if workers \<le> 0 then Inr input else run_tasks workers (\<lambda>x. [Inr (body x)]) input)"

lemma run_tasks_eq:
  assumes "0 < workers" "length input < 2 ^ 31"
  shows "run_tasks workers body input = map_result_list (\<lambda>r. r) (concat (map body input))"
proof -
  have "execute (for_each_push body) (nat workers) input [] = Inr (for_each_push body input [])"
    by (rule loop_task.execute_eq) (use assms in auto)
  then show ?thesis by (simp add: run_tasks_def for_each_push_def)
qed

lemma map_result_list_Inr: "map_result_list (\<lambda>r. r) (map Inr xs) = Inr xs"
  by (induction xs) auto

lemma map_result_list_append:
  "map_result_list f (xs @ ys) =
     bind_result (map_result_list f xs) (\<lambda>us. bind_result (map_result_list f ys) (\<lambda>vs. Inr (us @ vs)))"
proof (induction xs)
  case Nil
  show ?case by (cases "map_result_list f ys") auto
next
  case (Cons x xs)
  then show ?case
    by (cases "f x"; cases "map_result_list f xs"; cases "map_result_list f ys") auto
qed

text \<open>Tasks whose bodies never fail give the concatenation of what they push.\<close>

lemma run_tasks_pure:
  assumes "0 < workers" "length input < 2 ^ 31"
  shows "run_tasks workers (\<lambda>x. map Inr (g x)) input = Inr (concat (map g input))"
proof -
  have "concat (map (\<lambda>x. map Inr (g x)) input) = (map Inr (concat (map g input)) :: _ result list)"
    by (simp add: map_concat comp_def)
  then show ?thesis by (simp only: run_tasks_eq [OF assms] map_result_list_Inr)
qed

lemma run_tasks_one_each:
  assumes "0 < workers" "length input < 2 ^ 31"
  shows "run_tasks workers (\<lambda>x. [Inr (g x)]) input = Inr (map g input)"
  using run_tasks_pure [OF assms, of "\<lambda>x. [g x]"] by simp

text \<open>The body of a filter task: an item is kept unless the filter skips it.\<close>

definition keep_unless :: "('i \<Rightarrow> bool result) \<Rightarrow> 'i \<Rightarrow> 'i result list" where
  "keep_unless shouldSkip x =
     (case shouldSkip x of Inl e \<Rightarrow> [Inl e] | Inr skip \<Rightarrow> if skip then [] else [Inr x])"

lemma run_filter_tasks:
  assumes "0 < workers" "length input < 2 ^ 31"
    and "\<And>x. x \<in> set input \<Longrightarrow> shouldSkip x = Inr (skip x)"
  shows "run_tasks workers (keep_unless shouldSkip) input = Inr (filter (\<lambda>x. \<not> skip x) input)"
proof -
  have "concat (map (keep_unless shouldSkip) input) =
      (map Inr (filter (\<lambda>x. \<not> skip x) input) :: _ result list)"
    using assms(3) by (induction input) (auto simp: keep_unless_def)
  then show ?thesis using assms by (simp add: run_tasks_eq map_result_list_Inr)
qed

text \<open>When a task that pushes one result per item succeeds, it pushed the results of the items.\<close>

lemma map_result_list_Inr_D:
  "map_result_list f xs = Inr ys \<Longrightarrow> list_all2 (\<lambda>x y. f x = Inr y) xs ys"
  by (induction xs arbitrary: ys) auto

lemma run_tasks_one_each_D:
  assumes "run_tasks workers (\<lambda>x. [f x]) input = Inr ys" "0 < workers" "length input < 2 ^ 31"
  shows "list_all2 (\<lambda>x y. f x = Inr y) input ys"
proof -
  have "map_result_list (\<lambda>r. r) (map f input) = Inr ys"
    using assms(1) by (simp add: run_tasks_eq [OF assms(2,3)])
  from map_result_list_Inr_D [OF this] show ?thesis by (simp add: list.rel_map)
qed

section \<open>Filters applied one after the other\<close>

text \<open>One executor per filter, each on what the ones before have kept.\<close>

fun filter_in_turn :: "int \<Rightarrow> ('a \<Rightarrow> bool result) list \<Rightarrow> 'a list \<Rightarrow> 'a list result" where
  "filter_in_turn n [] xs = Inr xs"
| "filter_in_turn n (f # fs) xs = bind_result (run_tasks n (keep_unless f) xs) (filter_in_turn n fs)"

text \<open>Whether an item passes all filters; a filter is asked only about items the earlier ones keep.\<close>

fun passes :: "('a \<Rightarrow> bool result) list \<Rightarrow> 'a \<Rightarrow> bool result" where
  "passes [] x = Inr True"
| "passes (f # fs) x = bind_result (f x) (\<lambda>skip. if skip then Inr False else passes fs x)"

definition kept :: "('a \<Rightarrow> bool result) list \<Rightarrow> 'a list \<Rightarrow> 'a list" where
  "kept fs xs = filter (\<lambda>x. passes fs x = Inr True) xs"

definition decided :: "('a \<Rightarrow> bool result) list \<Rightarrow> 'a list \<Rightarrow> bool" where
  "decided fs xs \<longleftrightarrow> list_all (\<lambda>x. isl (passes fs x) = False) xs"

text \<open>
  A filter of mutation points gets a pointer and may write to the point: it gives \<open>None\<close>, or the point
  as it leaves it.
\<close>

definition keep_as :: "('a \<Rightarrow> 'a option result) \<Rightarrow> 'a \<Rightarrow> 'a result list" where
  "keep_as f x =
     (case f x of Inl e \<Rightarrow> [Inl e] | Inr None \<Rightarrow> [] | Inr (Some y) \<Rightarrow> [Inr y])"

fun apply_in_turn :: "int \<Rightarrow> ('a \<Rightarrow> 'a option result) list \<Rightarrow> 'a list \<Rightarrow> 'a list result" where
  "apply_in_turn n [] xs = Inr xs"
| "apply_in_turn n (f # fs) xs = bind_result (run_tasks n (keep_as f) xs) (apply_in_turn n fs)"

fun outcome_of :: "('a \<Rightarrow> 'a option result) list \<Rightarrow> 'a \<Rightarrow> 'a option result" where
  "outcome_of [] x = Inr (Some x)"
| "outcome_of (f # fs) x = bind_result (f x) (\<lambda>r. case r of None \<Rightarrow> Inr None | Some y \<Rightarrow> outcome_of fs y)"

definition kept_as :: "('a \<Rightarrow> 'a option result) list \<Rightarrow> 'a list \<Rightarrow> 'a list" where
  "kept_as fs xs = List.map_filter (\<lambda>x. projr (outcome_of fs x)) xs"

definition decided_as :: "('a \<Rightarrow> 'a option result) list \<Rightarrow> 'a list \<Rightarrow> bool" where
  "decided_as fs xs \<longleftrightarrow> list_all (\<lambda>x. isl (outcome_of fs x) = False) xs"

lemma run_keep_as:
  assumes "0 < n" "length xs < 2 ^ 31" "\<And>x. x \<in> set xs \<Longrightarrow> f x = Inr (g x)"
  shows "run_tasks n (keep_as f) xs = Inr (List.map_filter g xs)"
proof -
  have "concat (map (keep_as f) xs) = (map Inr (List.map_filter g xs) :: _ result list)"
    using assms(3) by (induction xs) (auto simp: keep_as_def List.map_filter_simps split: option.split)
  then show ?thesis using assms by (simp add: run_tasks_eq map_result_list_Inr)
qed

lemma length_map_filter_le: "length (List.map_filter g xs) \<le> length xs"
  by (simp add: List.map_filter_def)

lemma apply_in_turn_eq:
  assumes "0 < n" "length xs < 2 ^ 31" "decided_as fs xs"
  shows "apply_in_turn n fs xs = Inr (kept_as fs xs)"
  using assms(2,3)
proof (induction fs arbitrary: xs)
  case (Cons f fs)
  define g where "g x = projr (f x)" for x
  have f: "f x = Inr (g x)" if "x \<in> set xs" for x
    using Cons.prems(2) that
    by (cases "f x") (auto simp: decided_as_def list_all_iff g_def)
  let ?ys = "List.map_filter g xs"
  have "run_tasks n (keep_as f) xs = Inr ?ys"
    using run_keep_as [OF assms(1) Cons.prems(1)] f by blast
  moreover have "apply_in_turn n fs ?ys = Inr (kept_as fs ?ys)"
  proof (rule Cons.IH)
    show "length ?ys < 2 ^ 31" using Cons.prems(1) length_map_filter_le [of g xs] by linarith
    show "decided_as fs ?ys" unfolding decided_as_def list_all_iff
    proof
      fix y assume "y \<in> set ?ys"
      then obtain x where x: "x \<in> set xs" "g x = Some y" by (auto simp: List.map_filter_def)
      have "isl (outcome_of (f # fs) x) = False"
        using Cons.prems(2) x(1) unfolding decided_as_def list_all_iff by blast
      then show "isl (outcome_of fs y) = False" using x by (simp add: f)
    qed
  qed
  moreover have "kept_as fs ?ys = kept_as (f # fs) xs"
    unfolding kept_as_def using f
    by (induction xs) (auto simp: List.map_filter_simps split: option.split)
  ultimately show ?case by simp
qed (simp add: kept_as_def List.map_filter_def)

text \<open>A filter that only looks.\<close>

definition only_skips :: "('a \<Rightarrow> bool result) \<Rightarrow> 'a \<Rightarrow> 'a option result" where
  "only_skips f x = bind_result (f x) (\<lambda>skip. Inr (if skip then None else Some x))"

lemma keep_as_only_skips: "keep_as (only_skips f) = keep_unless f"
proof
  fix x
  show "keep_as (only_skips f) x = keep_unless f x"
    by (cases "f x") (simp_all add: keep_as_def keep_unless_def only_skips_def)
qed

lemma filter_in_turn_apply: "filter_in_turn n fs xs = apply_in_turn n (map only_skips fs) xs"
proof (induction fs arbitrary: xs)
  case (Cons f fs)
  then show ?case by (simp add: keep_as_only_skips) (metis (no_types) ext)
qed simp

lemma outcome_only_skips:
  "outcome_of (map only_skips fs) x =
     (case passes fs x of Inl e \<Rightarrow> Inl e | Inr b \<Rightarrow> Inr (if b then Some x else None))"
proof (induction fs)
  case (Cons f fs)
  then show ?case by (cases "f x") (auto simp: only_skips_def)
qed simp

lemma kept_only_skips:
  assumes "decided fs xs"
  shows "kept_as (map only_skips fs) xs = kept fs xs"
  using assms unfolding decided_def
  by (induction xs) (auto simp: kept_as_def kept_def List.map_filter_simps outcome_only_skips split: sum.split)

lemma filter_in_turn_eq:
  assumes "0 < n" "length xs < 2 ^ 31" "decided fs xs"
  shows "filter_in_turn n fs xs = Inr (kept fs xs)"
proof -
  have "decided_as (map only_skips fs) xs"
    using assms(3) unfolding decided_def decided_as_def list_all_iff outcome_only_skips
    by (auto split: sum.split)
  from apply_in_turn_eq [OF assms(1,2) this] show ?thesis
    by (simp add: filter_in_turn_apply kept_only_skips [OF assms(3)])
qed

end
