(* ===== verification/Mutators.thy ===== *)
theory Mutators
  imports SourceLocations
begin

text \<open>
  The mutation operators: \<open>MutatorKind.h\<close>/\<open>.cpp\<close> and the classes of \<open>lib/Mutators\<close>. A mutator is a
  record of what its class reports and of its list of low-level mutations; the class itself (which
  \<open>getMutations\<close> and \<open>applyMutation\<close> it has) is the field \<open>dynamic_class\<close>. The low-level mutations
  are classes of the irm library, which is not in the repository: the datatype names a class and its
  constructor arguments and says nothing of what they do.
\<close>

section \<open>Kinds\<close>

datatype mutator_kind =
    Kind_InvalidKind
  | Kind_NegateMutator
  | Kind_ScalarValueMutator
  | Kind_CXX_RemoveVoidCall
  | Kind_CXX_ReplaceScalarCall
  | Kind_CXX_AddToSub
  | Kind_CXX_AddAssignToSubAssign
  | Kind_CXX_PreIncToPreDec
  | Kind_CXX_PostIncToPostDec
  | Kind_CXX_SubToAdd
  | Kind_CXX_SubAssignToAddAssign
  | Kind_CXX_PreDecToPreInc
  | Kind_CXX_PostDecToPostInc
  | Kind_CXX_MulToDiv
  | Kind_CXX_MulAssignToDivAssign
  | Kind_CXX_DivToMul
  | Kind_CXX_DivAssignToMulAssign
  | Kind_CXX_RemToDiv
  | Kind_CXX_RemAssignToDivAssign
  | Kind_CXX_BitwiseNotToNoop
  | Kind_CXX_UnaryMinusToNoop
  | Kind_CXX_LShiftToRShift
  | Kind_CXX_LShiftAssignToRShiftAssign
  | Kind_CXX_RShiftToLShift
  | Kind_CXX_RShiftAssignToLShiftAssign
  | Kind_CXX_Logical_AndToOr
  | Kind_CXX_Logical_OrToAnd
  | Kind_CXX_Bitwise_OrToAnd
  | Kind_CXX_Bitwise_OrAssignToAndAssign
  | Kind_CXX_Bitwise_AndToOr
  | Kind_CXX_Bitwise_AndAssignToOrAssign
  | Kind_CXX_Bitwise_XorToOr
  | Kind_CXX_Bitwise_XorAssignToOrAssign
  | Kind_CXX_LessThanToLessOrEqual
  | Kind_CXX_LessOrEqualToLessThan
  | Kind_CXX_GreaterThanToGreaterOrEqual
  | Kind_CXX_GreaterOrEqualToGreaterThan
  | Kind_CXX_GreaterThanToLessOrEqual
  | Kind_CXX_GreaterOrEqualToLessThan
  | Kind_CXX_LessThanToGreaterOrEqual
  | Kind_CXX_LessOrEqualToGreaterThan
  | Kind_CXX_EqualToNotEqual
  | Kind_CXX_NotEqualToEqual
  | Kind_CXX_AssignConst
  | Kind_CXX_InitConst
  | Kind_CXX_RemoveNegation

fun MutationKindToString :: "mutator_kind \<Rightarrow> string" where
  "MutationKindToString Kind_InvalidKind = ''Unknown''"
| "MutationKindToString Kind_NegateMutator = ''Negate''"
| "MutationKindToString Kind_ScalarValueMutator = ''Scalar Value''"
| "MutationKindToString Kind_CXX_RemoveVoidCall = ''Remove Void''"
| "MutationKindToString Kind_CXX_ReplaceScalarCall = ''Replace Call''"
| "MutationKindToString Kind_CXX_AddToSub = ''Add to Sub''"
| "MutationKindToString Kind_CXX_AddAssignToSubAssign = ''Add-Assign to Sub-Assign''"
| "MutationKindToString Kind_CXX_PreIncToPreDec = ''Pre-Inc to Pre-Dec''"
| "MutationKindToString Kind_CXX_PostIncToPostDec = ''Post-Inc to Post-Dec''"
| "MutationKindToString Kind_CXX_SubToAdd = ''Sub to Add''"
| "MutationKindToString Kind_CXX_SubAssignToAddAssign = ''Sub-Assign to Add-Assign''"
| "MutationKindToString Kind_CXX_PreDecToPreInc = ''Pre-Dec to Pre-Inc''"
| "MutationKindToString Kind_CXX_PostDecToPostInc = ''Post-Dec to Post-Inc''"
| "MutationKindToString Kind_CXX_MulToDiv = ''Mul to Div''"
| "MutationKindToString Kind_CXX_MulAssignToDivAssign = ''Mul-Assign to Div-Assign''"
| "MutationKindToString Kind_CXX_DivToMul = ''Div to Mul''"
| "MutationKindToString Kind_CXX_DivAssignToMulAssign = ''Div-Assign to Mul-Assign''"
| "MutationKindToString Kind_CXX_RemToDiv = ''Rem to Div''"
| "MutationKindToString Kind_CXX_RemAssignToDivAssign = ''Rem-Assign to Div-Assign''"
| "MutationKindToString Kind_CXX_BitwiseNotToNoop = ''Bitwise Not to Noop''"
| "MutationKindToString Kind_CXX_UnaryMinusToNoop = ''Unary Minus to Noop''"
| "MutationKindToString Kind_CXX_LShiftToRShift = ''Left Shift to Right Shift''"
| "MutationKindToString Kind_CXX_LShiftAssignToRShiftAssign = ''Left Shift-Assign to Right Shift-Assign''"
| "MutationKindToString Kind_CXX_RShiftToLShift = ''Right Shift to Left Shift''"
| "MutationKindToString Kind_CXX_RShiftAssignToLShiftAssign = ''Right Shift-Assign to Left Shift-Assign''"
| "MutationKindToString Kind_CXX_Logical_AndToOr = ''Logical And to Or''"
| "MutationKindToString Kind_CXX_Logical_OrToAnd = ''Logical Or to And''"
| "MutationKindToString Kind_CXX_Bitwise_OrToAnd = ''Bitwise Or to And''"
| "MutationKindToString Kind_CXX_Bitwise_OrAssignToAndAssign = ''Bitwise Or-Assign to And-Assign''"
| "MutationKindToString Kind_CXX_Bitwise_AndToOr = ''Bitwise And to Or''"
| "MutationKindToString Kind_CXX_Bitwise_AndAssignToOrAssign = ''Bitwise And-Assign to Or-Assign''"
| "MutationKindToString Kind_CXX_Bitwise_XorToOr = ''Bitwise Xor to Or''"
| "MutationKindToString Kind_CXX_Bitwise_XorAssignToOrAssign = ''Bitwise Xor-Assign to Or-Assign''"
| "MutationKindToString Kind_CXX_LessThanToLessOrEqual = ''Less Than to Less Or Equal''"
| "MutationKindToString Kind_CXX_LessOrEqualToLessThan = ''Less Or Equal to Less Than''"
| "MutationKindToString Kind_CXX_GreaterThanToGreaterOrEqual = ''Greater Than to Greater or Equal''"
| "MutationKindToString Kind_CXX_GreaterOrEqualToGreaterThan = ''Greater Or Equal to Greater Than''"
| "MutationKindToString Kind_CXX_GreaterThanToLessOrEqual = ''Greater Than to Less Or Equal''"
| "MutationKindToString Kind_CXX_GreaterOrEqualToLessThan = ''Greater Or Equal to Less Than''"
| "MutationKindToString Kind_CXX_LessThanToGreaterOrEqual = ''Less Than to Greater Or Equal''"
| "MutationKindToString Kind_CXX_LessOrEqualToGreaterThan = ''Less Or Equal To Greater Than''"
| "MutationKindToString Kind_CXX_EqualToNotEqual = ''Equal to Not Equal''"
| "MutationKindToString Kind_CXX_NotEqualToEqual = ''Not Equal to Equal''"
| "MutationKindToString Kind_CXX_AssignConst = ''Assign Const''"
| "MutationKindToString Kind_CXX_InitConst = ''Init Const''"
| "MutationKindToString Kind_CXX_RemoveNegation = ''Remove Unary Negation''"

text \<open>\<open>MutatorKindSet\<close> is an unordered set of kinds; \<open>create\<close> forgets order and duplicates.\<close>

definition MutatorKindSet_create :: "mutator_kind list \<Rightarrow> mutator_kind set" where
  "MutatorKindSet_create kinds = set kinds"

definition includesMutator :: "mutator_kind set \<Rightarrow> mutator_kind \<Rightarrow> bool" where
  "includesMutator kinds k \<longleftrightarrow> k \<in> kinds"

section \<open>Low-level mutations and the mutator classes\<close>

datatype irm_mutation = irm string "int list"

datatype mutator_class =
    TrivialCXXMutator_class
  | NegateConditionMutator_class
  | ScalarValueMutator_class
  | UnaryMinusToNoop_class
  | LogicalAndToOr_class
  | LogicalOrToAnd_class

record mutator =
  dynamic_class :: mutator_class
  lowLevelMutators :: "irm_mutation list"
  mutatorKind :: mutator_kind
  getUniqueIdentifier :: string
  getDescription :: string
  getReplacement :: string
  getDiagnostics :: string

definition TrivialCXXMutator ::
  "irm_mutation list \<Rightarrow> mutator_kind \<Rightarrow> string \<Rightarrow> string \<Rightarrow> string \<Rightarrow> string \<Rightarrow> mutator" where
  "TrivialCXXMutator mutators kind ident description replacement diagnostics =
     \<lparr>dynamic_class = TrivialCXXMutator_class, lowLevelMutators = mutators, mutatorKind = kind,
      getUniqueIdentifier = ident, getDescription = description, getReplacement = replacement,
      getDiagnostics = diagnostics\<rparr>"

subsection \<open>\<^verbatim>\<open>lib/Mutators/CXX/ArithmeticMutators.cpp\<close>\<close>

definition getAddToSub :: "irm_mutation list" where
  "getAddToSub = [irm ''AddToSub'' [], irm ''FAddToFSub'' [], irm ''sadd_with_overflowTossub_with_overflow'' []]"

definition AddToSub_ID :: string where
  "AddToSub_ID = ''cxx_add_to_sub''"

definition AddAssignToSubAssign_ID :: string where
  "AddAssignToSubAssign_ID = ''cxx_add_assign_to_sub_assign''"

definition PostIncToPostDec_ID :: string where
  "PostIncToPostDec_ID = ''cxx_post_inc_to_post_dec''"

definition PreIncToPreDec_ID :: string where
  "PreIncToPreDec_ID = ''cxx_pre_inc_to_pre_dec''"

definition getSubToAdd :: "irm_mutation list" where
  "getSubToAdd = [irm ''SubToAdd'' [], irm ''FSubToFAdd'' [], irm ''ssub_with_overflowTosadd_with_overflow'' []]"

definition SubToAdd_ID :: string where
  "SubToAdd_ID = ''cxx_sub_to_add''"

definition SubAssignToAddAssign_ID :: string where
  "SubAssignToAddAssign_ID = ''cxx_sub_assign_to_add_assign''"

definition getDecToInc :: "irm_mutation list" where
  "getDecToInc = [irm ''SubToAdd'' [], irm ''FSubToFAdd'' [], irm ''ssub_with_overflowTosadd_with_overflow'' [], irm ''AddToSub'' []]"

definition PostDecToPostInc_ID :: string where
  "PostDecToPostInc_ID = ''cxx_post_dec_to_post_inc''"

definition PreDecToPreInc_ID :: string where
  "PreDecToPreInc_ID = ''cxx_pre_dec_to_pre_inc''"

definition getMulToDiv :: "irm_mutation list" where
  "getMulToDiv = [irm ''MulToSDiv'' [], irm ''FMulToFDiv'' []]"

definition MulToDiv_ID :: string where
  "MulToDiv_ID = ''cxx_mul_to_div''"

definition MulAssignToDivAssign_ID :: string where
  "MulAssignToDivAssign_ID = ''cxx_mul_assign_to_div_assign''"

definition getDivToMul :: "irm_mutation list" where
  "getDivToMul = [irm ''FDivToFMul'' [], irm ''SDivToMul'' [], irm ''UDivToMul'' []]"

definition DivToMul_ID :: string where
  "DivToMul_ID = ''cxx_div_to_mul''"

definition DivAssignToMulAssign_ID :: string where
  "DivAssignToMulAssign_ID = ''cxx_div_assign_to_mul_assign''"

definition getRemToDiv :: "irm_mutation list" where
  "getRemToDiv = [irm ''FRemToFDiv'' [], irm ''SRemToSDiv'' [], irm ''URemToUDiv'' []]"

definition RemToDiv_ID :: string where
  "RemToDiv_ID = ''cxx_rem_to_div''"

definition RemAssignToDivAssign_ID :: string where
  "RemAssignToDivAssign_ID = ''cxx_rem_assign_to_div_assign''"

definition getBitNotToNoop :: "irm_mutation list" where
  "getBitNotToNoop = [irm ''XorToAnd'' []]"

definition BitwiseNotToNoop_ID :: string where
  "BitwiseNotToNoop_ID = ''cxx_bitwise_not_to_noop''"

definition mk_AddToSub :: mutator where
  "mk_AddToSub = TrivialCXXMutator getAddToSub Kind_CXX_AddToSub AddToSub_ID
     ''Replaces + with -'' ''-''
     ''Replaced + with -''"

definition mk_AddAssignToSubAssign :: mutator where
  "mk_AddAssignToSubAssign = TrivialCXXMutator getAddToSub Kind_CXX_AddAssignToSubAssign AddAssignToSubAssign_ID
     ''Replaces += with -='' ''-=''
     ''Replaced += with -=''"

definition mk_PostIncToPostDec :: mutator where
  "mk_PostIncToPostDec = TrivialCXXMutator getAddToSub Kind_CXX_PostIncToPostDec PostIncToPostDec_ID
     ''Replaces x++ with x--'' ''--''
     ''Replaced x++ with x--''"

definition mk_PreIncToPreDec :: mutator where
  "mk_PreIncToPreDec = TrivialCXXMutator getAddToSub Kind_CXX_PreIncToPreDec PreIncToPreDec_ID
     ''Replaces ++x with --x'' ''--''
     ''Replaced ++x with --x''"

definition mk_SubToAdd :: mutator where
  "mk_SubToAdd = TrivialCXXMutator getSubToAdd Kind_CXX_SubToAdd SubToAdd_ID
     ''Replaces - with +'' ''+''
     ''Replaced - with +''"

definition mk_SubAssignToAddAssign :: mutator where
  "mk_SubAssignToAddAssign = TrivialCXXMutator getSubToAdd Kind_CXX_SubAssignToAddAssign SubAssignToAddAssign_ID
     ''Replaces -= with +='' ''+=''
     ''Replaced -= with +=''"

definition mk_PostDecToPostInc :: mutator where
  "mk_PostDecToPostInc = TrivialCXXMutator getDecToInc Kind_CXX_PostDecToPostInc PostDecToPostInc_ID
     ''Replaces x-- with x++'' ''++''
     ''Replaced x-- with x++''"

definition mk_PreDecToPreInc :: mutator where
  "mk_PreDecToPreInc = TrivialCXXMutator getDecToInc Kind_CXX_PreDecToPreInc PreDecToPreInc_ID
     ''Replaces --x with ++x'' ''++''
     ''Replaced --x with ++x''"

definition mk_MulToDiv :: mutator where
  "mk_MulToDiv = TrivialCXXMutator getMulToDiv Kind_CXX_MulToDiv MulToDiv_ID
     ''Replaces * with /'' ''/''
     ''Replaced * with /''"

definition mk_MulAssignToDivAssign :: mutator where
  "mk_MulAssignToDivAssign = TrivialCXXMutator getMulToDiv Kind_CXX_MulAssignToDivAssign MulAssignToDivAssign_ID
     ''Replaces *= with /='' ''/=''
     ''Replaced *= with /=''"

definition mk_DivToMul :: mutator where
  "mk_DivToMul = TrivialCXXMutator getDivToMul Kind_CXX_DivToMul DivToMul_ID
     ''Replaces / with *'' ''*''
     ''Replaced / with *''"

definition mk_DivAssignToMulAssign :: mutator where
  "mk_DivAssignToMulAssign = TrivialCXXMutator getDivToMul Kind_CXX_DivAssignToMulAssign DivAssignToMulAssign_ID
     ''Replaces /= with *='' ''*=''
     ''Replaced /= with *=''"

definition mk_RemToDiv :: mutator where
  "mk_RemToDiv = TrivialCXXMutator getRemToDiv Kind_CXX_RemToDiv RemToDiv_ID
     ''Replaces % with /'' ''/''
     ''Replaced % with /''"

definition mk_RemAssignToDivAssign :: mutator where
  "mk_RemAssignToDivAssign = TrivialCXXMutator getRemToDiv Kind_CXX_RemAssignToDivAssign RemAssignToDivAssign_ID
     ''Replaces %= with /='' ''/=''
     ''Replaced %= with /=''"

definition mk_BitwiseNotToNoop :: mutator where
  "mk_BitwiseNotToNoop = TrivialCXXMutator getBitNotToNoop Kind_CXX_BitwiseNotToNoop BitwiseNotToNoop_ID
     ''Replaces ~x with x'' []
     ''Replaced ~x with x''"


subsection \<open>\<^verbatim>\<open>lib/Mutators/CXX/BitwiseMutators.cpp\<close>\<close>

definition getLLShiftToLRShift :: "irm_mutation list" where
  "getLLShiftToLRShift = [irm ''ShlToLShr'' []]"

definition LShiftToRShift_ID :: string where
  "LShiftToRShift_ID = ''cxx_lshift_to_rshift''"

definition LShiftAssignToRShiftAssign_ID :: string where
  "LShiftAssignToRShiftAssign_ID = ''cxx_lshift_assign_to_rshift_assign''"

definition getRShiftToLShift :: "irm_mutation list" where
  "getRShiftToLShift = [irm ''LShrToShl'' [], irm ''AShrToShl'' []]"

definition RShiftToLShift_ID :: string where
  "RShiftToLShift_ID = ''cxx_rshift_to_lshift''"

definition RShiftAssignToLShiftAssign_ID :: string where
  "RShiftAssignToLShiftAssign_ID = ''cxx_rshift_assign_to_lshift_assign''"

definition getOrToAnd :: "irm_mutation list" where
  "getOrToAnd = [irm ''OrToAnd'' []]"

definition BitwiseOrToAnd_ID :: string where
  "BitwiseOrToAnd_ID = ''cxx_or_to_and''"

definition OrAssignToAndAssign_ID :: string where
  "OrAssignToAndAssign_ID = ''cxx_or_assign_to_and_assign''"

definition getAndToOr :: "irm_mutation list" where
  "getAndToOr = [irm ''AndToOr'' []]"

definition BitwiseAndToOr_ID :: string where
  "BitwiseAndToOr_ID = ''cxx_and_to_or''"

definition AndAssignToOrAssign_ID :: string where
  "AndAssignToOrAssign_ID = ''cxx_and_assign_to_or_assign''"

definition getXorToOr :: "irm_mutation list" where
  "getXorToOr = [irm ''XorToOr'' []]"

definition XorToOr_ID :: string where
  "XorToOr_ID = ''cxx_xor_to_or''"

definition XorAssignToOrAssign_ID :: string where
  "XorAssignToOrAssign_ID = ''cxx_xor_assign_to_or_assign''"

definition mk_LShiftToRShift :: mutator where
  "mk_LShiftToRShift = TrivialCXXMutator getLLShiftToLRShift Kind_CXX_LShiftToRShift LShiftToRShift_ID
     ''Replaces << with >>'' ''>>''
     ''Replaced << with >>''"

definition mk_LShiftAssignToRShiftAssign :: mutator where
  "mk_LShiftAssignToRShiftAssign = TrivialCXXMutator getLLShiftToLRShift Kind_CXX_LShiftAssignToRShiftAssign LShiftAssignToRShiftAssign_ID
     ''Replaces <<= with >>='' ''>>=''
     ''Replaced <<= with >>=''"

definition mk_RShiftToLShift :: mutator where
  "mk_RShiftToLShift = TrivialCXXMutator getRShiftToLShift Kind_CXX_RShiftToLShift RShiftToLShift_ID
     ''Replaces << with >>'' ''>>''
     ''Replaced >> with <<''"

definition mk_RShiftAssignToLShiftAssign :: mutator where
  "mk_RShiftAssignToLShiftAssign = TrivialCXXMutator getRShiftToLShift Kind_CXX_RShiftAssignToLShiftAssign RShiftAssignToLShiftAssign_ID
     ''Replaces >>= with <<='' ''<<=''
     ''Replaced >>= with <<=''"

definition mk_BitwiseOrToAnd :: mutator where
  "mk_BitwiseOrToAnd = TrivialCXXMutator getOrToAnd Kind_CXX_Bitwise_OrToAnd BitwiseOrToAnd_ID
     ''Replaces | with &'' ''&''
     ''Replaced | with &''"

definition mk_OrAssignToAndAssign :: mutator where
  "mk_OrAssignToAndAssign = TrivialCXXMutator getOrToAnd Kind_CXX_Bitwise_OrAssignToAndAssign OrAssignToAndAssign_ID
     ''Replaces |= with &='' ''&=''
     ''Replaced |= with &=''"

definition mk_BitwiseAndToOr :: mutator where
  "mk_BitwiseAndToOr = TrivialCXXMutator getAndToOr Kind_CXX_Bitwise_AndToOr BitwiseAndToOr_ID
     ''Replaces & with |'' ''|''
     ''Replaced & with |''"

definition mk_AndAssignToOrAssign :: mutator where
  "mk_AndAssignToOrAssign = TrivialCXXMutator getAndToOr Kind_CXX_Bitwise_AndAssignToOrAssign AndAssignToOrAssign_ID
     ''Replaces &= with |='' ''|=''
     ''Replaced &= with |=''"

definition mk_XorToOr :: mutator where
  "mk_XorToOr = TrivialCXXMutator getXorToOr Kind_CXX_Bitwise_XorToOr XorToOr_ID
     ''Replaces ^ with |'' ''|''
     ''Replaced ^ with |''"

definition mk_XorAssignToOrAssign :: mutator where
  "mk_XorAssignToOrAssign = TrivialCXXMutator getXorToOr Kind_CXX_Bitwise_XorAssignToOrAssign XorAssignToOrAssign_ID
     ''Replaces ^= with |='' ''|=''
     ''Replaced ^= with |=''"


subsection \<open>\<^verbatim>\<open>lib/Mutators/CXX/RelationalMutators.cpp\<close>\<close>

definition getLessThanToLessOrEqual :: "irm_mutation list" where
  "getLessThanToLessOrEqual = [irm ''ICMP_SLTToICMP_SLE'' [], irm ''ICMP_ULTToICMP_ULE'' [], irm ''FCMP_OLTToFCMP_OLE'' [], irm ''FCMP_ULTToFCMP_ULE'' []]"

definition LessThanToLessOrEqual_ID :: string where
  "LessThanToLessOrEqual_ID = ''cxx_lt_to_le''"

definition LessOrEqualToLessThan_ID :: string where
  "LessOrEqualToLessThan_ID = ''cxx_le_to_lt''"

definition getLessOrEqualToLessThan :: "irm_mutation list" where
  "getLessOrEqualToLessThan = [irm ''ICMP_SLEToICMP_SLT'' [], irm ''ICMP_ULEToICMP_ULT'' [], irm ''FCMP_OLEToFCMP_OLT'' [], irm ''FCMP_ULEToFCMP_ULT'' []]"

definition GreaterThanToGreaterOrEqual_ID :: string where
  "GreaterThanToGreaterOrEqual_ID = ''cxx_gt_to_ge''"

definition getGreaterThanToGreaterOrEqual :: "irm_mutation list" where
  "getGreaterThanToGreaterOrEqual = [irm ''ICMP_SGTToICMP_SGE'' [], irm ''ICMP_UGTToICMP_UGE'' [], irm ''FCMP_OGTToFCMP_OGE'' [], irm ''FCMP_UGTToFCMP_UGE'' []]"

definition GreaterOrEqualToGreaterThan_ID :: string where
  "GreaterOrEqualToGreaterThan_ID = ''cxx_ge_to_gt''"

definition getGreaterOrEqualToGreaterThan :: "irm_mutation list" where
  "getGreaterOrEqualToGreaterThan = [irm ''ICMP_SGEToICMP_SGT'' [], irm ''ICMP_UGEToICMP_UGT'' [], irm ''FCMP_OGEToFCMP_OGT'' [], irm ''FCMP_UGEToFCMP_UGT'' []]"

definition EqualToNotEqual_ID :: string where
  "EqualToNotEqual_ID = ''cxx_eq_to_ne''"

definition getEqualToNotEqual :: "irm_mutation list" where
  "getEqualToNotEqual = [irm ''ICMP_EQToICMP_NE'' [], irm ''FCMP_OEQToFCMP_ONE'' [], irm ''FCMP_UEQToFCMP_UNE'' []]"

definition NotEqualToEqual_ID :: string where
  "NotEqualToEqual_ID = ''cxx_ne_to_eq''"

definition getNotEqualToEqual :: "irm_mutation list" where
  "getNotEqualToEqual = [irm ''ICMP_NEToICMP_EQ'' [], irm ''FCMP_ONEToFCMP_OEQ'' [], irm ''FCMP_UNEToFCMP_UEQ'' []]"

definition GreaterThanToLessOrEqual_ID :: string where
  "GreaterThanToLessOrEqual_ID = ''cxx_gt_to_le''"

definition getGreaterThanToLessOrEqual :: "irm_mutation list" where
  "getGreaterThanToLessOrEqual = [irm ''ICMP_SGTToICMP_SLE'' [], irm ''ICMP_UGTToICMP_ULE'' [], irm ''FCMP_OGTToFCMP_OLE'' [], irm ''FCMP_UGTToFCMP_ULE'' []]"

definition GreaterOrEqualToLessThan_ID :: string where
  "GreaterOrEqualToLessThan_ID = ''cxx_ge_to_lt''"

definition getGreaterOrEqualToLessThan :: "irm_mutation list" where
  "getGreaterOrEqualToLessThan = [irm ''ICMP_SGEToICMP_SLT'' [], irm ''ICMP_UGEToICMP_ULT'' [], irm ''FCMP_OGEToFCMP_OLT'' [], irm ''FCMP_UGEToFCMP_ULT'' []]"

definition LessThanToGreaterOrEqual_ID :: string where
  "LessThanToGreaterOrEqual_ID = ''cxx_lt_to_ge''"

definition getLessThanToGreaterOrEqual :: "irm_mutation list" where
  "getLessThanToGreaterOrEqual = [irm ''ICMP_SLTToICMP_SGE'' [], irm ''ICMP_ULTToICMP_UGE'' [], irm ''FCMP_OLTToFCMP_OGE'' [], irm ''FCMP_ULTToFCMP_UGE'' []]"

definition LessOrEqualToGreaterThan_ID :: string where
  "LessOrEqualToGreaterThan_ID = ''cxx_le_to_gt''"

definition getLessOrEqualToGreaterThan :: "irm_mutation list" where
  "getLessOrEqualToGreaterThan = [irm ''ICMP_SLEToICMP_SGT'' [], irm ''ICMP_ULEToICMP_UGT'' [], irm ''FCMP_OLEToFCMP_OGT'' [], irm ''FCMP_ULEToFCMP_UGT'' []]"

definition mk_LessThanToLessOrEqual :: mutator where
  "mk_LessThanToLessOrEqual = TrivialCXXMutator getLessThanToLessOrEqual Kind_CXX_LessThanToLessOrEqual LessThanToLessOrEqual_ID
     ''Replaces < with <='' ''<=''
     ''Replaced < with <=''"

definition mk_LessOrEqualToLessThan :: mutator where
  "mk_LessOrEqualToLessThan = TrivialCXXMutator getLessOrEqualToLessThan Kind_CXX_LessOrEqualToLessThan LessOrEqualToLessThan_ID
     ''Replaces <= with <'' ''<''
     ''Replaced <= with <''"

definition mk_GreaterThanToGreaterOrEqual :: mutator where
  "mk_GreaterThanToGreaterOrEqual = TrivialCXXMutator getGreaterThanToGreaterOrEqual Kind_CXX_GreaterThanToGreaterOrEqual GreaterThanToGreaterOrEqual_ID
     ''Replaces > with >='' ''>=''
     ''Replaced > with >=''"

definition mk_GreaterOrEqualToGreaterThan :: mutator where
  "mk_GreaterOrEqualToGreaterThan = TrivialCXXMutator getGreaterOrEqualToGreaterThan Kind_CXX_GreaterOrEqualToGreaterThan GreaterOrEqualToGreaterThan_ID
     ''Replaces >= with >'' ''>''
     ''Replaced >= with >''"

definition mk_EqualToNotEqual :: mutator where
  "mk_EqualToNotEqual = TrivialCXXMutator getEqualToNotEqual Kind_CXX_EqualToNotEqual EqualToNotEqual_ID
     ''Replaces == with !='' ''!=''
     ''Replaced == with !=''"

definition mk_NotEqualToEqual :: mutator where
  "mk_NotEqualToEqual = TrivialCXXMutator getNotEqualToEqual Kind_CXX_NotEqualToEqual NotEqualToEqual_ID
     ''Replaces != with =='' ''==''
     ''Replaced != with ==''"

definition mk_GreaterThanToLessOrEqual :: mutator where
  "mk_GreaterThanToLessOrEqual = TrivialCXXMutator getGreaterThanToLessOrEqual Kind_CXX_GreaterThanToLessOrEqual GreaterThanToLessOrEqual_ID
     ''Replaces > with <='' ''<=''
     ''Replaced > with <=''"

definition mk_GreaterOrEqualToLessThan :: mutator where
  "mk_GreaterOrEqualToLessThan = TrivialCXXMutator getGreaterOrEqualToLessThan Kind_CXX_GreaterOrEqualToLessThan GreaterOrEqualToLessThan_ID
     ''Replaces >= with <'' ''<''
     ''Replaced >= with <''"

definition mk_LessThanToGreaterOrEqual :: mutator where
  "mk_LessThanToGreaterOrEqual = TrivialCXXMutator getLessThanToGreaterOrEqual Kind_CXX_LessThanToGreaterOrEqual LessThanToGreaterOrEqual_ID
     ''Replaces < with >='' ''>=''
     ''Replaced < with >=''"

definition mk_LessOrEqualToGreaterThan :: mutator where
  "mk_LessOrEqualToGreaterThan = TrivialCXXMutator getLessOrEqualToGreaterThan Kind_CXX_LessOrEqualToGreaterThan LessOrEqualToGreaterThan_ID
     ''Replaces <= with >'' ''>''
     ''Replaced <= with >''"


subsection \<open>\<^verbatim>\<open>lib/Mutators/CXX/CallMutators.cpp\<close>\<close>

definition getRemoveVoidCall :: "irm_mutation list" where
  "getRemoveVoidCall = [irm ''RemoveVoidFunctionCall'' [], irm ''RemoveVoidIntrinsicsCall'' []]"

definition RemoveVoidCall_ID :: string where
  "RemoveVoidCall_ID = ''cxx_remove_void_call''"

definition getReplaceScalarCall :: "irm_mutation list" where
  "getReplaceScalarCall = [irm ''IntCallReplacement'' [42], irm ''FloatCallReplacement'' [42], irm ''DoubleCallReplacement'' [42]]"

definition ReplaceScalarCall_ID :: string where
  "ReplaceScalarCall_ID = ''cxx_replace_scalar_call''"

definition mk_RemoveVoidCall :: mutator where
  "mk_RemoveVoidCall = TrivialCXXMutator getRemoveVoidCall Kind_CXX_RemoveVoidCall RemoveVoidCall_ID
     ''Removes calls to a function returning void'' []
     ''Removed the call to the function''"

definition mk_ReplaceScalarCall :: mutator where
  "mk_ReplaceScalarCall = TrivialCXXMutator getReplaceScalarCall Kind_CXX_ReplaceScalarCall ReplaceScalarCall_ID
     ''Replaces call to a function with 42'' ''42''
     ''Replaced call to a function with 42''"


subsection \<open>\<^verbatim>\<open>lib/Mutators/CXX/NumberMutators.cpp\<close>\<close>

definition getNumberMutators :: "irm_mutation list" where
  "getNumberMutators = [irm ''StoreIntReplacement'' [42], irm ''StoreDoubleReplacement'' [42], irm ''StoreFloatReplacement'' [42]]"

definition NumberAssignConst_ID :: string where
  "NumberAssignConst_ID = ''cxx_assign_const''"

definition NumberInitConst_ID :: string where
  "NumberInitConst_ID = ''cxx_init_const''"

definition mk_NumberAssignConst :: mutator where
  "mk_NumberAssignConst = TrivialCXXMutator getNumberMutators Kind_CXX_AssignConst NumberAssignConst_ID
     (''Replaces '' @ [CHR 0x27] @ ''a = b'' @ [CHR 0x27] @ '' with '' @ [CHR 0x27] @ ''a = 42'' @ [CHR 0x27]) ''42''
     (''Replaced '' @ [CHR 0x27] @ ''a = b'' @ [CHR 0x27] @ '' with '' @ [CHR 0x27] @ ''a = 42'' @ [CHR 0x27])"

definition mk_NumberInitConst :: mutator where
  "mk_NumberInitConst = TrivialCXXMutator getNumberMutators Kind_CXX_InitConst NumberInitConst_ID
     (''Replaces '' @ [CHR 0x27] @ ''T a = b'' @ [CHR 0x27] @ '' with '' @ [CHR 0x27] @ ''T a = 42'' @ [CHR 0x27]) ''42''
     (''Replaced '' @ [CHR 0x27] @ ''T a = b'' @ [CHR 0x27] @ '' with '' @ [CHR 0x27] @ ''T a = 42'' @ [CHR 0x27])"


subsection \<open>\<^verbatim>\<open>lib/Mutators/CXX/RemoveNegation.cpp\<close>\<close>

definition getRemoveNegation :: "irm_mutation list" where
  "getRemoveNegation = [irm ''NegateXORReplacement'' []]"

definition RemoveNegation_ID :: string where
  "RemoveNegation_ID = ''cxx_remove_negation''"

definition mk_RemoveNegation :: mutator where
  "mk_RemoveNegation = TrivialCXXMutator getRemoveNegation Kind_CXX_RemoveNegation RemoveNegation_ID
     ''Replaces !a with a'' []
     ''Replaced !a with a''"

subsection \<open>The mutators with a class of their own\<close>

text \<open>\<open>SwapFNegWithOperand\<close> is there from LLVM 8 on, which is what the list is for.\<close>

definition UnaryMinusToNoop_ID :: string where
  "UnaryMinusToNoop_ID = ''cxx_minus_to_noop''"

definition mk_UnaryMinusToNoop :: mutator where
  "mk_UnaryMinusToNoop =
     \<lparr>dynamic_class = UnaryMinusToNoop_class,
      lowLevelMutators = [irm ''SwapSubOperands'' [], irm ''SwapFSubOperands'' [], irm ''SwapFNegWithOperand'' []],
      mutatorKind = Kind_CXX_UnaryMinusToNoop, getUniqueIdentifier = UnaryMinusToNoop_ID,
      getDescription = ''Replaces -x with x'',
      getReplacement = [],
      getDiagnostics = ''Replaced -x with x''\<rparr>"

definition NegateConditionMutator_ID :: string where
  "NegateConditionMutator_ID = ''negate_mutator''"

definition mk_NegateConditionMutator :: mutator where
  "mk_NegateConditionMutator =
     \<lparr>dynamic_class = NegateConditionMutator_class,
      lowLevelMutators = [irm ''ICMP_EQToICMP_NE'' [], irm ''FCMP_OEQToFCMP_ONE'' [], irm ''FCMP_UEQToFCMP_UNE'' [],
        irm ''ICMP_NEToICMP_EQ'' [], irm ''FCMP_ONEToFCMP_OEQ'' [], irm ''FCMP_UNEToFCMP_UEQ'' []],
      mutatorKind = Kind_NegateMutator, getUniqueIdentifier = NegateConditionMutator_ID,
      getDescription = ''Negates conditionals !x to x and x to !x'',
      getReplacement = ''x or !x'',
      getDiagnostics = ''Negated !x to x (or x to !x)''\<rparr>"

definition ScalarValueMutator_ID :: string where
  "ScalarValueMutator_ID = ''scalar_value_mutator''"

definition mk_ScalarValueMutator :: mutator where
  "mk_ScalarValueMutator =
     \<lparr>dynamic_class = ScalarValueMutator_class,
      lowLevelMutators = concat (map (\<lambda>i. [irm ''ConstIntReplacement'' [42, i], irm ''ConstFloatReplacement'' [42, i]]) [0..4]),
      mutatorKind = Kind_ScalarValueMutator, getUniqueIdentifier = ScalarValueMutator_ID,
      getDescription = ''Replaces zeros with 42, and non-zeros with 0'',
      getReplacement = ''0 or 42'',
      getDiagnostics = ''Replaced scalar with 0 or 42''\<rparr>"

definition LogicalAndToOr_ID :: string where
  "LogicalAndToOr_ID = ''cxx_logical_and_to_or''"

definition mk_LogicalAndToOr :: mutator where
  "mk_LogicalAndToOr =
     \<lparr>dynamic_class = LogicalAndToOr_class,
      lowLevelMutators = [],
      mutatorKind = Kind_CXX_Logical_AndToOr, getUniqueIdentifier = LogicalAndToOr_ID,
      getDescription = ''Replaces && with ||'',
      getReplacement = ''||'',
      getDiagnostics = ''Replaced && with ||''\<rparr>"

definition LogicalOrToAnd_ID :: string where
  "LogicalOrToAnd_ID = ''cxx_logical_or_to_and''"

definition mk_LogicalOrToAnd :: mutator where
  "mk_LogicalOrToAnd =
     \<lparr>dynamic_class = LogicalOrToAnd_class,
      lowLevelMutators = [],
      mutatorKind = Kind_CXX_Logical_OrToAnd, getUniqueIdentifier = LogicalOrToAnd_ID,
      getDescription = ''Replaces || with &&'',
      getReplacement = ''&&'',
      getDiagnostics = ''Replaced || with &&''\<rparr>"

lemmas mutator_ID_defs =
  AddToSub_ID_def AddAssignToSubAssign_ID_def PostIncToPostDec_ID_def PreIncToPreDec_ID_def
  SubToAdd_ID_def SubAssignToAddAssign_ID_def PostDecToPostInc_ID_def PreDecToPreInc_ID_def
  MulToDiv_ID_def MulAssignToDivAssign_ID_def DivToMul_ID_def DivAssignToMulAssign_ID_def
  RemToDiv_ID_def RemAssignToDivAssign_ID_def BitwiseNotToNoop_ID_def LShiftToRShift_ID_def
  LShiftAssignToRShiftAssign_ID_def RShiftToLShift_ID_def RShiftAssignToLShiftAssign_ID_def BitwiseOrToAnd_ID_def
  OrAssignToAndAssign_ID_def BitwiseAndToOr_ID_def AndAssignToOrAssign_ID_def XorToOr_ID_def
  XorAssignToOrAssign_ID_def LessThanToLessOrEqual_ID_def LessOrEqualToLessThan_ID_def GreaterThanToGreaterOrEqual_ID_def
  GreaterOrEqualToGreaterThan_ID_def EqualToNotEqual_ID_def NotEqualToEqual_ID_def GreaterThanToLessOrEqual_ID_def
  GreaterOrEqualToLessThan_ID_def LessThanToGreaterOrEqual_ID_def LessOrEqualToGreaterThan_ID_def RemoveVoidCall_ID_def
  ReplaceScalarCall_ID_def NumberAssignConst_ID_def NumberInitConst_ID_def RemoveNegation_ID_def
  UnaryMinusToNoop_ID_def NegateConditionMutator_ID_def ScalarValueMutator_ID_def LogicalAndToOr_ID_def
  LogicalOrToAnd_ID_def

lemmas mk_mutator_defs = TrivialCXXMutator_def
  mk_AddToSub_def mk_AddAssignToSubAssign_def mk_PostIncToPostDec_def mk_PreIncToPreDec_def
  mk_SubToAdd_def mk_SubAssignToAddAssign_def mk_PostDecToPostInc_def mk_PreDecToPreInc_def
  mk_MulToDiv_def mk_MulAssignToDivAssign_def mk_DivToMul_def mk_DivAssignToMulAssign_def
  mk_RemToDiv_def mk_RemAssignToDivAssign_def mk_BitwiseNotToNoop_def mk_LShiftToRShift_def
  mk_LShiftAssignToRShiftAssign_def mk_RShiftToLShift_def mk_RShiftAssignToLShiftAssign_def mk_BitwiseOrToAnd_def
  mk_OrAssignToAndAssign_def mk_BitwiseAndToOr_def mk_AndAssignToOrAssign_def mk_XorToOr_def
  mk_XorAssignToOrAssign_def mk_LessThanToLessOrEqual_def mk_LessOrEqualToLessThan_def mk_GreaterThanToGreaterOrEqual_def
  mk_GreaterOrEqualToGreaterThan_def mk_EqualToNotEqual_def mk_NotEqualToEqual_def mk_GreaterThanToLessOrEqual_def
  mk_GreaterOrEqualToLessThan_def mk_LessThanToGreaterOrEqual_def mk_LessOrEqualToGreaterThan_def mk_RemoveVoidCall_def
  mk_ReplaceScalarCall_def mk_NumberAssignConst_def mk_NumberInitConst_def mk_RemoveNegation_def
  mk_UnaryMinusToNoop_def mk_NegateConditionMutator_def mk_ScalarValueMutator_def mk_LogicalAndToOr_def
  mk_LogicalOrToAnd_def

end
