(* ===== verification/MutatorsFactory.thy ===== *)
theory MutatorsFactory
  imports Mutators Diagnostics
begin

text \<open>
  \<open>lib/Mutators/MutatorsFactory.cpp\<close>: which mutators a list of names on the command line stands for.
  The factory holds the registered mutators, a pointer that may be null for each identifier, and the
  groups, whose members are identifiers or groups again. Both are \<open>std::map\<close>s, and the expanded names
  a \<open>std::set\<close>, so what is returned is in the order of the identifiers.
\<close>

section \<open>Groups\<close>

definition Experimental :: string where "Experimental = ''experimental''"
definition AllMutatorsGroup :: string where "AllMutatorsGroup = ''all''"
definition CXX_Assignment :: string where "CXX_Assignment = ''cxx_assignment''"
definition CXX_Const_Assignment :: string where "CXX_Const_Assignment = ''cxx_const_assignment''"
definition CXX_Arithmetic_Assignment :: string where "CXX_Arithmetic_Assignment = ''cxx_arithmetic_assignment''"
definition CXX_Bitwise_Assignment :: string where "CXX_Bitwise_Assignment = ''cxx_bitwise_assignment''"
definition CXX_Increment :: string where "CXX_Increment = ''cxx_increment''"
definition CXX_Decrement :: string where "CXX_Decrement = ''cxx_decrement''"
definition CXX_Arithmetic :: string where "CXX_Arithmetic = ''cxx_arithmetic''"
definition CXX_Bitwise :: string where "CXX_Bitwise = ''cxx_bitwise''"
definition CXX_Logical :: string where "CXX_Logical = ''cxx_logical''"
definition CXX_Comparison :: string where "CXX_Comparison = ''cxx_comparison''"
definition CXX_Boundary :: string where "CXX_Boundary = ''cxx_boundary''"
definition CXX_Calls :: string where "CXX_Calls = ''cxx_calls''"
definition CXX_All :: string where "CXX_All = ''cxx_all''"
definition CXX_Default :: string where "CXX_Default = ''cxx_default''"

lemmas group_name_defs =
  Experimental_def AllMutatorsGroup_def CXX_Assignment_def CXX_Const_Assignment_def
  CXX_Arithmetic_Assignment_def CXX_Bitwise_Assignment_def CXX_Increment_def CXX_Decrement_def
  CXX_Arithmetic_def CXX_Bitwise_def CXX_Logical_def CXX_Comparison_def CXX_Boundary_def
  CXX_Calls_def CXX_All_def CXX_Default_def

type_synonym groups_mapping = "(string \<times> string list) list"

record factory =
  mutatorsMapping :: "(string \<times> mutator option) list"
  groupsMapping :: groups_mapping

text \<open>The recursion follows the mapping, so it carries fuel for the depth of the nesting.\<close>

function expandGroups ::
  "nat \<Rightarrow> string list \<Rightarrow> groups_mapping \<Rightarrow> string list \<Rightarrow> string list option" where
  "expandGroups fuel groups mapping expanded =
     (case groups of
        [] \<Rightarrow> Some expanded
      | grp # rest \<Rightarrow>
          (case map_of mapping grp of
             None \<Rightarrow> expandGroups fuel rest mapping (set_insert grp expanded)
           | Some members \<Rightarrow>
               (case fuel of
                  0 \<Rightarrow> None
                | Suc n \<Rightarrow>
                    (case expandGroups n members mapping expanded of
                       None \<Rightarrow> None
                     | Some expanded' \<Rightarrow> expandGroups fuel rest mapping expanded'))))"
  by pat_completeness auto
termination
  by (relation "measures [\<lambda>(fuel, groups, _, _). fuel, \<lambda>(fuel, groups, _, _). length groups]") auto

declare expandGroups.simps [simp del]

text \<open>What a name stands for: itself when it is no group, else what the members stand for.\<close>

inductive member_of :: "groups_mapping \<Rightarrow> string \<Rightarrow> string \<Rightarrow> bool" for mapping where
  leaf: "map_of mapping g = None \<Longrightarrow> member_of mapping g g"
| nested: "map_of mapping g = Some members \<Longrightarrow> m \<in> set members \<Longrightarrow> member_of mapping m x \<Longrightarrow>
    member_of mapping g x"

inductive_cases member_ofE: "member_of mapping g x"

lemma member_of_leaf_iff:
  "map_of mapping g = None \<Longrightarrow> member_of mapping g x \<longleftrightarrow> x = g"
  by (auto intro: member_of.leaf elim: member_ofE)

lemma member_of_group_iff:
  "map_of mapping g = Some members \<Longrightarrow>
     member_of mapping g x \<longleftrightarrow> (\<exists>m \<in> set members. member_of mapping m x)"
  by (rule iffI; erule member_ofE bexE) (auto intro: member_of.nested)

lemma expandGroups_members:
  "expandGroups fuel groups mapping expanded = Some out \<Longrightarrow>
     set out = set expanded \<union> {x. \<exists>g \<in> set groups. member_of mapping g x}"
proof (induction fuel groups mapping expanded arbitrary: out rule: expandGroups.induct)
  case (1 fuel groups mapping expanded)
  show ?case
  proof (cases groups)
    case Nil
    with 1 show ?thesis by (subst (asm) (2) expandGroups.simps) simp
  next
    case (Cons g rest)
    show ?thesis
    proof (cases "map_of mapping g")
      case None
      then have "expandGroups fuel rest mapping (set_insert g expanded) = Some out"
        using "1.prems" Cons by (subst (asm) expandGroups.simps) simp
      from "1.IH"(1) [OF Cons None this] show ?thesis
        using Cons member_of_leaf_iff [OF None] by auto
    next
      case (Some members)
      then obtain n e where n: "fuel = Suc n" and e: "expandGroups n members mapping expanded = Some e"
        and r: "expandGroups fuel rest mapping e = Some out"
        using "1.prems" Cons by (subst (asm) expandGroups.simps) (auto split: nat.splits option.splits)
      from "1.IH"(2) [OF Cons Some n e] "1.IH"(3) [OF Cons Some n e] r n show ?thesis
        using Cons member_of_group_iff [OF Some] by auto
    qed
  qed
qed

lemma expandGroups_ordered:
  "expandGroups fuel groups mapping expanded = Some out \<Longrightarrow> ordered_set expanded \<Longrightarrow> ordered_set out"
proof (induction fuel groups mapping expanded arbitrary: out rule: expandGroups.induct)
  case (1 fuel groups mapping expanded)
  then show ?case
    by (subst (asm) (4) expandGroups.simps)
      (auto split: list.splits option.splits nat.splits intro: ordered_set_insert)
qed

text \<open>Fuel suffices when the groups have a rank that the nesting decreases.\<close>

definition ranked :: "groups_mapping \<Rightarrow> (string \<Rightarrow> nat) \<Rightarrow> bool" where
  "ranked mapping rk \<longleftrightarrow>
     list_all (\<lambda>(g, members). list_all (\<lambda>m. map_of mapping m = None \<or> rk m < rk g) members) mapping"

lemma expandGroups_enough_fuel:
  assumes "ranked mapping rk"
    and "\<And>g. g \<in> set groups \<Longrightarrow> map_of mapping g \<noteq> None \<Longrightarrow> rk g < fuel"
  shows "\<exists>out. expandGroups fuel groups mapping expanded = Some out"
  using assms
proof (induction fuel groups mapping expanded rule: expandGroups.induct)
  case (1 fuel groups mapping expanded)
  show ?case
  proof (cases groups)
    case Nil
    then show ?thesis by (subst expandGroups.simps) simp
  next
    case (Cons g rest)
    show ?thesis
    proof (cases "map_of mapping g")
      case None
      with "1.IH"(1) [OF Cons None] "1.prems" Cons show ?thesis
        by (subst expandGroups.simps) auto
    next
      case (Some members)
      then obtain n where n: "fuel = Suc n" using "1.prems"(2) [of g] Cons by (cases fuel) auto
      have "rk m < n" if "m \<in> set members" "map_of mapping m \<noteq> None" for m
      proof -
        have "(g, members) \<in> set mapping" using Some by (rule map_of_SomeD)
        with "1.prems"(1) that have "rk m < rk g"
          unfolding ranked_def list_all_iff by fastforce
        moreover have "rk g < Suc n" using "1.prems"(2) [of g] Cons Some n by auto
        ultimately show ?thesis by simp
      qed
      then obtain e where e: "expandGroups n members mapping expanded = Some e"
        using "1.IH"(2) [OF Cons Some n] "1.prems"(1) by auto
      moreover obtain out where "expandGroups fuel rest mapping e = Some out"
        using "1.IH"(3) [OF Cons Some n e] "1.prems" Cons n by auto
      ultimately show ?thesis using Cons Some n by (subst expandGroups.simps) simp
    qed
  qed
qed

text \<open>The constructor's assignments, one for each group and in their order.\<close>

definition group_assignments :: groups_mapping where
  "group_assignments = [
     (CXX_Calls, [RemoveVoidCall_ID, ReplaceScalarCall_ID]),
     (CXX_Const_Assignment, [NumberAssignConst_ID, NumberInitConst_ID]),
     (CXX_Bitwise_Assignment, [AndAssignToOrAssign_ID, OrAssignToAndAssign_ID, XorAssignToOrAssign_ID,
        LShiftAssignToRShiftAssign_ID, RShiftAssignToLShiftAssign_ID]),
     (CXX_Arithmetic_Assignment, [AddAssignToSubAssign_ID, SubAssignToAddAssign_ID,
        MulAssignToDivAssign_ID, DivAssignToMulAssign_ID, RemAssignToDivAssign_ID]),
     (CXX_Increment, [PreIncToPreDec_ID, PostIncToPostDec_ID]),
     (CXX_Decrement, [PreDecToPreInc_ID, PostDecToPostInc_ID]),
     (CXX_Arithmetic, [UnaryMinusToNoop_ID, AddToSub_ID, SubToAdd_ID, MulToDiv_ID, DivToMul_ID,
        RemToDiv_ID]),
     (CXX_Bitwise, [BitwiseNotToNoop_ID, BitwiseAndToOr_ID, BitwiseOrToAnd_ID, XorToOr_ID,
        LShiftToRShift_ID, RShiftToLShift_ID]),
     (CXX_Logical, [LogicalAndToOr_ID, LogicalOrToAnd_ID, RemoveNegation_ID]),
     (CXX_Comparison, [EqualToNotEqual_ID, NotEqualToEqual_ID, LessOrEqualToGreaterThan_ID,
        LessThanToGreaterOrEqual_ID, GreaterOrEqualToLessThan_ID, GreaterThanToLessOrEqual_ID]),
     (CXX_Boundary, [LessOrEqualToLessThan_ID, LessThanToLessOrEqual_ID,
        GreaterOrEqualToGreaterThan_ID, GreaterThanToGreaterOrEqual_ID]),
     (CXX_Assignment, [CXX_Bitwise_Assignment, CXX_Arithmetic_Assignment, CXX_Const_Assignment]),
     (CXX_All, [CXX_Assignment, CXX_Increment, CXX_Decrement, CXX_Arithmetic, CXX_Comparison,
        CXX_Boundary, CXX_Bitwise, CXX_Calls]),
     (CXX_Default, [CXX_Increment, CXX_Arithmetic, CXX_Comparison, CXX_Boundary]),
     (Experimental, [NegateConditionMutator_ID, ScalarValueMutator_ID, CXX_Logical]),
     (AllMutatorsGroup, [CXX_All, Experimental])]"

definition new_factory :: factory where
  "new_factory =
     \<lparr>mutatorsMapping = [],
      groupsMapping = map_inserts group_assignments []\<rparr>"

section \<open>Registration\<close>

definition registered_mutators :: "(string \<times> mutator) list" where
  "registered_mutators = [
     (NegateConditionMutator_ID, mk_NegateConditionMutator),
     (ScalarValueMutator_ID, mk_ScalarValueMutator),
     (RemoveVoidCall_ID, mk_RemoveVoidCall),
     (ReplaceScalarCall_ID, mk_ReplaceScalarCall),
     (NumberAssignConst_ID, mk_NumberAssignConst),
     (NumberInitConst_ID, mk_NumberInitConst),
     (AddAssignToSubAssign_ID, mk_AddAssignToSubAssign),
     (SubAssignToAddAssign_ID, mk_SubAssignToAddAssign),
     (MulAssignToDivAssign_ID, mk_MulAssignToDivAssign),
     (DivAssignToMulAssign_ID, mk_DivAssignToMulAssign),
     (RemAssignToDivAssign_ID, mk_RemAssignToDivAssign),
     (AndAssignToOrAssign_ID, mk_AndAssignToOrAssign),
     (OrAssignToAndAssign_ID, mk_OrAssignToAndAssign),
     (XorAssignToOrAssign_ID, mk_XorAssignToOrAssign),
     (LShiftAssignToRShiftAssign_ID, mk_LShiftAssignToRShiftAssign),
     (RShiftAssignToLShiftAssign_ID, mk_RShiftAssignToLShiftAssign),
     (PreIncToPreDec_ID, mk_PreIncToPreDec),
     (PostIncToPostDec_ID, mk_PostIncToPostDec),
     (PreDecToPreInc_ID, mk_PreDecToPreInc),
     (PostDecToPostInc_ID, mk_PostDecToPostInc),
     (UnaryMinusToNoop_ID, mk_UnaryMinusToNoop),
     (AddToSub_ID, mk_AddToSub),
     (SubToAdd_ID, mk_SubToAdd),
     (MulToDiv_ID, mk_MulToDiv),
     (DivToMul_ID, mk_DivToMul),
     (RemToDiv_ID, mk_RemToDiv),
     (BitwiseNotToNoop_ID, mk_BitwiseNotToNoop),
     (BitwiseAndToOr_ID, mk_BitwiseAndToOr),
     (BitwiseOrToAnd_ID, mk_BitwiseOrToAnd),
     (XorToOr_ID, mk_XorToOr),
     (LShiftToRShift_ID, mk_LShiftToRShift),
     (RShiftToLShift_ID, mk_RShiftToLShift),
     (LogicalAndToOr_ID, mk_LogicalAndToOr),
     (LogicalOrToAnd_ID, mk_LogicalOrToAnd),
     (RemoveNegation_ID, mk_RemoveNegation),
     (EqualToNotEqual_ID, mk_EqualToNotEqual),
     (NotEqualToEqual_ID, mk_NotEqualToEqual),
     (LessOrEqualToGreaterThan_ID, mk_LessOrEqualToGreaterThan),
     (LessThanToGreaterOrEqual_ID, mk_LessThanToGreaterOrEqual),
     (GreaterOrEqualToLessThan_ID, mk_GreaterOrEqualToLessThan),
     (GreaterThanToLessOrEqual_ID, mk_GreaterThanToLessOrEqual),
     (LessOrEqualToLessThan_ID, mk_LessOrEqualToLessThan),
     (LessThanToLessOrEqual_ID, mk_LessThanToLessOrEqual),
     (GreaterOrEqualToGreaterThan_ID, mk_GreaterOrEqualToGreaterThan),
     (GreaterThanToGreaterOrEqual_ID, mk_GreaterThanToGreaterOrEqual)]"

definition addMutator :: "string \<times> mutator \<Rightarrow> factory \<Rightarrow> factory" where
  "addMutator c f = f\<lparr>mutatorsMapping := map_insert (fst c) (Some (snd c)) (mutatorsMapping f)\<rparr>"

definition factory_init :: "factory \<Rightarrow> factory" where
  "factory_init f = foldl (\<lambda>f c. addMutator c f) f registered_mutators"

text \<open>\<open>mutatorsMapping[mutatorId].get()\<close>: the subscript inserts a null pointer for a new key.\<close>

definition getMutator :: "string \<Rightarrow> factory \<Rightarrow> mutator option \<times> factory" where
  "getMutator mutatorId f =
     (case map_of (mutatorsMapping f) mutatorId of
        Some p \<Rightarrow> (p, f)
      | None \<Rightarrow> (None, f\<lparr>mutatorsMapping := map_insert mutatorId None (mutatorsMapping f)\<rparr>))"

section \<open>Selection\<close>

text \<open>
  The loop over the expanded names; a mutator is moved out of the mapping. \<open>group_depth\<close> bounds the
  nesting of the constructor's groups.
\<close>

definition group_depth :: nat where
  "group_depth = 4"

fun select_mutators ::
  "string list \<Rightarrow> factory \<Rightarrow> mutator option list \<Rightarrow> (mutator option list \<times> factory) diag" where
  "select_mutators [] f acc = diag_return (acc, f)"
| "select_mutators (g # gs) f acc =
     (case map_of (mutatorsMapping f) g of
        None \<Rightarrow>
          diag_bind (diag_warning (''Unknown mutator: '' @ g)) (\<lambda>_. select_mutators gs f acc)
      | Some p \<Rightarrow>
          select_mutators gs
            (f\<lparr>mutatorsMapping := filter (\<lambda>(k, _). k \<noteq> g) (mutatorsMapping f)\<rparr>) (acc @ [p]))"

definition factory_mutators ::
  "string list \<Rightarrow> factory \<Rightarrow> (mutator option list \<times> factory) option diag" where
  "factory_mutators groups f0 =
     (let f = factory_init f0 in
      case expandGroups group_depth (if groups = [] then [CXX_Default] else groups)
             (groupsMapping f) [] of
        None \<Rightarrow> diag_return None
      | Some expanded \<Rightarrow>
          diag_bind (select_mutators expanded f []) (\<lambda>(ms, f').
            if ms = []
            then diag_bind (diag_warning ''No valid mutators specified.'')
                   (\<lambda>_. diag_return (Some (ms, f')))
            else diag_return (Some (ms, f'))))"

fun join_members :: "string list \<Rightarrow> string" where
  "join_members [] = []"
| "join_members [m] = m"
| "join_members (m # ms) = m @ '', '' @ join_members ms"

definition descriptionForGroup :: "string list \<Rightarrow> string" where
  "descriptionForGroup members =
     (if members = [] then ''empty group?'' else join_members members)"

definition commandLineOptions :: "factory \<Rightarrow> ((string \<times> string) list \<times> factory) option diag" where
  "commandLineOptions f =
     diag_bind (factory_mutators [AllMutatorsGroup] f) (\<lambda>r.
       case r of
         None \<Rightarrow> diag_return None
       | Some (allMutators, f') \<Rightarrow>
           diag_lift (bind_result
             (map_result_list
                (\<lambda>p. case p of
                       None \<Rightarrow> Inl (NullPointer ''mutator'')
                     | Some m \<Rightarrow> Inr (getUniqueIdentifier m, getDescription m)) allMutators)
             (\<lambda>options. Inr (Some
                (map (\<lambda>(g, ms). (g, descriptionForGroup ms)) (groupsMapping f') @ options, f')))))"


section \<open>The built-in groups and mutators\<close>

lemma group_assignments_distinct: "distinct (map fst group_assignments)"
  by (simp add: group_assignments_def group_name_defs)

lemma registered_distinct: "distinct (map fst registered_mutators)"
  by (simp add: registered_mutators_def mutator_ID_defs)

lemma registered_identifiers: "list_all (\<lambda>(i, m). getUniqueIdentifier m = i) registered_mutators"
  by (simp add: registered_mutators_def mk_mutator_defs)

lemma builtin_groups_map_of: "map_of (groupsMapping new_factory) = map_of group_assignments"
  by (simp add: new_factory_def map_of_map_inserts map_of_rev_distinct group_assignments_distinct)

lemma builtin_groups_ordered: "ordered_map (groupsMapping new_factory)"
  by (simp add: new_factory_def map_inserts_ordered)

definition builtin_rank :: "string \<Rightarrow> nat" where
  "builtin_rank g =
     (if g = AllMutatorsGroup then 3
      else if g = CXX_All then 2
      else if g \<in> set [CXX_Assignment, CXX_Default, Experimental] then 1 else 0)"

lemma assignments_ranked: "ranked group_assignments builtin_rank"
  by (simp add: ranked_def group_assignments_def group_name_defs mutator_ID_defs builtin_rank_def)

lemma ranked_cong:
  assumes "map_of m = map_of m'" "distinct (map fst m)" "distinct (map fst m')"
  shows "ranked m rk = ranked m' rk"
proof -
  have "set m = set m'" using assms map_of_inject_set by blast
  with assms(1) show ?thesis by (simp add: ranked_def list_all_iff)
qed

lemma builtin_ranked: "ranked (groupsMapping new_factory) builtin_rank"
  using ranked_cong [OF builtin_groups_map_of] assignments_ranked group_assignments_distinct
    ordered_map_distinct [OF builtin_groups_ordered] by blast

lemma builtin_rank_less: "builtin_rank g < group_depth"
  by (simp add: builtin_rank_def group_depth_def)

text \<open>What \<open>mutatorsMapping\<close> holds after \<open>init\<close>.\<close>

lemma foldl_addMutator:
  "groupsMapping (foldl (\<lambda>f c. addMutator c f) f cs) = groupsMapping f"
  "mutatorsMapping (foldl (\<lambda>f c. addMutator c f) f cs) =
     map_inserts (map (\<lambda>(i, m). (i, Some m)) cs) (mutatorsMapping f)"
  by (induction cs arbitrary: f) (auto simp: addMutator_def)

lemma factory_init_groups [simp]: "groupsMapping (factory_init f) = groupsMapping f"
  by (simp add: factory_init_def foldl_addMutator)

lemma factory_init_mapping:
  "mutatorsMapping (factory_init f) =
     map_inserts (map (\<lambda>(i, m). (i, Some m)) registered_mutators) (mutatorsMapping f)"
  by (simp add: factory_init_def foldl_addMutator)

definition registered :: "string \<Rightarrow> mutator option" where
  "registered i = map_of registered_mutators i"

lemma registered_identifier: "registered i = Some m \<Longrightarrow> getUniqueIdentifier m = i"
  using registered_identifiers by (auto simp: registered_def list_all_iff dest!: map_of_SomeD)

definition wf_factory :: "factory \<Rightarrow> bool" where
  "wf_factory f \<longleftrightarrow> groupsMapping f = groupsMapping new_factory \<and> ordered_map (mutatorsMapping f) \<and>
     list_all (\<lambda>(i, p). p \<noteq> None \<and> p = registered i) (mutatorsMapping f)"

lemma wf_new_factory: "wf_factory new_factory"
  by (simp add: wf_factory_def) (simp add: new_factory_def)

lemma map_of_Some_pair: "map_of (map (\<lambda>(i, m). (i, Some m)) xs) i = map_option Some (map_of xs i)"
  by (induction xs) auto

lemma factory_init_map_of:
  assumes "wf_factory f"
  shows "map_of (mutatorsMapping (factory_init f)) i = map_option Some (registered i)"
proof -
  let ?r = "map (\<lambda>(i, m). (i, Some m)) registered_mutators"
  have f: "map fst ?r = map fst registered_mutators" by auto
  have m: "map_of (mutatorsMapping (factory_init f)) = map_of (mutatorsMapping f) ++ map_of ?r"
    using assms registered_distinct
    by (simp add: factory_init_mapping map_of_map_inserts wf_factory_def map_of_rev_distinct f
        del: map_map)
  show ?thesis
  proof (cases "registered i")
    case None
    have "map_of (mutatorsMapping f) i = None"
    proof (rule ccontr)
      assume "map_of (mutatorsMapping f) i \<noteq> None"
      then obtain p where "(i, p) \<in> set (mutatorsMapping f)" by (metis map_of_SomeD not_None_eq)
      with assms have "p \<noteq> None" "p = registered i" by (auto simp: wf_factory_def list_all_iff)
      with None show False by simp
    qed
    with None show ?thesis by (simp add: m map_of_Some_pair registered_def map_add_def)
  next
    case (Some x)
    then show ?thesis by (simp add: m map_of_Some_pair registered_def map_add_def)
  qed
qed


text \<open>The loop of \<open>mutators\<close> over distinct names.\<close>

lemma select_mutators_spec:
  assumes "\<not> strictModeEnabled d" "distinct gs" "map_of (mutatorsMapping f) = M"
  shows "\<exists>d' f'. select_mutators gs f acc d =
      (d', Inr (acc @ map (\<lambda>g. the (M g)) (filter (\<lambda>g. M g \<noteq> None) gs), f')) \<and>
    \<not> strictModeEnabled d' \<and> groupsMapping f' = groupsMapping f \<and>
    mutatorsMapping f' = filter (\<lambda>(k, _). k \<notin> set (filter (\<lambda>g. M g \<noteq> None) gs)) (mutatorsMapping f) \<and>
    warnings_of d' = warnings_of d @ map (\<lambda>g. ''Unknown mutator: '' @ g) (filter (\<lambda>g. M g = None) gs)"
  using assms
proof (induction gs arbitrary: f acc d M)
  case Nil
  then show ?case by (simp add: st_return_def)
next
  case (Cons g gs)
  show ?case
  proof (cases "M g")
    case None
    let ?d = "emit (LogWarning (''Unknown mutator: '' @ g)) (diag_prepare d)"
    obtain d' f' where IH: "select_mutators gs f acc ?d =
        (d', Inr (acc @ map (\<lambda>g. the (M g)) (filter (\<lambda>g. M g \<noteq> None) gs), f'))"
      "\<not> strictModeEnabled d'" "groupsMapping f' = groupsMapping f"
      "mutatorsMapping f' = filter (\<lambda>(k, _). k \<notin> set (filter (\<lambda>g. M g \<noteq> None) gs)) (mutatorsMapping f)"
      "warnings_of d' = warnings_of ?d @ map (\<lambda>g. ''Unknown mutator: '' @ g) (filter (\<lambda>g. M g = None) gs)"
      using Cons.IH [of ?d f M acc] Cons.prems by auto
    have "select_mutators (g # gs) f acc d = select_mutators gs f acc ?d"
      using None Cons.prems by (simp add: st_bind_def diag_warning_lenient)
    with IH None show ?thesis by simp
  next
    case (Some p)
    let ?f = "f\<lparr>mutatorsMapping := filter (\<lambda>(k, _). k \<noteq> g) (mutatorsMapping f)\<rparr>"
    have M': "map_of (mutatorsMapping ?f) = M(g := None)"
      using Cons.prems(3) by (simp add: map_of_filter_key)
    have notin: "g \<notin> set gs" using Cons.prems(2) by simp
    have fl: "filter (\<lambda>x. (M(g := None)) x \<noteq> None) gs = filter (\<lambda>x. M x \<noteq> None) gs"
      "filter (\<lambda>x. (M(g := None)) x = None) gs = filter (\<lambda>x. M x = None) gs"
      "map (\<lambda>x. the ((M(g := None)) x)) (filter (\<lambda>x. M x \<noteq> None) gs) =
        map (\<lambda>x. the (M x)) (filter (\<lambda>x. M x \<noteq> None) gs)"
      using notin by (auto intro!: filter_cong)
    have dist: "distinct gs" using Cons.prems(2) by simp
    have st: "select_mutators (g # gs) f acc d = select_mutators gs ?f (acc @ [p]) d"
      using Some Cons.prems(3) by simp
    have fg: "filter (\<lambda>g. M g \<noteq> None) (g # gs) = g # filter (\<lambda>g. M g \<noteq> None) gs"
      "filter (\<lambda>g. M g = None) (g # gs) = filter (\<lambda>g. M g = None) gs"
      using Some by simp_all
    have mm: "filter (\<lambda>(k, _). k \<notin> set (g # ks)) m =
        filter (\<lambda>(k, _). k \<notin> set ks) (filter (\<lambda>(k, _). k \<noteq> g) m)"
      for ks and m :: "(string \<times> mutator option) list"
      by (induction m) auto
    show ?thesis
      using Cons.IH [OF Cons.prems(1) dist M', of "acc @ [p]", unfolded fl]
      unfolding st fg mm by (simp add: Some)
  qed
qed

definition requested :: "string list \<Rightarrow> string \<Rightarrow> bool" where
  "requested groups x \<longleftrightarrow>
     (\<exists>g \<in> set (if groups = [] then [CXX_Default] else groups). member_of (groupsMapping new_factory) g x)"

lemma builtin_expansion:
  assumes "wf_factory f"
  shows "\<exists>out. expandGroups group_depth gs (groupsMapping (factory_init f)) [] = Some out \<and>
    ordered_set out \<and> set out = {x. \<exists>g \<in> set gs. member_of (groupsMapping new_factory) g x}"
proof -
  have g: "groupsMapping (factory_init f) = groupsMapping new_factory"
    using assms by (simp add: wf_factory_def)
  obtain out where "expandGroups group_depth gs (groupsMapping new_factory) [] = Some out"
    using expandGroups_enough_fuel [OF builtin_ranked] builtin_rank_less by metis
  from this expandGroups_members [OF this] expandGroups_ordered [OF this] show ?thesis
    unfolding g by (intro exI [of _ out]) simp
qed


lemma factory_init_entries:
  assumes "wf_factory f"
  shows "list_all (\<lambda>(i, p). p \<noteq> None \<and> p = registered i) (mutatorsMapping (factory_init f))"
proof -
  have ord: "ordered_map (mutatorsMapping (factory_init f))"
    using assms by (simp add: wf_factory_def factory_init_mapping map_inserts_ordered)
  have "p \<noteq> None \<and> p = registered i" if "(i, p) \<in> set (mutatorsMapping (factory_init f))" for i p
  proof -
    have "map_of (mutatorsMapping (factory_init f)) i = Some p"
      using that ordered_map_distinct [OF ord] by simp
    then show ?thesis by (auto simp: factory_init_map_of [OF assms])
  qed
  then show ?thesis by (auto simp: list_all_iff)
qed

section \<open>Properties\<close>

text \<open>C19. On a factory whose entries are valid, and outside strict mode, \<open>mutators\<close> always
  returns: the mutators whose identifiers the requested names stand for (the default group when no
  name is given), each once, in the order of the identifiers and with no null pointer; the other
  names each get a warning, in order, and an empty selection gets one more. The factory stays valid.\<close>

theorem mutators_selects_requested:
  assumes "wf_factory f" "\<not> strictModeEnabled d"
  shows "\<exists>d' ms f' ids. factory_mutators groups f d = (d', Inr (Some (map Some ms, f'))) \<and>
    map getUniqueIdentifier ms = filter (\<lambda>i. registered i \<noteq> None) ids \<and>
    map Some ms = map registered (filter (\<lambda>i. registered i \<noteq> None) ids) \<and>
    ordered_set ids \<and> set ids = {x. requested groups x} \<and> wf_factory f' \<and>
    warnings_of d' = warnings_of d @
      map (\<lambda>i. ''Unknown mutator: '' @ i) (filter (\<lambda>i. registered i = None) ids) @
      (if ms = [] then [''No valid mutators specified.''] else [])"
proof -
  let ?F = "factory_init f" and ?gs = "if groups = [] then [CXX_Default] else groups"
  let ?M = "\<lambda>i. map_option Some (registered i)"
  obtain ids where ids: "expandGroups group_depth ?gs (groupsMapping ?F) [] = Some ids"
    "ordered_set ids" "set ids = {x. requested groups x}"
    using builtin_expansion [OF assms(1), of ?gs] unfolding requested_def by blast
  let ?ks = "filter (\<lambda>i. registered i \<noteq> None) ids"
  have M: "map_of (mutatorsMapping ?F) = ?M" using factory_init_map_of [OF assms(1)] by blast
  have "distinct ids" using ids(2) strict_sorted_iff by blast
  from select_mutators_spec [OF assms(2) this M, of "[]"] obtain d1 f1 where
    sel: "select_mutators ids ?F [] d = (d1, Inr (map (\<lambda>g. the (?M g)) ?ks, f1))"
    and d1: "\<not> strictModeEnabled d1"
      "warnings_of d1 = warnings_of d @ map (\<lambda>g. ''Unknown mutator: '' @ g) (filter (\<lambda>i. registered i = None) ids)"
    and f1: "groupsMapping f1 = groupsMapping ?F"
      "mutatorsMapping f1 = filter (\<lambda>(k, _). k \<notin> set ?ks) (mutatorsMapping ?F)"
    by auto
  let ?ms = "map (\<lambda>i. the (registered i)) ?ks"
  have ms: "map (\<lambda>g. the (?M g)) ?ks = map Some ?ms" "map registered ?ks = map Some ?ms"
    by (auto simp: map_eq_conv)
  have idn: "map getUniqueIdentifier ?ms = ?ks"
    by (auto intro!: map_idI simp: registered_identifier)
  have wf: "wf_factory f1"
    using assms(1) factory_init_entries [OF assms(1)]
    by (auto simp: wf_factory_def f1 list_all_iff ordered_map_filter factory_init_mapping
        map_inserts_ordered)
  show ?thesis
  proof (cases "?ks = []")
    case True
    then have "factory_mutators groups f d =
        (emit (LogWarning ''No valid mutators specified.'') (diag_prepare d1), Inr (Some (map Some ?ms, f1)))"
      using d1(1) unfolding factory_mutators_def Let_def ids(1)
      by (simp add: st_bind_def sel diag_warning_lenient st_return_def)
    then show ?thesis
      using True ids wf d1(2) by (intro exI [of _ ids] exI [of _ f1] exI [of _ ?ms] exI) auto
  next
    case False
    then have "factory_mutators groups f d = (d1, Inr (Some (map Some ?ms, f1)))"
      unfolding factory_mutators_def Let_def ids(1)
      by (auto simp: st_bind_def sel st_return_def)
    then show ?thesis
      using False ids wf d1(2) idn ms by (intro exI [of _ ids] exI [of _ f1] exI [of _ ?ms] exI) auto
  qed
qed


lemma mutators_selects_requested_witness:
  "\<exists>d' ms f' ids. factory_mutators [''cxx_calls'', ''nothing''] new_factory new_diagnostics =
      (d', Inr (Some (map Some ms, f'))) \<and>
    map getUniqueIdentifier ms = filter (\<lambda>i. registered i \<noteq> None) ids \<and>
    map Some ms = map registered (filter (\<lambda>i. registered i \<noteq> None) ids) \<and>
    ordered_set ids \<and> set ids = {x. requested [''cxx_calls'', ''nothing''] x} \<and> wf_factory f' \<and>
    warnings_of d' = warnings_of new_diagnostics @
      map (\<lambda>i. ''Unknown mutator: '' @ i) (filter (\<lambda>i. registered i = None) ids) @
      (if ms = [] then [''No valid mutators specified.''] else [])"
  by (rule mutators_selects_requested [OF wf_new_factory]) (simp add: new_diagnostics_def)

text \<open>The leaves of a built-in group, computed.\<close>

fun leaves :: "nat \<Rightarrow> string \<Rightarrow> string list" where
  "leaves 0 g = [g]"
| "leaves (Suc n) g =
     (case map_of group_assignments g of
        None \<Rightarrow> [g]
      | Some members \<Rightarrow> concat (map (leaves n) members))"

lemma member_of_leaves:
  "builtin_rank g < n \<Longrightarrow> member_of (groupsMapping new_factory) g x \<longleftrightarrow> x \<in> set (leaves n g)"
proof (induction n arbitrary: g)
  case (Suc n)
  show ?case
  proof (cases "map_of group_assignments g")
    case None
    then show ?thesis by (simp add: member_of_leaf_iff builtin_groups_map_of)
  next
    case (Some members)
    have "member_of (groupsMapping new_factory) m x \<longleftrightarrow> x \<in> set (leaves n m)" if m: "m \<in> set members" for m
    proof (cases "map_of group_assignments m = None")
      case True
      then show ?thesis
        by (cases n) (auto simp: member_of_leaf_iff builtin_groups_map_of)
    next
      case False
      have "(g, members) \<in> set group_assignments" using Some by (rule map_of_SomeD)
      with assignments_ranked m False have "builtin_rank m < builtin_rank g"
        by (fastforce simp: ranked_def list_all_iff)
      then show ?thesis using Suc by simp
    qed
    then show ?thesis
      by (simp add: member_of_group_iff [of _ g members] builtin_groups_map_of Some)
  qed
qed simp


definition mutator_ids :: "string list" where
  "mutator_ids = map fst registered_mutators"

lemma registered_in_all_leaves:
  "list_all (\<lambda>x. x \<in> set (leaves 4 AllMutatorsGroup)) mutator_ids"
  by (simp add: mutator_ids_def registered_mutators_def group_assignments_def group_name_defs
      mutator_ID_defs numeral_eq_Suc)

lemma group_members_known:
  "list_all (\<lambda>(_, members). list_all (\<lambda>m. m \<in> set mutator_ids \<or> m \<in> set (map fst group_assignments))
     members) group_assignments"
  by (simp add: mutator_ids_def registered_mutators_def group_assignments_def group_name_defs
      mutator_ID_defs)

lemma member_of_registered:
  assumes "member_of (groupsMapping new_factory) g x"
    and "g \<in> set mutator_ids \<or> g \<in> set (map fst group_assignments)"
  shows "x \<in> set mutator_ids"
  using assms
proof induction
  case (leaf g)
  then show ?case by (auto simp: builtin_groups_map_of map_of_eq_None_iff)
next
  case (nested g members m x)
  then have "(g, members) \<in> set group_assignments"
    by (auto simp: builtin_groups_map_of dest: map_of_SomeD)
  with group_members_known nested.hyps(2)
  have "m \<in> set mutator_ids \<or> m \<in> set (map fst group_assignments)"
    unfolding list_all_iff by blast
  then show ?case by (rule nested.IH)
qed

text \<open>C20. Every member of a built-in group is a registered mutator, however deeply the groups nest,
  so no group name leads to a warning; and the group \<open>all\<close> stands for every registered mutator.\<close>

theorem builtin_groups_complete:
  "(\<Union>g \<in> set (map fst group_assignments). {x. requested [g] x}) \<subseteq> {x. registered x \<noteq> None} \<and>
   {x. requested [AllMutatorsGroup] x} = {x. registered x \<noteq> None} \<and>
   length registered_mutators = 45 \<and> distinct (map fst registered_mutators)"
proof -
  have reg: "registered x \<noteq> None \<longleftrightarrow> x \<in> set mutator_ids" for x
    by (auto simp: registered_def mutator_ids_def map_of_eq_None_iff)
  have sub: "{x. requested [g] x} \<subseteq> {x. registered x \<noteq> None}" if "g \<in> set (map fst group_assignments)" for g
  proof
    fix x assume "x \<in> {x. requested [g] x}"
    then have "member_of (groupsMapping new_factory) g x" by (simp add: requested_def)
    then have "x \<in> set mutator_ids" by (rule member_of_registered) (use that in simp)
    then show "x \<in> {x. registered x \<noteq> None}" by (simp only: reg mem_Collect_eq)
  qed
  have all: "AllMutatorsGroup \<in> set (map fst group_assignments)"
    by (simp add: group_assignments_def)
  have "requested [AllMutatorsGroup] x" if "x \<in> set mutator_ids" for x
    using that registered_in_all_leaves member_of_leaves [of AllMutatorsGroup 4 x] builtin_rank_less
    by (auto simp: requested_def list_all_iff group_depth_def)
  with sub [OF all] have eq: "{x. requested [AllMutatorsGroup] x} = {x. registered x \<noteq> None}"
    unfolding reg by blast
  have "(\<Union>g \<in> set (map fst group_assignments). {x. requested [g] x}) \<subseteq> {x. registered x \<noteq> None}"
    using sub by blast
  with eq show ?thesis using registered_distinct by (simp add: registered_mutators_def)
qed

end
