(* ===== verification/MutationPoints.thy ===== *)
theory MutationPoints
  imports Mutators
begin

text \<open>
  Mutation points: \<open>lib/MutationPoint.cpp\<close>, \<open>lib/FunctionUnderTest.cpp\<close>, \<open>lib/Bitcode.cpp\<close> and the
  \<open>getMutations\<close> of the mutators that work on one instruction at a time
  (\<open>TrivialCXXMutator\<close>, \<open>NegateConditionMutator\<close>, \<open>ScalarValueMutator\<close>, \<open>UnaryMinusToNoop\<close>). Whether
  a low-level mutation applies is \<open>canMutate\<close>, a parameter: the irm library is not in the repository.
\<close>

section \<open>Addresses\<close>

record mutation_address =
  functionIndex :: int
  basicBlockIndex :: int
  instructionIndex :: int
  address_identifier :: string

definition MutationPointAddress :: "int \<Rightarrow> int \<Rightarrow> int \<Rightarrow> mutation_address" where
  "MutationPointAddress f b i =
     \<lparr>functionIndex = f, basicBlockIndex = b, instructionIndex = i,
      address_identifier = string_of_int f @ ''_'' @ string_of_int b @ ''_'' @ string_of_int i\<rparr>"

text \<open>The loop counts to the first element that is the value, or to the end.\<close>

fun getIndex :: "'a list \<Rightarrow> ('a \<Rightarrow> bool) \<Rightarrow> nat" where
  "getIndex [] is_value = 0"
| "getIndex (x # xs) is_value = (if is_value x then 0 else Suc (getIndex xs is_value))"

definition blocks_of :: "ir_module \<Rightarrow> string \<Rightarrow> basic_block list" where
  "blocks_of m f = (case get_function m f of None \<Rightarrow> [] | Some fn \<Rightarrow> blocks fn)"

definition insts_of :: "ir_module \<Rightarrow> string \<Rightarrow> string \<Rightarrow> instruction list" where
  "insts_of m f b = (case find (\<lambda>x. label x = b) (blocks_of m f) of None \<Rightarrow> [] | Some bb \<Rightarrow> insts bb)"

definition addressFromInstruction :: "ir_module \<Rightarrow> inst_ptr \<Rightarrow> mutation_address" where
  "addressFromInstruction m p =
     MutationPointAddress
       (int_of_size (getIndex (function_list m) (\<lambda>f. fname f = in_function p)))
       (int_of_size (getIndex (blocks_of m (in_function p)) (\<lambda>b. label b = in_block p)))
       (int_of_size (getIndex (insts_of m (in_function p) (in_block p)) (\<lambda>i. iref i = at_inst p)))"

text \<open>\<open>*std::next(c.begin(), n)\<close>; an index outside the container is undefined behaviour, \<open>None\<close> here.\<close>

definition at_next :: "'a list \<Rightarrow> int \<Rightarrow> 'a option" where
  "at_next xs n = (if n < 0 then None else nth_opt xs (nat n))"

definition findInstruction_in_function :: "mutation_address \<Rightarrow> ir_function \<Rightarrow> instruction option" where
  "findInstruction_in_function a f =
     Option.bind (at_next (blocks f) (basicBlockIndex a)) (\<lambda>b.
       at_next (insts b) (instructionIndex a))"

definition findInstruction_in_module :: "mutation_address \<Rightarrow> ir_module \<Rightarrow> instruction option" where
  "findInstruction_in_module a m =
     Option.bind (at_next (function_list m) (functionIndex a)) (findInstruction_in_function a)"

lemma getIndex_find:
  "find P xs = Some x \<Longrightarrow> getIndex xs P < length xs \<and> xs ! getIndex xs P = x"
  by (induction xs) (auto split: if_splits)

lemma at_next_getIndex:
  assumes "find P xs = Some x" "length xs < 2 ^ 31"
  shows "at_next xs (int_of_size (getIndex xs P)) = Some x"
  using getIndex_find [OF assms(1)] assms(2)
  by (simp add: at_next_def nth_opt_def int_of_size_small)

text \<open>The containers are small enough for the indices to be \<open>int\<close>s.\<close>

definition int_sized :: "ir_module \<Rightarrow> bool" where
  "int_sized m \<longleftrightarrow> length (function_list m) < 2 ^ 31 \<and>
     list_all (\<lambda>f. length (blocks f) < 2 ^ 31 \<and> list_all (\<lambda>b. length (insts b) < 2 ^ 31) (blocks f))
       (function_list m)"

lemma deref_cases:
  assumes "deref m p = Some i"
  obtains f b where "get_function m (in_function p) = Some f" "get_block f (in_block p) = Some b"
    "get_inst b (at_inst p) = Some i"
  using assms by (auto simp: deref_def split: Option.bind_splits)

lemma getIndex_inject:
  assumes "find P xs = Some x" "find Q xs = Some y" "getIndex xs P = getIndex xs Q"
  shows "x = y"
  using getIndex_find [OF assms(1)] getIndex_find [OF assms(2)] assms(3) by simp

section \<open>Points\<close>

record mutation_point =
  point_mutator :: mutator
  irMutator :: "irm_mutation option"
  address :: mutation_address
  bitcode :: nat
  originalFunction :: string
  mutatedFunction :: "string option"
  sourceLocation :: SourceLocation
  userIdentifier :: string
  covered :: bool
  endLocation :: SourceLocation

definition MutationPoint ::
  "(string \<Rightarrow> bool) \<Rightarrow> mutator \<Rightarrow> irm_mutation option \<Rightarrow> nat \<Rightarrow> ir_module \<Rightarrow> inst_ptr \<Rightarrow> instruction \<Rightarrow>
     mutation_point" where
  "MutationPoint is_absolute mutator low bc m p i =
     (let loc = locationFromInstruction is_absolute i
      in \<lparr>point_mutator = mutator, irMutator = low, address = addressFromInstruction m p,
          bitcode = bc, originalFunction = in_function p, mutatedFunction = None,
          sourceLocation = loc,
          userIdentifier = getUniqueIdentifier mutator @ '':'' @ filePath loc @ '':'' @
            string_of_int (line loc) @ '':'' @ string_of_int (column loc),
          covered = True, endLocation = nullSourceLocation\<rparr>)"

definition setCovered :: "bool \<Rightarrow> mutation_point \<Rightarrow> mutation_point" where
  "setCovered c p = p\<lparr>covered := c\<rparr>"

definition setEndLocation :: "int \<Rightarrow> int \<Rightarrow> mutation_point \<Rightarrow> mutation_point" where
  "setEndLocation l c p =
     p\<lparr>endLocation :=
        \<lparr>unitDirectory = unitDirectory (sourceLocation p), unitFilePath = unitFilePath (sourceLocation p),
         directory = directory (sourceLocation p), filePath = filePath (sourceLocation p),
         line = l, column = c\<rparr>\<rparr>"

text \<open>The global variable \<open>recordMutation\<close> adds holds the encoding with its terminating zero.\<close>

definition string_of_bool :: "bool \<Rightarrow> string" where
  "string_of_bool b = (if b then ''1'' else ''0'')"

definition mutation_encoding :: "mutation_point \<Rightarrow> string" where
  "mutation_encoding p =
     userIdentifier p @ '':'' @ string_of_int (line (endLocation p)) @ '':'' @
     string_of_int (column (endLocation p)) @ '':'' @ string_of_bool (covered p)"

definition recordMutation :: "mutation_point \<Rightarrow> ir_module \<Rightarrow> ir_module" where
  "recordMutation p m =
     m\<lparr>used_globals := used_globals m @
         [(''.mull_mutants'', userIdentifier p, mutation_encoding p @ [CHR 0x00])]\<rparr>"

definition getOriginalFunctionName :: "mutation_point \<Rightarrow> string" where
  "getOriginalFunctionName p = ''mull_'' @ originalFunction p @ ''_original''"

definition getMutatedFunctionName :: "mutation_point \<Rightarrow> string" where
  "getMutatedFunctionName p = (case mutatedFunction p of Some n \<Rightarrow> n | None \<Rightarrow> userIdentifier p)"

definition getOriginalValue :: "ir_module \<Rightarrow> mutation_point \<Rightarrow> instruction result" where
  "getOriginalValue m p =
     (case get_function m (if mutatedFunction p \<noteq> None then getOriginalFunctionName p else originalFunction p) of
        None \<Rightarrow> Inl (AssertFailed ''The original function should be present'')
      | Some f \<Rightarrow>
          (case findInstruction_in_function (address p) f of
             None \<Rightarrow> Inl (OutOfRange ''std::next'')
           | Some i \<Rightarrow> Inr i))"

definition dump :: "mutation_point \<Rightarrow> string" where
  "dump p =
     ''Mutation Point: '' @ getUniqueIdentifier (point_mutator p) @ '' '' @ filePath (sourceLocation p) @
     '':'' @ string_of_int (line (sourceLocation p)) @ '':'' @ string_of_int (column (sourceLocation p))"

section \<open>Functions under test\<close>

record function_under_test =
  fut_function :: string
  fut_bitcode :: nat
  fut_covered :: bool
  selectedInstructions :: "inst_ptr list"

definition FunctionUnderTest :: "string \<Rightarrow> nat \<Rightarrow> bool \<Rightarrow> function_under_test" where
  "FunctionUnderTest f bc cov =
     \<lparr>fut_function = f, fut_bitcode = bc, fut_covered = cov, selectedInstructions = []\<rparr>"

definition pointer_to :: "ir_function \<Rightarrow> basic_block \<Rightarrow> instruction \<Rightarrow> inst_ptr" where
  "pointer_to f b i = \<lparr>in_function = fname f, in_block = label b, at_inst = iref i\<rparr>"

text \<open>An instruction filter is its \<open>shouldSkip\<close>; the inner loop stops at the first that skips.\<close>

fun skipped_by :: "(instruction \<Rightarrow> bool) list \<Rightarrow> instruction \<Rightarrow> bool" where
  "skipped_by [] i = False"
| "skipped_by (shouldSkip # filters) i = (if shouldSkip i then True else skipped_by filters i)"

definition selectInstructions ::
  "ir_module \<Rightarrow> (instruction \<Rightarrow> bool) list \<Rightarrow> function_under_test \<Rightarrow> function_under_test" where
  "selectInstructions m filters fut =
     (case get_function m (fut_function fut) of
        None \<Rightarrow> fut
      | Some f \<Rightarrow>
          fut\<lparr>selectedInstructions := selectedInstructions fut @
            map (\<lambda>(b, i). pointer_to f b i) (filter (\<lambda>(b, i). \<not> skipped_by filters i) (instructions f))\<rparr>)"

lemma skipped_by_iff: "skipped_by filters i \<longleftrightarrow> (\<exists>f \<in> set filters. f i)"
  by (induction filters) auto

section \<open>Searching one instruction at a time\<close>

fun isZero :: "ir_value \<Rightarrow> bool" where
  "isZero (ConstInt n) = (n = 0)"
| "isZero (ConstFP z) = z"
| "isZero _ = False"

text \<open>The two loops of the trivial mutators, which the negate and scalar mutators repeat.\<close>

definition trivial_getMutations ::
  "(string \<Rightarrow> bool) \<Rightarrow> (irm_mutation \<Rightarrow> instruction \<Rightarrow> bool) \<Rightarrow> ir_module \<Rightarrow> mutator \<Rightarrow>
     function_under_test \<Rightarrow> mutation_point list" where
  "trivial_getMutations is_absolute canMutate m mutator fut =
     concat (map (\<lambda>p.
       (case deref m p of
          None \<Rightarrow> []
        | Some i \<Rightarrow>
            concat (map (\<lambda>low.
              if canMutate low i
              then [MutationPoint is_absolute mutator (Some low) (fut_bitcode fut) m p i] else [])
              (lowLevelMutators mutator))))
       (selectedInstructions fut))"

definition NegateCondition_getMutations ::
  "(string \<Rightarrow> bool) \<Rightarrow> (irm_mutation \<Rightarrow> instruction \<Rightarrow> bool) \<Rightarrow> ir_module \<Rightarrow> mutator \<Rightarrow>
     function_under_test \<Rightarrow> mutation_point list" where
  "NegateCondition_getMutations is_absolute canMutate m mutator fut =
     concat (map (\<lambda>p.
       (case deref m p of
          None \<Rightarrow> []
        | Some i \<Rightarrow>
            concat (map (\<lambda>low.
              if canMutate low i
              then [MutationPoint is_absolute mutator (Some low) (fut_bitcode fut) m p i] else [])
              (lowLevelMutators mutator))))
       (selectedInstructions fut))"

definition ScalarValue_getMutations ::
  "(string \<Rightarrow> bool) \<Rightarrow> (irm_mutation \<Rightarrow> instruction \<Rightarrow> bool) \<Rightarrow> ir_module \<Rightarrow> mutator \<Rightarrow>
     function_under_test \<Rightarrow> mutation_point list" where
  "ScalarValue_getMutations is_absolute canMutate m mutator fut =
     concat (map (\<lambda>p.
       (case deref m p of
          None \<Rightarrow> []
        | Some i \<Rightarrow>
            concat (map (\<lambda>low.
              if canMutate low i
              then [MutationPoint is_absolute mutator (Some low) (fut_bitcode fut) m p i] else [])
              (lowLevelMutators mutator))))
       (selectedInstructions fut))"

lemma instruction_getMutations [simp]:
  "NegateCondition_getMutations = trivial_getMutations" "ScalarValue_getMutations = trivial_getMutations"
  by (simp_all add: fun_eq_iff NegateCondition_getMutations_def ScalarValue_getMutations_def trivial_getMutations_def)

definition unary_minus_getMutations ::
  "(string \<Rightarrow> bool) \<Rightarrow> (irm_mutation \<Rightarrow> instruction \<Rightarrow> bool) \<Rightarrow> ir_module \<Rightarrow> mutator \<Rightarrow>
     function_under_test \<Rightarrow> mutation_point list" where
  "unary_minus_getMutations is_absolute canMutate m mutator fut =
     concat (map (\<lambda>p.
       (case deref m p of
          None \<Rightarrow> []
        | Some i \<Rightarrow>
            concat (map (\<lambda>low.
              if canMutate low i then
                if \<not> is_binary_op (opcode i) \<or>
                   is_binary_op (opcode i) \<and> (case operand0 (opcode i) of Some v \<Rightarrow> isZero v | None \<Rightarrow> False)
                then [MutationPoint is_absolute mutator (Some low) (fut_bitcode fut) m p i] else []
              else [])
              (lowLevelMutators mutator))))
       (selectedInstructions fut))"

section \<open>Bitcode files\<close>

text \<open>
  A \<open>Bitcode\<close> has a module and, for each of its functions, pointers to the mutation points in the
  order they were added. Points are shared and changed through those pointers, so they live in a
  store, the driver's vector of points, and a pointer is an index into it. The map, which the code
  orders by the functions' addresses, is an association list. \<open>stem\<close> is LLVM's path stem.
\<close>

record bitcode_file =
  ir :: ir_module
  bitcode_identifier :: string
  mutationPoints :: "(string \<times> nat list) list"

type_synonym point_store = "mutation_point list"

definition Bitcode :: "(string \<Rightarrow> string) \<Rightarrow> ir_module \<Rightarrow> bitcode_file" where
  "Bitcode stem m = \<lparr>ir = m, bitcode_identifier = stem (module_id m), mutationPoints = []\<rparr>"

fun push_back_at :: "'k \<Rightarrow> 'v \<Rightarrow> ('k \<times> 'v list) list \<Rightarrow> ('k \<times> 'v list) list" where
  "push_back_at k v [] = [(k, [v])]"
| "push_back_at k v ((l, vs) # m) = (if k = l then (l, vs @ [v]) # m else (l, vs) # push_back_at k v m)"

definition addMutation :: "point_store \<Rightarrow> nat \<Rightarrow> bitcode_file \<Rightarrow> bitcode_file" where
  "addMutation store i b =
     b\<lparr>mutationPoints := push_back_at (originalFunction (store ! i)) i (mutationPoints b)\<rparr>"

definition points_of :: "('k \<times> 'v list) list \<Rightarrow> 'k \<Rightarrow> 'v list" where
  "points_of m k = (case map_of m k of None \<Rightarrow> [] | Some vs \<Rightarrow> vs)"

lemma points_of_push_back:
  "points_of (push_back_at k v m) l = (if k = l then points_of m l @ [v] else points_of m l)"
  by (induction m) (auto simp: points_of_def)

lemma keys_push_back: "set (map fst (push_back_at k v m)) = insert k (set (map fst m))"
proof (induction m)
  case (Cons a m)
  then show ?case by (cases a) (simp add: insert_commute)
qed simp

lemma distinct_push_back: "distinct (map fst m) \<Longrightarrow> distinct (map fst (push_back_at k v m))"
proof (induction m)
  case (Cons a m)
  obtain l vs where a: "a = (l, vs)" by (cases a)
  have "l \<notin> set (map fst (push_back_at k v m))" if "k \<noteq> l"
    using Cons.prems that unfolding keys_push_back by (simp add: a)
  with Cons show ?case by (simp add: a)
qed simp


section \<open>Properties\<close>

lemma address_indices:
  assumes "int_sized m" "deref m p = Some i"
  shows "at_next (function_list m) (functionIndex (addressFromInstruction m p)) = get_function m (in_function p)"
    and "get_function m (in_function p) = Some f \<Longrightarrow>
      at_next (blocks f) (basicBlockIndex (addressFromInstruction m p)) = get_block f (in_block p)"
    and "get_function m (in_function p) = Some f \<Longrightarrow> get_block f (in_block p) = Some b \<Longrightarrow>
      at_next (insts b) (instructionIndex (addressFromInstruction m p)) = Some i"
proof -
  obtain f' b' where fb: "get_function m (in_function p) = Some f'" "get_block f' (in_block p) = Some b'"
    "get_inst b' (at_inst p) = Some i"
    using assms(2) by (rule deref_cases)
  have mem: "f' \<in> set (function_list m)" "b' \<in> set (blocks f')"
    using fb(1,2) by (auto simp: get_function_def get_block_def find_Some_iff)
  then have len: "length (function_list m) < 2 ^ 31" "length (blocks f') < 2 ^ 31"
    "length (insts b') < 2 ^ 31"
    using assms(1) by (auto simp: int_sized_def list_all_iff)
  have bl: "blocks_of m (in_function p) = blocks f'" "insts_of m (in_function p) (in_block p) = insts b'"
    using fb(1,2) by (simp_all add: blocks_of_def insts_of_def get_block_def)
  show "at_next (function_list m) (functionIndex (addressFromInstruction m p)) = get_function m (in_function p)"
    using at_next_getIndex [OF _ len(1)] fb(1)
    by (simp add: addressFromInstruction_def MutationPointAddress_def get_function_def)
  show "at_next (blocks f) (basicBlockIndex (addressFromInstruction m p)) = get_block f (in_block p)"
    if "get_function m (in_function p) = Some f"
    using at_next_getIndex [OF _ len(2)] fb that bl(1)
    by (simp add: addressFromInstruction_def MutationPointAddress_def get_block_def)
  show "at_next (insts b) (instructionIndex (addressFromInstruction m p)) = Some i"
    if "get_function m (in_function p) = Some f" "get_block f (in_block p) = Some b"
    using at_next_getIndex [OF _ len(3)] fb that bl(2)
    by (simp add: addressFromInstruction_def MutationPointAddress_def get_inst_def)
qed

lemma findInstruction_address:
  assumes "int_sized m" "deref m p = Some i" "get_function m (in_function p) = Some f" "blocks g = blocks f"
  shows "findInstruction_in_function (addressFromInstruction m p) g = Some i"
proof -
  obtain b where "get_block f (in_block p) = Some b"
    using assms(2,3) by (elim deref_cases) simp
  then show ?thesis
    using address_indices [OF assms(1,2)] assms(3,4) by (simp add: findInstruction_in_function_def)
qed

text \<open>C21. The address of an instruction leads back to it, in its module, in its function and in any
  clone that has the same blocks; and two instructions of a module have the same address only if they
  are the same.\<close>

theorem address_roundtrip:
  assumes "int_sized m" "deref m p = Some i" "get_function m (in_function p) = Some f"
    and "blocks clone = blocks f" "deref m q = Some j"
  shows "findInstruction_in_module (addressFromInstruction m p) m = Some i \<and>
    findInstruction_in_function (addressFromInstruction m p) clone = Some i \<and>
    (addressFromInstruction m p = addressFromInstruction m q \<longleftrightarrow> p = q)"
proof -
  note fi = findInstruction_address [OF assms(1-3)]
  have mod: "findInstruction_in_module (addressFromInstruction m p) m = Some i"
    using address_indices(1) [OF assms(1,2)] assms(3) fi [of f] by (simp add: findInstruction_in_module_def)
  moreover have "p = q" if eq: "addressFromInstruction m p = addressFromInstruction m q"
  proof -
    have f: "get_function m (in_function p) = get_function m (in_function q)"
      using address_indices(1) [OF assms(1,2)] address_indices(1) [OF assms(1,5)] eq by simp
    then have fq: "get_function m (in_function q) = Some f" using assms(3) by simp
    have b: "get_block f (in_block p) = get_block f (in_block q)"
      using address_indices(2) [OF assms(1,2,3)] address_indices(2) [OF assms(1,5) fq] eq by simp
    obtain b' where b': "get_block f (in_block p) = Some b'" "get_inst b' (at_inst p) = Some i"
      using assms(2,3) by (elim deref_cases) simp
    have "at_inst q = iref j" "at_inst p = iref i" "i = j"
      using assms(5) fq b b' address_indices(3) [OF assms(1,2,3) b'(1)]
        address_indices(3) [OF assms(1,5) fq] eq
      by (auto simp: get_inst_def find_Some_iff elim!: deref_cases)
    moreover have "in_function p = in_function q"
      using assms(3) fq by (auto simp: get_function_def find_Some_iff)
    moreover have "in_block p = in_block q"
      using b b'(1) find_key_in_set [of label] by (metis get_block_def)
    ultimately show ?thesis by simp
  qed
  ultimately show ?thesis using fi [OF assms(4)] by blast
qed


text \<open>A module with one function of two blocks, for the witnesses.\<close>

definition sample_debug :: "32 word \<Rightarrow> debug_info" where
  "sample_debug n = \<lparr>di_directory = ''/src'', di_filename = ''a.cpp'', di_line = n, di_column = 3,
     di_unit = Some (''/src'', ''a.cpp'')\<rparr>"

definition sample_inst :: "string \<Rightarrow> ir_op \<Rightarrow> 32 word \<Rightarrow> instruction" where
  "sample_inst r x n = \<lparr>iref = r, opcode = x, dbg = Some (sample_debug n)\<rparr>"

definition sample_function :: ir_function where
  "sample_function = \<lparr>fname = ''f'',
     blocks = [\<lparr>label = ''entry'', insts = [sample_inst ''a'' (BinaryOp ''add'' (ArgRef 0) (ArgRef 1)) 7,
         sample_inst ''b'' (Br ''exit'') 8]\<rparr>,
       \<lparr>label = ''exit'', insts = [sample_inst ''r'' (Ret (Some (InstRef ''a''))) 9]\<rparr>],
     subprogram = Some (sample_debug 6), param_count = 2, returns_void = False, internal_linkage = False\<rparr>"

definition sample_module :: ir_module where
  "sample_module = \<lparr>module_id = ''a.bc'', function_list = [sample_function], used_globals = []\<rparr>"

lemmas sample_defs = sample_module_def sample_function_def sample_inst_def sample_debug_def

lemma address_roundtrip_witness:
  "findInstruction_in_module (addressFromInstruction sample_module
      \<lparr>in_function = ''f'', in_block = ''exit'', at_inst = ''r''\<rparr>) sample_module =
     Some (sample_inst ''r'' (Ret (Some (InstRef ''a''))) 9)"
proof -
  have "findInstruction_in_module (addressFromInstruction sample_module
      \<lparr>in_function = ''f'', in_block = ''exit'', at_inst = ''r''\<rparr>) sample_module =
     Some (sample_inst ''r'' (Ret (Some (InstRef ''a''))) 9) \<and>
    findInstruction_in_function (addressFromInstruction sample_module
      \<lparr>in_function = ''f'', in_block = ''exit'', at_inst = ''r''\<rparr>) (sample_function\<lparr>fname := ''g''\<rparr>) =
     Some (sample_inst ''r'' (Ret (Some (InstRef ''a''))) 9) \<and>
    (addressFromInstruction sample_module \<lparr>in_function = ''f'', in_block = ''exit'', at_inst = ''r''\<rparr> =
     addressFromInstruction sample_module \<lparr>in_function = ''f'', in_block = ''entry'', at_inst = ''a''\<rparr> \<longleftrightarrow>
     \<lparr>in_function = ''f'', in_block = ''exit'', at_inst = ''r''\<rparr> =
     \<lparr>in_function = ''f'', in_block = ''entry'', at_inst = ''a''\<rparr>)"
    by (rule address_roundtrip [where f = sample_function
          and j = "sample_inst ''a'' (BinaryOp ''add'' (ArgRef 0) (ArgRef 1)) 7"])
      (simp_all add: sample_defs int_sized_def deref_def get_function_def get_block_def get_inst_def)
  then show ?thesis by blast
qed

text \<open>C22. The points a single-instruction mutator finds in a function are exactly one for each
  selected instruction and low-level mutation that applies to it; and looking a point up through its
  address gives an instruction that its own low-level mutation can mutate.\<close>

theorem trivial_getMutations_sound_complete:
  assumes "int_sized m"
  shows "set (trivial_getMutations is_absolute canMutate m mutator fut) =
      {MutationPoint is_absolute mutator (Some low) (fut_bitcode fut) m p i | p i low.
         p \<in> set (selectedInstructions fut) \<and> deref m p = Some i \<and>
         low \<in> set (lowLevelMutators mutator) \<and> canMutate low i} \<and>
    (\<forall>pt \<in> set (trivial_getMutations is_absolute canMutate m mutator fut).
      \<exists>low i. irMutator pt = Some low \<and> getOriginalValue m pt = Inr i \<and> canMutate low i)"
proof -
  have eq: "set (trivial_getMutations is_absolute canMutate m mutator fut) =
      {MutationPoint is_absolute mutator (Some low) (fut_bitcode fut) m p i | p i low.
         p \<in> set (selectedInstructions fut) \<and> deref m p = Some i \<and>
         low \<in> set (lowLevelMutators mutator) \<and> canMutate low i}"
    by (force simp: trivial_getMutations_def split: option.splits if_splits)
  moreover have "getOriginalValue m (MutationPoint is_absolute mutator (Some low) bc m p i) = Inr i"
    if d: "deref m p = Some i" for p i low bc
  proof -
    obtain f where f: "get_function m (in_function p) = Some f" using d by (rule deref_cases)
    show ?thesis
      using findInstruction_address [OF assms d f refl] f
      by (simp add: getOriginalValue_def MutationPoint_def Let_def)
  qed
  moreover have "irMutator (MutationPoint is_absolute mutator l bc m p i) = l" for l bc p i
    by (simp add: MutationPoint_def Let_def)
  ultimately show ?thesis by fastforce
qed


lemma trivial_getMutations_sound_complete_witness:
  "MutationPoint (\<lambda>_. True) mk_AddToSub (Some (irm ''AddToSub'' [])) 0 sample_module
     \<lparr>in_function = ''f'', in_block = ''entry'', at_inst = ''a''\<rparr>
     (sample_inst ''a'' (BinaryOp ''add'' (ArgRef 0) (ArgRef 1)) 7) \<in>
   set (trivial_getMutations (\<lambda>_. True) (\<lambda>low i. low = irm ''AddToSub'' [] \<and> is_binary_op (opcode i))
     sample_module mk_AddToSub (selectInstructions sample_module [] (FunctionUnderTest ''f'' 0 True)))"
proof -
  have sz: "int_sized sample_module" by (simp add: int_sized_def sample_defs)
  let ?p = "\<lparr>in_function = ''f'', in_block = ''entry'', at_inst = ''a''\<rparr>"
  let ?i = "sample_inst ''a'' (BinaryOp ''add'' (ArgRef 0) (ArgRef 1)) 7"
  have sel: "?p \<in> set (selectedInstructions (selectInstructions sample_module [] (FunctionUnderTest ''f'' 0 True)))"
    by (simp add: selectInstructions_def FunctionUnderTest_def get_function_def instructions_def
        pointer_to_def sample_defs)
  have d: "deref sample_module ?p = Some ?i"
    by (simp add: deref_def get_function_def get_block_def get_inst_def sample_defs)
  have bc: "fut_bitcode (selectInstructions sample_module [] (FunctionUnderTest ''f'' 0 True)) = 0"
    by (simp add: selectInstructions_def FunctionUnderTest_def split: option.split)
  have low: "irm ''AddToSub'' [] \<in> set (lowLevelMutators mk_AddToSub)"
    by (simp add: mk_AddToSub_def TrivialCXXMutator_def getAddToSub_def)
  have op: "is_binary_op (opcode ?i)" by (simp add: sample_defs is_binary_op_def)
  show ?thesis
    using trivial_getMutations_sound_complete [OF sz,
        of "\<lambda>_. True" "\<lambda>low i. low = irm ''AddToSub'' [] \<and> is_binary_op (opcode i)" mk_AddToSub
           "selectInstructions sample_module [] (FunctionUnderTest ''f'' 0 True)"]
      sel d low op unfolding bc by blast
qed

end
