(* ===== verification/Mutants.thy ===== *)
theory Mutants
  imports MutationPoints Diagnostics "HOL-Library.Product_Lexorder" "HOL-Library.Multiset"
begin

text \<open>
  Mutants: \<open>lib/Mutant.cpp\<close>, and \<open>tools/mull-runner/MutantExtractor.cpp\<close>, which reads them back from
  the section \<open>.mull_mutants\<close> of an executable into which \<open>MutationPoint::recordMutation\<close> wrote them,
  through the two section readers of \<open>LLVMCompatibility/12.x.x\<close>. Reading and parsing an object file is
  LLVM's; what comes out of it, a failure included, is an argument.
\<close>

section \<open>Mutants and their order\<close>

record mutant =
  mutant_identifier :: string
  mutatorIdentifier :: string
  mutant_location :: SourceLocation
  mutant_endLocation :: SourceLocation
  mutant_covered :: bool
  mutant_kind :: mutator_kind

definition Mutant :: "string \<Rightarrow> string \<Rightarrow> SourceLocation \<Rightarrow> SourceLocation \<Rightarrow> bool \<Rightarrow> mutant" where
  "Mutant ident mut loc endLoc cov =
     \<lparr>mutant_identifier = ident, mutatorIdentifier = mut, mutant_location = loc, mutant_endLocation = endLoc,
      mutant_covered = cov, mutant_kind = Kind_InvalidKind\<rparr>"

definition setMutatorKind :: "mutator_kind \<Rightarrow> mutant \<Rightarrow> mutant" where
  "setMutatorKind k m = m\<lparr>mutant_kind := k\<rparr>"

text \<open>\<open>std::tie\<close> of the four fields; tuples and strings compare lexicographically.\<close>

definition mutant_key :: "mutant \<Rightarrow> string \<times> int \<times> int \<times> string" where
  "mutant_key m = (filePath (mutant_location m), line (mutant_location m), column (mutant_location m),
     mutatorIdentifier m)"

definition MutantComparator :: "mutant \<Rightarrow> mutant \<Rightarrow> bool" where
  "MutantComparator lhs rhs \<longleftrightarrow> mutant_key lhs < mutant_key rhs"

text \<open>\<open>std::sort\<close> may order elements that compare equal in any way: its results are the permutations
  that are sorted. \<open>sort_key\<close> gives one of them.\<close>

definition std_sort_result :: "mutant list \<Rightarrow> mutant list \<Rightarrow> bool" where
  "std_sort_result xs ys \<longleftrightarrow> mset ys = mset xs \<and> sorted_wrt (\<lambda>a b. \<not> MutantComparator b a) ys"

definition sort_mutants :: "mutant list \<Rightarrow> mutant list" where
  "sort_mutants xs = sort_key mutant_key xs"

lemma sort_mutants_result: "std_sort_result xs (sort_mutants xs)"
  using sorted_sort_key [of mutant_key xs]
  by (simp add: std_sort_result_def sort_mutants_def MutantComparator_def sorted_map not_less)

lemma std_sort_unique:
  assumes "std_sort_result xs ys" "distinct (map mutant_key xs)"
  shows "ys = sort_mutants xs"
proof -
  have ms: "mset ys = mset xs" and so: "sorted (map mutant_key ys)"
    using assms(1) by (simp_all add: std_sort_result_def MutantComparator_def not_less sorted_map)
  have "inj_on mutant_key (set xs)" using assms(2) by (simp add: distinct_map)
  then have inj: "inj_on mutant_key (set ys)" using ms by (metis set_mset_mset)
  show ?thesis
    unfolding sort_mutants_def
    by (rule sort_key_inj_key_eq [symmetric]) (use ms so inj in \<open>simp_all add: set_mset_mset [symmetric] del: set_mset_mset\<close>)
qed

section \<open>The extractor\<close>

text \<open>\<open>split\<close> drops the empty pieces.\<close>

definition split_nonempty :: "string \<Rightarrow> char \<Rightarrow> string list" where
  "split_nonempty input delimiter = filter (\<lambda>s. s \<noteq> []) (getlines delimiter input)"

definition chunk_at :: "string list \<Rightarrow> nat \<Rightarrow> string result" where
  "chunk_at chunks i =
     (if i < length chunks then Inr (chunks ! i) else Inl (OutOfRange ''chunks''))"

definition location_at :: "string \<Rightarrow> int \<Rightarrow> int \<Rightarrow> SourceLocation" where
  "location_at path l c =
     \<lparr>unitDirectory = [], unitFilePath = path, directory = [], filePath = path, line = l, column = c\<rparr>"

definition decode_mutant :: "string \<Rightarrow> mutant result" where
  "decode_mutant encoding =
     (let chunks = split_nonempty encoding CHR '':'' in
      bind_result (chunk_at chunks 0) (\<lambda>mut.
      bind_result (chunk_at chunks 1) (\<lambda>loc.
      bind_result (bind_result (chunk_at chunks 2) stoi) (\<lambda>beginLine.
      bind_result (bind_result (chunk_at chunks 3) stoi) (\<lambda>beginColumn.
      bind_result (bind_result (chunk_at chunks 4) stoi) (\<lambda>endLine.
      bind_result (bind_result (chunk_at chunks 5) stoi) (\<lambda>endColumn.
      bind_result (bind_result (chunk_at chunks 6) stoi) (\<lambda>cov.
        Inr (Mutant
          (mut @ '':'' @ loc @ '':'' @ string_of_int beginLine @ '':'' @ string_of_int beginColumn)
          mut (location_at loc beginLine beginColumn) (location_at loc endLine endColumn)
          (cov \<noteq> 0))))))))))"

definition extract_section :: "string \<Rightarrow> mutant list result" where
  "extract_section content = map_result_list decode_mutant (split_nonempty content (CHR 0x00))"

text \<open>The loop over the sections of the object file, with their names and contents.\<close>

fun section_mutants :: "(string \<times> string) list \<Rightarrow> mutant list result" where
  "section_mutants [] = Inr []"
| "section_mutants ((name, content) # sections) =
     (if name = ''.mull_mutants''
      then bind_result (extract_section content) (\<lambda>ms.
             bind_result (section_mutants sections) (\<lambda>rest. Inr (ms @ rest)))
      else section_mutants sections)"

text \<open>LLVM answers with an error or a text when asked for the name or the content of a section; both
  readers make an error the empty text.\<close>

record object_section =
  section_name :: "string + string"
  section_contents_of :: "string + string"

definition getSectionName :: "object_section \<Rightarrow> string" where
  "getSectionName s = (case section_name s of Inl err \<Rightarrow> [] | Inr name \<Rightarrow> name)"

definition getSectionContent :: "object_section \<Rightarrow> string" where
  "getSectionContent s = (case section_contents_of s of Inl err \<Rightarrow> [] | Inr content \<Rightarrow> content)"

definition read_section :: "object_section \<Rightarrow> string \<times> string" where
  "read_section s = (getSectionName s, getSectionContent s)"

datatype executable_file = Unreadable string | NotAnObject string | ObjectFile "object_section list"

text \<open>Diagnostics treats an error as fatal, so the empty vector after it is never returned.\<close>

definition extractMutants :: "executable_file \<Rightarrow> mutant list diag" where
  "extractMutants file =
     (case file of
        Unreadable err \<Rightarrow> diag_error (''Cannot read executable:'' @ err)
      | NotAnObject err \<Rightarrow> diag_error (''Executable is not an object file: '' @ err)
      | ObjectFile sections \<Rightarrow>
          diag_lift (section_mutants (map read_section sections)))"

text \<open>A section whose name cannot be read is passed over; one whose content cannot be read has no mutants.\<close>

lemma unreadable_sections:
  "section_mutants ((getSectionName \<lparr>section_name = Inl err, section_contents_of = c\<rparr>, content) # ss) =
     section_mutants ss"
  "section_mutants ((n, getSectionContent \<lparr>section_name = name, section_contents_of = Inl err\<rparr>) # ss) =
     section_mutants ss"
proof -
  have "bind_result r Inr = r" for r :: "mutant list result" by (cases r) simp_all
  then show
    "section_mutants ((getSectionName \<lparr>section_name = Inl err, section_contents_of = c\<rparr>, content) # ss) =
       section_mutants ss"
    "section_mutants ((n, getSectionContent \<lparr>section_name = name, section_contents_of = Inl err\<rparr>) # ss) =
       section_mutants ss"
    by (simp_all add: getSectionName_def getSectionContent_def extract_section_def split_nonempty_def)
qed

section \<open>Splitting at delimiters\<close>

lemma split_nonempty_Nil [simp]: "split_nonempty [] d = []"
  by (simp add: split_nonempty_def)

lemma split_nonempty_delim: "split_nonempty (d # s) d = split_nonempty s d"
  using getlines_append [of d "[]" s] by (simp add: split_nonempty_def)

lemma split_nonempty_padding [simp]: "split_nonempty (replicate k d @ s) d = split_nonempty s d"
  by (induction k) (simp_all add: split_nonempty_delim)

lemma split_nonempty_step:
  "d \<notin> set xs \<Longrightarrow> xs \<noteq> [] \<Longrightarrow> split_nonempty (xs @ d # s) d = xs # split_nonempty s d"
  by (simp add: split_nonempty_def getlines_append)

lemma split_nonempty_last: "d \<notin> set xs \<Longrightarrow> xs \<noteq> [] \<Longrightarrow> split_nonempty xs d = [xs]"
  by (simp add: split_nonempty_def getlines_last)

lemma string_of_int_chars:
  "c \<in> set (string_of_int i) \<Longrightarrow> is_digit c \<or> c = CHR ''-''"
  using string_of_nat_digits by (auto simp: string_of_int_def split: if_splits)

lemma string_of_int_delims:
  "CHR '':'' \<notin> set (string_of_int i)" "CHR 0x00 \<notin> set (string_of_int i)" "string_of_int i \<noteq> []"
  using string_of_int_chars [of "CHR '':''" i] string_of_int_chars [of "CHR 0x00" i]
  by (auto simp: string_of_int_def)

lemma stoi_string_of_int:
  assumes "- (2 ^ 31) \<le> i" "i < 2 ^ 31"
  shows "stoi (string_of_int i) = Inr i"
proof (cases "i < 0")
  case False
  then show ?thesis using stoi_string_of_nat [of "nat i"] assms(2)
    by (simp add: string_of_int_nonneg nat_less_iff)
next
  case True
  let ?ds = "string_of_nat (nat (- i))"
  have tw: "takeWhile is_digit ?ds = ?ds" using string_of_nat_digits by simp
  show ?thesis
    using True assms
    by (simp add: string_of_int_def stoi_def Let_def is_space_def tw del: takeWhile_eq_all_conv)
qed

section \<open>Round trip\<close>

definition int_range :: "int \<Rightarrow> bool" where
  "int_range i \<longleftrightarrow> - (2 ^ 31) \<le> i \<and> i < 2 ^ 31"

definition clean :: "string \<Rightarrow> bool" where
  "clean s \<longleftrightarrow> s \<noteq> [] \<and> CHR '':'' \<notin> set s \<and> CHR 0x00 \<notin> set s"

text \<open>A point whose encoding can be read back: its file name has neither a colon nor a zero.\<close>

definition recordable :: "mutation_point \<Rightarrow> bool" where
  "recordable p \<longleftrightarrow>
     userIdentifier p = getUniqueIdentifier (point_mutator p) @ '':'' @ filePath (sourceLocation p) @ '':'' @
       string_of_int (line (sourceLocation p)) @ '':'' @ string_of_int (column (sourceLocation p)) \<and>
     clean (getUniqueIdentifier (point_mutator p)) \<and> clean (filePath (sourceLocation p)) \<and>
     int_range (line (sourceLocation p)) \<and> int_range (column (sourceLocation p)) \<and>
     int_range (line (endLocation p)) \<and> int_range (column (endLocation p))"

definition decoded_mutant :: "mutation_point \<Rightarrow> mutant" where
  "decoded_mutant p =
     Mutant (userIdentifier p) (getUniqueIdentifier (point_mutator p))
       (location_at (filePath (sourceLocation p)) (line (sourceLocation p)) (column (sourceLocation p)))
       (location_at (filePath (sourceLocation p)) (line (endLocation p)) (column (endLocation p)))
       (covered p)"

lemma split_mutation_encoding:
  assumes "recordable p"
  shows "split_nonempty (mutation_encoding p) CHR '':'' =
    [getUniqueIdentifier (point_mutator p), filePath (sourceLocation p),
     string_of_int (line (sourceLocation p)), string_of_int (column (sourceLocation p)),
     string_of_int (line (endLocation p)), string_of_int (column (endLocation p)),
     string_of_bool (covered p)]"
  using assms
  by (simp add: mutation_encoding_def recordable_def clean_def split_nonempty_step split_nonempty_last
      string_of_int_delims string_of_bool_def)

lemma decode_mutation_encoding:
  assumes "recordable p"
  shows "decode_mutant (mutation_encoding p) = Inr (decoded_mutant p)"
proof -
  have b: "stoi (string_of_bool (covered p)) = Inr (if covered p then 1 else 0)"
    using stoi_string_of_nat [of 1] stoi_string_of_nat [of 0]
    by (simp add: string_of_bool_def string_of_nat.simps digit_char_def)
  have r: "stoi (string_of_int i) = Inr i" if "int_range i" for i
    using that stoi_string_of_int by (simp add: int_range_def)
  show ?thesis
    using assms
    by (simp add: decode_mutant_def split_mutation_encoding [OF assms] chunk_at_def r b recordable_def
        decoded_mutant_def Let_def)
qed

lemma mutation_encoding_clean:
  assumes "recordable p"
  shows "CHR 0x00 \<notin> set (mutation_encoding p)" "mutation_encoding p \<noteq> []"
  using assms
  by (auto simp: mutation_encoding_def recordable_def clean_def string_of_int_delims string_of_bool_def)

text \<open>The contents of the section: the recorded strings in order; the linker may pad with zeros.\<close>

fun section_content :: "(mutation_point \<times> nat) list \<Rightarrow> string" where
  "section_content [] = []"
| "section_content ((p, pad) # ps) =
     mutation_encoding p @ [CHR 0x00] @ replicate pad (CHR 0x00) @ section_content ps"

lemma split_section_content:
  "list_all (\<lambda>(p, _). recordable p) ps \<Longrightarrow>
     split_nonempty (section_content ps) (CHR 0x00) = map (\<lambda>(p, _). mutation_encoding p) ps"
proof (induction ps)
  case (Cons a ps)
  obtain p pad where a: "a = (p, pad)" by (cases a)
  with Cons have "recordable p" by simp
  with Cons show ?case
    using mutation_encoding_clean [of p] by (simp add: a split_nonempty_step)
qed simp

lemma extract_sections:
  assumes "list_all (\<lambda>(p, _). recordable p) ps"
    and "list_all (\<lambda>(n, _). n \<noteq> ''.mull_mutants'') before"
    and "list_all (\<lambda>(n, _). n \<noteq> ''.mull_mutants'') after"
  shows "section_mutants (before @ (''.mull_mutants'', section_content ps) # after) =
    Inr (map (\<lambda>(p, _). decoded_mutant p) ps)"
proof -
  have skip: "section_mutants (ss @ rest) = section_mutants rest"
    if "list_all (\<lambda>(n, _). n \<noteq> ''.mull_mutants'') ss" for ss rest
    using that by (induction ss) auto
  have "map_result_list decode_mutant (map (\<lambda>(p, _). mutation_encoding p) ps) =
      Inr (map (\<lambda>(p, _). decoded_mutant p) ps)"
    using assms(1) by (induction ps) (auto simp: decode_mutation_encoding)
  then have "extract_section (section_content ps) = Inr (map (\<lambda>(p, _). decoded_mutant p) ps)"
    by (simp add: extract_section_def split_section_content [OF assms(1)])
  then show ?thesis using skip [OF assms(2)] skip [OF assms(3), of "[]"] by simp
qed

text \<open>A module's globals of one section become the contents of this section, in their order; zeros pad
  them.\<close>

definition module_section :: "(nat \<Rightarrow> nat) \<Rightarrow> string \<Rightarrow> ir_module \<Rightarrow> string" where
  "module_section pad sec m =
     concat (map (\<lambda>(k, _, _, contents). contents @ replicate (pad k) (CHR 0x00))
       (enumerate 0 (filter (\<lambda>g. fst g = sec) (used_globals m))))"

definition record_global :: "mutation_point \<Rightarrow> string \<times> string \<times> string" where
  "record_global p = (''.mull_mutants'', userIdentifier p, mutation_encoding p @ [CHR 0x00])"

lemma used_globals_record: "used_globals (recordMutation p m) = used_globals m @ [record_global p]"
  by (simp add: recordMutation_def record_global_def)

lemma used_globals_records: "used_globals (fold recordMutation ps m) = used_globals m @ map record_global ps"
  by (induction ps arbitrary: m) (simp_all add: used_globals_record)

lemma section_content_linked:
  "concat (map (\<lambda>(k, sec, name, contents). contents @ replicate (pad k) (CHR 0x00)) (enumerate n (map record_global ps))) =
     section_content (map (\<lambda>(k, p). (p, pad k)) (enumerate n ps))"
  by (induction ps arbitrary: n) (simp_all add: record_global_def)

lemma numbered_points:
  "map (\<lambda>(p, _). g p) (map (\<lambda>(k, p). (p, pad k)) (enumerate n ps)) = map g ps"
  "list_all (\<lambda>(p, _). P p) (map (\<lambda>(k, p). (p, pad k)) (enumerate n ps)) = list_all P ps"
  by (induction ps arbitrary: n) simp_all

lemma module_section_records:
  assumes "list_all (\<lambda>g. fst g \<noteq> ''.mull_mutants'') (used_globals m)"
  shows "module_section pad ''.mull_mutants'' (fold recordMutation ps m) =
    section_content (map (\<lambda>(k, p). (p, pad k)) (enumerate 0 ps))"
proof -
  have "filter (\<lambda>g. fst g = ''.mull_mutants'') (used_globals (fold recordMutation ps m)) = map record_global ps"
    using assms by (simp add: used_globals_records list_all_iff record_global_def filter_map comp_def)
  then show ?thesis by (simp only: module_section_def section_content_linked)
qed

text \<open>C7. What \<open>recordMutation\<close>, called for one point after the other, leaves in the mutants section of a
  module, the extractor reads back as exactly one mutant for each point, in order, with the point's
  identifier, mutator, begin and end location and coverage, however the linker pads the section,
  whatever other globals the module and whatever other sections the executable has. The mutator and the
  file name of a point must be non-empty and hold neither a colon nor a zero.\<close>

theorem extract_recorded_mutants:
  assumes "list_all recordable ps" "list_all (\<lambda>g. fst g \<noteq> ''.mull_mutants'') (used_globals m)"
    and "map read_section sections =
      before @ (''.mull_mutants'', module_section pad ''.mull_mutants'' (fold recordMutation ps m)) # after"
    and "list_all (\<lambda>(n, _). n \<noteq> ''.mull_mutants'') (before @ after)"
  shows "extractMutants (ObjectFile sections) d = (d, Inr (map decoded_mutant ps))"
  using extract_sections [of "map (\<lambda>(k, p). (p, pad k)) (enumerate 0 ps)" before after] assms(1,4)
  by (simp only: extractMutants_def executable_file.case st_lift_def assms(3) module_section_records [OF assms(2)]
      numbered_points list_all_append)

text \<open>The points the constructor makes can be recorded, when their end location was set.\<close>

lemma recordable_MutationPoint:
  assumes "clean (getUniqueIdentifier mutator)"
    and "clean (filePath (locationFromInstruction is_absolute i))" "int_range l" "int_range c"
  shows "recordable (setEndLocation l c (MutationPoint is_absolute mutator low bc m p i))"
proof -
  have "int_range (sint (w :: 32 word))" for w
    using sint_greater_eq [of w] sint_less [of w] by (simp add: int_range_def)
  moreover have "int_range 0" by (simp add: int_range_def)
  ultimately show ?thesis
    using assms
    by (auto simp: recordable_def setEndLocation_def MutationPoint_def Let_def locationFromInstruction_def
        nullSourceLocation_def split: option.splits prod.splits)
qed

definition sample_point :: mutation_point where
  "sample_point = setEndLocation 7 8 (MutationPoint (\<lambda>_. False) mk_AddToSub (Some (irm ''AddToSub'' [])) 0
     sample_module \<lparr>in_function = ''f'', in_block = ''entry'', at_inst = ''a''\<rparr>
     (sample_inst ''a'' (BinaryOp ''add'' (ArgRef 0) (ArgRef 1)) 7))"

lemma sample_recordable: "recordable sample_point"
  unfolding sample_point_def
  by (rule recordable_MutationPoint)
    (simp_all add: clean_def int_range_def mk_AddToSub_def TrivialCXXMutator_def AddToSub_ID_def
      locationFromInstruction_def sample_defs absoluteFilePath_def location_unit_def Let_def)

lemma extract_recorded_mutants_witness:
  "extractMutants (ObjectFile
     [\<lparr>section_name = Inr ''.text'', section_contents_of = Inl ''truncated''\<rparr>,
      \<lparr>section_name = Inr ''.mull_mutants'', section_contents_of =
         Inr (module_section (\<lambda>k. 3) ''.mull_mutants''
           (recordMutation (setCovered False sample_point) (recordMutation sample_point
             (sample_module\<lparr>used_globals := [(''.data'', ''x'', ''abc'')]\<rparr>))))\<rparr>,
      \<lparr>section_name = Inl ''no string table'', section_contents_of = Inr ''abc''\<rparr>]) new_diagnostics =
     (new_diagnostics, Inr [decoded_mutant sample_point, decoded_mutant (setCovered False sample_point)])"
proof -
  have "recordable (setCovered False sample_point)"
    using sample_recordable by (simp add: recordable_def setCovered_def)
  then show ?thesis
    using extract_recorded_mutants [of "[sample_point, setCovered False sample_point]"
        "sample_module\<lparr>used_globals := [(''.data'', ''x'', ''abc'')]\<rparr>" _
        "[(''.text'', [])]" "\<lambda>k. 3" "[([], ''abc'')]" new_diagnostics] sample_recordable
    by (simp add: read_section_def getSectionName_def getSectionContent_def)
qed

text \<open>A file name with a colon cannot be read back: when what follows its only colon does not
  begin like a number, the conversion of the begin line throws \<open>std::invalid_argument\<close>, which
  nothing catches.\<close>

lemma colon_in_path_not_decoded:
  assumes "userIdentifier p = getUniqueIdentifier (point_mutator p) @ '':'' @ (dir @ '':'' @ rest) @ '':'' @
      string_of_int (line (sourceLocation p)) @ '':'' @ string_of_int (column (sourceLocation p))"
    and "clean (getUniqueIdentifier (point_mutator p))" "clean dir" "clean rest"
    and "\<not> is_digit (hd rest)" "\<not> is_space (hd rest)" "hd rest \<noteq> CHR ''-''" "hd rest \<noteq> CHR ''+''"
  shows "decode_mutant (mutation_encoding p) = Inl (InvalidArgument ''stoi'')"
proof -
  have "stoi rest = Inl (InvalidArgument ''stoi'')"
    using assms(4-8) by (cases rest) (auto simp: stoi_def Let_def clean_def)
  moreover have "split_nonempty (mutation_encoding p) CHR '':'' =
    getUniqueIdentifier (point_mutator p) # dir # rest #
     split_nonempty (string_of_int (line (sourceLocation p)) @ '':'' @
       string_of_int (column (sourceLocation p)) @ '':'' @ string_of_int (line (endLocation p)) @ '':'' @
     string_of_int (column (endLocation p)) @ '':'' @ string_of_bool (covered p)) CHR '':''"
    using assms(1-4) by (simp add: mutation_encoding_def clean_def split_nonempty_step)
  ultimately show ?thesis by (simp add: decode_mutant_def chunk_at_def Let_def)
qed

lemma colon_in_path_not_decoded_witness:
  "decode_mutant (mutation_encoding (sample_point\<lparr>userIdentifier := ''cxx_add_to_sub:C:/a.cpp:7:3''\<rparr>)) =
     Inl (InvalidArgument ''stoi'')"
  by (rule colon_in_path_not_decoded [of _ "''C''" "''/a.cpp''"])
    (simp_all add: sample_point_def setEndLocation_def MutationPoint_def Let_def mk_AddToSub_def
      TrivialCXXMutator_def AddToSub_ID_def clean_def is_digit_def is_space_def sample_defs
      locationFromInstruction_def location_unit_def absoluteFilePath_def string_of_int_def
      string_of_nat.simps digit_char_def)

end
