(* ===== verification/Trampolines.thy ===== *)
theory Trampolines
  imports MutationPoints
begin

text \<open>
  How mutants get into the program: \<open>lib/Parallelization/Tasks/MutantPreparationTasks.cpp\<close> and
  \<open>ApplyMutationTask.cpp\<close>. Every covered point gets a clone of its function; a function with a
  covered point is copied to \<open>mull_<name>_original\<close> and its body replaced by a trampoline that asks the
  environment which clone to call; then each mutation is applied to its clone. The names LLVM gives to
  functions and blocks are the parameter \<open>un\<close>: the requested name, or one with a suffix when it is
  taken.
\<close>

section \<open>Modules by name\<close>

definition names :: "ir_module \<Rightarrow> string list" where
  "names m = map fname (function_list m)"

definition add_function :: "ir_function \<Rightarrow> ir_module \<Rightarrow> ir_module" where
  "add_function f m = m\<lparr>function_list := function_list m @ [f]\<rparr>"

definition update_function :: "string \<Rightarrow> (ir_function \<Rightarrow> ir_function) \<Rightarrow> ir_module \<Rightarrow> ir_module" where
  "update_function n u m =
     m\<lparr>function_list := map (\<lambda>f. if fname f = n then u f else f) (function_list m)\<rparr>"

text \<open>What the code relies on in LLVM's symbol tables.\<close>

definition unique_names :: "(string list \<Rightarrow> string \<Rightarrow> string) \<Rightarrow> bool" where
  "unique_names un \<longleftrightarrow>
     (\<forall>used n. un used n \<notin> set used \<and> (n \<notin> set used \<longrightarrow> un used n = n) \<and> (\<exists>s. un used n = n @ s))"

lemma get_function_None: "get_function m n = None \<longleftrightarrow> n \<notin> set (names m)"
  by (auto simp: get_function_def names_def find_None_iff)

lemma get_function_name: "get_function m n = Some f \<Longrightarrow> fname f = n"
  by (auto simp: get_function_def find_Some_iff)

lemma names_add [simp]: "names (add_function f m) = names m @ [fname f]"
  by (simp add: names_def add_function_def)

lemma get_add_function:
  "fname f \<notin> set (names m) \<Longrightarrow>
     get_function (add_function f m) n = (if n = fname f then Some f else get_function m n)"
proof -
  assume new: "fname f \<notin> set (names m)"
  have ap: "find P (xs @ [y]) = (case find P xs of Some x \<Rightarrow> Some x | None \<Rightarrow> if P y then Some y else None)"
    for P :: "ir_function \<Rightarrow> bool" and xs y
    by (induction xs) auto
  have "get_function (add_function f m) n =
    (case get_function m n of Some x \<Rightarrow> Some x | None \<Rightarrow> if fname f = n then Some f else None)"
    by (simp add: get_function_def add_function_def ap)
  moreover have "get_function m (fname f) = None" using new by (simp add: get_function_None)
  ultimately show ?thesis by (auto split: option.split)
qed

lemma names_update [simp]:
  assumes "\<And>f. fname (u f) = fname f"
  shows "names (update_function n u m) = names m"
  by (simp add: names_def update_function_def assms)

lemma get_update_function:
  assumes "\<And>f. fname (u f) = fname f"
  shows "get_function (update_function n u m) k =
    (if k = n then map_option u (get_function m k) else get_function m k)"
proof -
  have "find (\<lambda>f. fname f = k) (map (\<lambda>f. if fname f = n then u f else f) fs) =
    (if k = n then map_option u (find (\<lambda>f. fname f = k) fs) else find (\<lambda>f. fname f = k) fs)" for fs
    by (induction fs) (auto simp: assms)
  then show ?thesis by (simp add: get_function_def update_function_def)
qed

section \<open>Cloning\<close>

definition CloneFunction :: "ir_function \<Rightarrow> string \<Rightarrow> ir_function" where
  "CloneFunction f n = f\<lparr>fname := n\<rparr>"

type_synonym name_supply = "string list \<Rightarrow> string \<Rightarrow> string"

text \<open>The body of the inner loop for one pointer; the store changes at the point only.\<close>

definition clone_for_point ::
  "name_supply \<Rightarrow> string \<Rightarrow> nat \<Rightarrow> ir_module \<times> point_store \<Rightarrow> ir_module \<times> point_store" where
  "clone_for_point un original i s =
     (let (m, store) = s in
      if \<not> covered (store ! i) then (m, store)
      else
        (case get_function m original of
           None \<Rightarrow> (m, store)
         | Some f \<Rightarrow>
             (let name = un (names m) (getMutatedFunctionName (store ! i));
                  clone = (CloneFunction f name)\<lparr>internal_linkage := True\<rparr>
              in (add_function clone m, store[i := (store ! i)\<lparr>mutatedFunction := Some name\<rparr>]))))"

definition cloneFunctions ::
  "name_supply \<Rightarrow> (string \<times> nat list) list \<Rightarrow> ir_module \<times> point_store \<Rightarrow> ir_module \<times> point_store" where
  "cloneFunctions un pairs s =
     foldl (\<lambda>s (original, ps). foldl (\<lambda>s i. clone_for_point un original i s) s ps) s pairs"

section \<open>Removing the originals\<close>

fun first_covered :: "point_store \<Rightarrow> nat list \<Rightarrow> nat option" where
  "first_covered store [] = None"
| "first_covered store (i # is) = (if covered (store ! i) then Some i else first_covered store is)"

text \<open>\<open>llvm::Function::dropAllReferences\<close> removes the body, and the metadata with the debug information.\<close>

definition dropAllReferences :: "ir_function \<Rightarrow> ir_function" where
  "dropAllReferences f = f\<lparr>blocks := [], subprogram := None\<rparr>"

lemma dropAllReferences_fields [simp]:
  "fname (dropAllReferences f) = fname f" "blocks (dropAllReferences f) = []"
  "param_count (dropAllReferences f) = param_count f" "returns_void (dropAllReferences f) = returns_void f"
  by (simp_all add: dropAllReferences_def)

definition delete_function ::
  "name_supply \<Rightarrow> point_store \<Rightarrow> ir_module \<Rightarrow> string \<times> nat list \<Rightarrow> ir_module" where
  "delete_function un store m pair =
     (let (original, ps) = pair in
      case first_covered store ps of
        None \<Rightarrow> m
      | Some i \<Rightarrow>
          (case get_function m original of
             None \<Rightarrow> m
           | Some f \<Rightarrow>
               update_function original dropAllReferences
                 (add_function (CloneFunction f (un (names m) (getOriginalFunctionName (store ! i)))) m)))"

definition deleteFunctions ::
  "name_supply \<Rightarrow> (string \<times> nat list) list \<Rightarrow> point_store \<Rightarrow> ir_module \<Rightarrow> ir_module" where
  "deleteFunctions un pairs store m = foldl (delete_function un store) m pairs"

section \<open>Trampolines\<close>

definition plain :: "string \<Rightarrow> ir_op \<Rightarrow> instruction" where
  "plain r x = \<lparr>iref = r, opcode = x, dbg = None\<rparr>"

text \<open>
  The blocks made for one covered point. Instruction references stand for pointers, so those of a
  check carry its block's label.
\<close>

definition check_block :: "string \<Rightarrow> string \<Rightarrow> string \<Rightarrow> string \<Rightarrow> basic_block" where
  "check_block check mutation head ident =
     \<lparr>label = check, insts =
        [plain (check @ ''.check_mutation'') (Call (FunctionRef ''getenv'') [GlobalString ident]),
         plain (check @ ''.is_enabled'')
           (ICmpNE (InstRef (check @ ''.check_mutation'')) NullPointerValue),
         plain (check @ ''.br'') (CondBr mutation head (InstRef (check @ ''.is_enabled'')))]\<rparr>"

definition store_block :: "string \<Rightarrow> string \<Rightarrow> string \<Rightarrow> basic_block" where
  "store_block lbl target call =
     \<lparr>label = lbl, insts =
        [plain (lbl @ ''.store'') (Store (FunctionRef target) (InstRef ''trampoline'')),
         plain (lbl @ ''.br'') (Br call)]\<rparr>"

text \<open>The loop over the points; its state is the head of the chain and the labels in use.\<close>

fun trampoline_checks ::
  "name_supply \<Rightarrow> point_store \<Rightarrow> string \<Rightarrow> nat list \<Rightarrow> string \<Rightarrow> string list \<Rightarrow> string \<times> basic_block list" where
  "trampoline_checks un store call [] head used = (head, [])"
| "trampoline_checks un store call (i # is) head used =
     (if \<not> covered (store ! i) then trampoline_checks un store call is head used
      else
        (let p = store ! i;
             check = un used (userIdentifier p @ ''_check'');
             mutation = un (used @ [check]) (userIdentifier p);
             target = (case mutatedFunction p of Some n \<Rightarrow> n | None \<Rightarrow> []);
             (head', bs) = trampoline_checks un store call is check (used @ [check, mutation])
         in (head', check_block check mutation head (userIdentifier p) #
                    store_block mutation target call # bs)))"

definition trampoline_call_block :: "string \<Rightarrow> ir_function \<Rightarrow> basic_block" where
  "trampoline_call_block call f =
     \<lparr>label = call, insts =
        [plain ''trampoline_pointer'' (Load (InstRef ''trampoline'')),
         plain ''trampoline_result'' (Call (InstRef ''trampoline_pointer'') (map ArgRef [0..<param_count f])),
         plain ''trampoline_ret'' (Ret (if returns_void f then None else Some (InstRef ''trampoline_result'')))]\<rparr>"

text \<open>The blocks are listed in the order they are created; the entry block's branch is known last.\<close>

definition trampoline_blocks ::
  "name_supply \<Rightarrow> point_store \<Rightarrow> string \<Rightarrow> nat list \<Rightarrow> ir_function \<Rightarrow> basic_block list" where
  "trampoline_blocks un store original_copy ps f =
     (let used = map label (blocks f);
          entry = un used ''entry'';
          original = un (used @ [entry]) ''original'';
          call = un (used @ [entry, original]) ''trampoline_call'';
          (head, checks) =
            trampoline_checks un store call ps original (used @ [entry, original, call])
      in blocks f @
         [\<lparr>label = entry, insts = [plain ''trampoline'' Alloca, plain ''entry.br'' (Br head)]\<rparr>,
          store_block original original_copy call, trampoline_call_block call f] @ checks)"

definition insert_trampoline ::
  "name_supply \<Rightarrow> point_store \<Rightarrow> ir_module \<Rightarrow> string \<times> nat list \<Rightarrow> ir_module" where
  "insert_trampoline un store m pair =
     (let (original, ps) = pair in
      case first_covered store ps of
        None \<Rightarrow> m
      | Some _ \<Rightarrow>
          update_function original
            (\<lambda>f. f\<lparr>blocks := trampoline_blocks un store (getOriginalFunctionName (store ! hd ps)) ps f\<rparr>) m)"

text \<open>\<open>llvm_compat::getOrInsertFunction\<close>: a module that has no function of the name gets a declaration. The
  module declares \<open>getenv\<close> even when no function of it gets a trampoline.\<close>

definition getOrInsertFunction :: "string \<Rightarrow> nat \<Rightarrow> bool \<Rightarrow> ir_module \<Rightarrow> ir_module" where
  "getOrInsertFunction n params void m =
     (if n \<in> set (names m) then m
      else add_function \<lparr>fname = n, blocks = [], subprogram = None, param_count = params, returns_void = void,
             internal_linkage = False\<rparr> m)"

definition insertTrampolines ::
  "name_supply \<Rightarrow> (string \<times> nat list) list \<Rightarrow> point_store \<Rightarrow> ir_module \<Rightarrow> ir_module" where
  "insertTrampolines un pairs store m =
     foldl (insert_trampoline un store) (getOrInsertFunction ''getenv'' 1 False m) pairs"

section \<open>Applying the mutations\<close>

text \<open>
  \<open>applyM\<close> is the virtual call \<open>mutator->applyMutation(mutatedFunction, address, irMutator)\<close>.
\<close>

type_synonym apply_mutation =
  "mutator \<Rightarrow> mutation_address \<Rightarrow> irm_mutation option \<Rightarrow> ir_function \<Rightarrow> ir_function result"

definition applyMutation :: "apply_mutation \<Rightarrow> mutation_point \<Rightarrow> ir_module \<Rightarrow> ir_module result" where
  "applyMutation applyM p m =
     (case mutatedFunction p of
        None \<Rightarrow> Inl (AssertFailed ''mutatedFunction != nullptr'')
      | Some n \<Rightarrow>
          (case get_function m n of
             None \<Rightarrow> Inl (NullPointer n)
           | Some f \<Rightarrow> bind_result (applyM (point_mutator p) (address p) (irMutator p) f) (\<lambda>g.
               Inr (update_function n (\<lambda>f. g\<lparr>fname := fname f\<rparr>) m))))"

fun applyMutations :: "apply_mutation \<Rightarrow> mutation_point list \<Rightarrow> ir_module \<Rightarrow> ir_module result" where
  "applyMutations applyM [] m = Inr m"
| "applyMutations applyM (p # ps) m =
     (let m1 = recordMutation p m in
      if covered p then bind_result (applyMutation applyM p m1) (applyMutations applyM ps)
      else applyMutations applyM ps m1)"

text \<open>The four steps on one bitcode; \<open>order\<close> is the order of its points in the driver's vector.\<close>

definition prepare_bitcode ::
  "name_supply \<Rightarrow> apply_mutation \<Rightarrow> (string \<times> nat list) list \<Rightarrow> nat list \<Rightarrow> ir_module \<times> point_store \<Rightarrow>
     (ir_module \<times> point_store) result" where
  "prepare_bitcode un applyM pairs order s =
     (let (m1, store1) = cloneFunctions un pairs s;
          m2 = deleteFunctions un pairs store1 m1;
          m3 = insertTrampolines un pairs store1 m2
      in bind_result (applyMutations applyM (map (\<lambda>i. store1 ! i) order) m3) (\<lambda>m. Inr (m, store1)))"

section \<open>What a trampoline does when it runs\<close>

text \<open>
  A small interpreter for the instructions a trampoline is made of. \<open>env\<close> says which environment
  variables are set, and \<open>getenv\<close> is the C library's; a call of any other function is recorded, and its
  result is a value of its own.
\<close>

datatype rt_value =
    RtNull
  | RtString
  | RtBool bool
  | RtFun string
  | RtCell string
  | RtArg nat
  | RtResult string "rt_value option list"

record rt_state =
  regs :: "string \<Rightarrow> rt_value option"
  cells :: "string \<Rightarrow> rt_value option"
  calls :: "(string \<times> rt_value option list) list"

fun rt_eval :: "rt_state \<Rightarrow> ir_value \<Rightarrow> rt_value option" where
  "rt_eval s (InstRef r) = regs s r"
| "rt_eval s (ArgRef n) = Some (RtArg n)"
| "rt_eval s (FunctionRef f) = Some (RtFun f)"
| "rt_eval s NullPointerValue = Some RtNull"
| "rt_eval s (GlobalString _) = Some RtString"
| "rt_eval s _ = None"

definition rt_set :: "string \<Rightarrow> rt_value option \<Rightarrow> rt_state \<Rightarrow> rt_state" where
  "rt_set r v s = s\<lparr>regs := (regs s)(r := v)\<rparr>"

datatype rt_exit = Goto string | Returned "rt_value option"

fun rt_inst :: "(string \<Rightarrow> bool) \<Rightarrow> instruction \<Rightarrow> rt_state \<Rightarrow> (rt_state \<times> rt_exit option) option" where
  "rt_inst env i s =
     (case opcode i of
        Alloca \<Rightarrow> Some (rt_set (iref i) (Some (RtCell (iref i))) s, None)
      | Store v p \<Rightarrow>
          (case rt_eval s p of
             Some (RtCell c) \<Rightarrow> Some (s\<lparr>cells := (cells s)(c := rt_eval s v)\<rparr>, None)
           | _ \<Rightarrow> None)
      | Load p \<Rightarrow>
          (case rt_eval s p of
             Some (RtCell c) \<Rightarrow> Some (rt_set (iref i) (cells s c) s, None)
           | _ \<Rightarrow> None)
      | ICmpNE a b \<Rightarrow>
          (case (rt_eval s a, rt_eval s b) of
             (Some x, Some y) \<Rightarrow> Some (rt_set (iref i) (Some (RtBool (x \<noteq> y))) s, None)
           | _ \<Rightarrow> None)
      | Call f args \<Rightarrow>
          (case (f, args) of
             (FunctionRef g, [GlobalString v]) \<Rightarrow>
               (if g = ''getenv''
                then Some (rt_set (iref i) (Some (if env v then RtString else RtNull)) s, None)
                else None)
           | _ \<Rightarrow>
               (case rt_eval s f of
                  Some (RtFun g) \<Rightarrow>
                    Some (rt_set (iref i) (Some (RtResult g (map (rt_eval s) args)))
                            (s\<lparr>calls := calls s @ [(g, map (rt_eval s) args)]\<rparr>), None)
                | _ \<Rightarrow> None))
      | Br l \<Rightarrow> Some (s, Some (Goto l))
      | CondBr t e c \<Rightarrow>
          (case rt_eval s c of Some (RtBool b) \<Rightarrow> Some (s, Some (Goto (if b then t else e))) | _ \<Rightarrow> None)
      | Ret v \<Rightarrow> Some (s, Some (Returned (case v of None \<Rightarrow> None | Some x \<Rightarrow> rt_eval s x)))
      | _ \<Rightarrow> None)"

fun rt_insts :: "(string \<Rightarrow> bool) \<Rightarrow> instruction list \<Rightarrow> rt_state \<Rightarrow> (rt_state \<times> rt_exit) option" where
  "rt_insts env [] s = None"
| "rt_insts env (i # is) s =
     (case rt_inst env i s of
        None \<Rightarrow> None
      | Some (s', None) \<Rightarrow> rt_insts env is s'
      | Some (s', Some e) \<Rightarrow> Some (s', e))"

text \<open>Running from a block, with fuel for the number of blocks entered.\<close>

fun rt_run ::
  "(string \<Rightarrow> bool) \<Rightarrow> basic_block list \<Rightarrow> nat \<Rightarrow> string \<Rightarrow> rt_state \<Rightarrow>
     ((string \<times> rt_value option list) list \<times> rt_value option) option" where
  "rt_run env bs 0 l s = None"
| "rt_run env bs (Suc n) l s =
     (case find (\<lambda>b. label b = l) bs of
        None \<Rightarrow> None
      | Some b \<Rightarrow>
          (case rt_insts env (insts b) s of
             None \<Rightarrow> None
           | Some (s', Goto l') \<Rightarrow> rt_run env bs n l' s'
           | Some (s', Returned v) \<Rightarrow> Some (calls s', v)))"

definition rt_start :: rt_state where
  "rt_start = \<lparr>regs = (\<lambda>_. None), cells = (\<lambda>_. None), calls = []\<rparr>"

definition run_function ::
  "(string \<Rightarrow> bool) \<Rightarrow> nat \<Rightarrow> ir_function \<Rightarrow> ((string \<times> rt_value option list) list \<times> rt_value option) option" where
  "run_function env n f = (case blocks f of [] \<Rightarrow> None | b # _ \<Rightarrow> rt_run env (blocks f) n (label b) rt_start)"

text \<open>The clone the environment selects: the last covered point whose variable is set wins.\<close>

fun selected_target :: "(string \<Rightarrow> bool) \<Rightarrow> point_store \<Rightarrow> nat list \<Rightarrow> string \<Rightarrow> string" where
  "selected_target env store [] t = t"
| "selected_target env store (i # is) t =
     selected_target env store is
       (if covered (store ! i) \<and> env (userIdentifier (store ! i))
        then (case mutatedFunction (store ! i) of Some n \<Rightarrow> n | None \<Rightarrow> []) else t)"


subsection \<open>Labels\<close>

lemma block_labels [simp]:
  "label (check_block c m h ident) = c" "label (store_block l t call) = l"
  "label (trampoline_call_block call f) = call"
  by (simp_all add: check_block_def store_block_def trampoline_call_block_def)

lemma unique_names_fresh: "unique_names un \<Longrightarrow> un used n \<notin> set used"
  by (simp add: unique_names_def)

lemma disjoint_append2: "A \<inter> set (u @ [a, b]) = {} \<Longrightarrow> a \<notin> A \<and> b \<notin> A \<and> A \<inter> set u = {}"
  by auto

lemma trampoline_checks_labels:
  assumes "unique_names un" "trampoline_checks un store call ps head used = (head', bs)"
  shows "distinct (map label bs) \<and> set (map label bs) \<inter> set used = {}"
  using assms(2)
proof (induction ps arbitrary: head used head' bs)
  case (Cons i "is")
  show ?case
  proof (cases "covered (store ! i)")
    case False
    with Cons show ?thesis by auto
  next
    case True
    let ?c = "un used (userIdentifier (store ! i) @ ''_check'')"
    let ?m = "un (used @ [?c]) (userIdentifier (store ! i))"
    obtain h b where r: "trampoline_checks un store call is ?c (used @ [?c, ?m]) = (h, b)"
      by (cases "trampoline_checks un store call is ?c (used @ [?c, ?m])")
    have fr: "?c \<notin> set used" "?m \<notin> set (used @ [?c])" using unique_names_fresh [OF assms(1)] by blast+
    have bs: "bs = check_block ?c ?m head (userIdentifier (store ! i)) #
        store_block ?m (case mutatedFunction (store ! i) of Some n \<Rightarrow> n | None \<Rightarrow> []) call # b"
      using Cons.prems True r by (simp add: Let_def)
    from Cons.IH [OF r] have d: "distinct (map label b)" and
      n: "set (map label b) \<inter> set (used @ [?c, ?m]) = {}" by blast+
    have "?c \<notin> set (map label b)" "?m \<notin> set (map label b)" "set (map label b) \<inter> set used = {}"
      using disjoint_append2 [OF n] by blast+
    then show ?thesis using d fr by (auto simp: bs)
  qed
qed simp

text \<open>\<open>reaches bs l out\<close>: from block \<open>l\<close>, once the trampoline's cell exists, running ends with \<open>out\<close>.\<close>

definition reaches ::
  "(string \<Rightarrow> bool) \<Rightarrow> basic_block list \<Rightarrow> string \<Rightarrow> (string \<times> rt_value option list) list \<times> rt_value option \<Rightarrow> bool" where
  "reaches env bs l out \<longleftrightarrow>
     (\<exists>n0. \<forall>n \<ge> n0. \<forall>s. regs s ''trampoline'' = Some (RtCell ''trampoline'') \<longrightarrow> calls s = [] \<longrightarrow>
        rt_run env bs n l s = Some out)"

definition trampoline_result :: "ir_function \<Rightarrow> string \<Rightarrow> (string \<times> rt_value option list) list \<times> rt_value option" where
  "trampoline_result f t =
     (let args = map (\<lambda>n. Some (RtArg n)) [0..<param_count f]
      in ([(t, args)], if returns_void f then None else Some (RtResult t args)))"

lemma insts_store_block:
  assumes "regs s ''trampoline'' = Some (RtCell ''trampoline'')"
  shows "rt_insts env (insts (store_block l t call)) s =
    Some (s\<lparr>cells := (cells s)(''trampoline'' \<mapsto> RtFun t)\<rparr>, Goto call)"
  using assms by (simp add: store_block_def plain_def)

lemma insts_call_block:
  assumes "regs s ''trampoline'' = Some (RtCell ''trampoline'')" "cells s ''trampoline'' = Some (RtFun t)"
    and "calls s = []"
  shows "\<exists>s'. rt_insts env (insts (trampoline_call_block call f)) s =
      Some (s', Returned (snd (trampoline_result f t))) \<and> calls s' = fst (trampoline_result f t)"
  using assms
  by (simp add: trampoline_call_block_def plain_def rt_set_def trampoline_result_def Let_def comp_def)

lemma reaches_store_block:
  assumes "distinct (map label bs)" "store_block l t call \<in> set bs" "trampoline_call_block call f \<in> set bs"
  shows "reaches env bs l (trampoline_result f t)"
proof -
  have f1: "find (\<lambda>b. label b = l) bs = Some (store_block l t call)"
    using find_by_key [OF assms(1,2)] by (simp add: store_block_def)
  have f2: "find (\<lambda>b. label b = call) bs = Some (trampoline_call_block call f)"
    using find_by_key [OF assms(1,3)] by (simp add: trampoline_call_block_def)
  have "rt_run env bs (Suc (Suc n)) l s = Some (trampoline_result f t)"
    if s: "regs s ''trampoline'' = Some (RtCell ''trampoline'')" "calls s = []" for n s
  proof -
    let ?s = "s\<lparr>cells := (cells s)(''trampoline'' \<mapsto> RtFun t)\<rparr>"
    have "rt_run env bs (Suc (Suc n)) l s = rt_run env bs (Suc n) call ?s"
      by (subst rt_run.simps(2)) (simp only: f1 option.case insts_store_block [OF s(1)] prod.case rt_exit.case)
    also have "\<dots> = Some (trampoline_result f t)"
    proof -
      obtain s' where s': "rt_insts env (insts (trampoline_call_block call f)) ?s =
          Some (s', Returned (snd (trampoline_result f t)))" "calls s' = fst (trampoline_result f t)"
        using insts_call_block [of ?s t env call f] s by auto
      show ?thesis
        by (subst rt_run.simps(2)) (simp only: f2 option.case s' prod.case rt_exit.case prod.collapse)
    qed
    finally show ?thesis .
  qed
  note step = this
  show ?thesis unfolding reaches_def
  proof (intro exI [of _ 2] allI impI)
    fix n :: nat and s :: rt_state
    assume n: "2 \<le> n" and s: "regs s ''trampoline'' = Some (RtCell ''trampoline'')" "calls s = []"
    obtain k where "n = Suc (Suc k)" using n by (metis Suc_le_D numeral_2_eq_2 Suc_le_mono)
    with step [OF s] show "rt_run env bs n l s = Some (trampoline_result f t)" by simp
  qed
qed


lemma reaches_check_block:
  assumes d: "distinct (map label bs)"
    and "check_block c m head ident \<in> set bs" "store_block m t call \<in> set bs"
    and "trampoline_call_block call f \<in> set bs"
    and "reaches env bs head (trampoline_result f t0)"
  shows "reaches env bs c (trampoline_result f (if env ident then t else t0))"
proof -
  have f1: "find (\<lambda>b. label b = c) bs = Some (check_block c m head ident)"
    using find_by_key [OF d assms(2)] by (simp add: check_block_def)
  have ne: "c @ ''.check_mutation'' \<noteq> ''trampoline''" "c @ ''.is_enabled'' \<noteq> ''trampoline''"
    by (rule notI, drule arg_cong [where f = last], simp)+
  obtain n1 where n1: "\<And>n s. n \<ge> n1 \<Longrightarrow> regs s ''trampoline'' = Some (RtCell ''trampoline'') \<Longrightarrow>
      calls s = [] \<Longrightarrow> rt_run env bs n m s = Some (trampoline_result f t)"
    using reaches_store_block [OF d assms(3,4)] unfolding reaches_def by blast
  obtain n2 where n2: "\<And>n s. n \<ge> n2 \<Longrightarrow> regs s ''trampoline'' = Some (RtCell ''trampoline'') \<Longrightarrow>
      calls s = [] \<Longrightarrow> rt_run env bs n head s = Some (trampoline_result f t0)"
    using assms(5) unfolding reaches_def by blast
  have "rt_run env bs n c s = Some (trampoline_result f (if env ident then t else t0))"
    if n: "n \<ge> Suc (max n1 n2)" and s: "regs s ''trampoline'' = Some (RtCell ''trampoline'')" "calls s = []"
    for n s
  proof -
    obtain k where k: "n = Suc k" "k \<ge> n1" "k \<ge> n2" using n by (cases n) auto
    show ?thesis
      using s ne by (simp add: k(1) f1 check_block_def plain_def rt_set_def n1 [OF k(2)] n2 [OF k(3)])
  qed
  then show ?thesis unfolding reaches_def by blast
qed

lemma trampoline_chain:
  assumes "unique_names un" "trampoline_checks un store call ps head used = (head', new)"
    and "distinct (map label bs)" "set new \<subseteq> set bs" "trampoline_call_block call f \<in> set bs"
    and "reaches env bs head (trampoline_result f t)"
  shows "reaches env bs head' (trampoline_result f (selected_target env store ps t))"
  using assms(2,4,6)
proof (induction ps arbitrary: head used head' new t)
  case (Cons i "is")
  show ?case
  proof (cases "covered (store ! i)")
    case False
    with Cons show ?thesis by auto
  next
    case True
    let ?p = "store ! i"
    let ?c = "un used (userIdentifier ?p @ ''_check'')"
    let ?m = "un (used @ [?c]) (userIdentifier ?p)"
    let ?t = "case mutatedFunction ?p of Some n \<Rightarrow> n | None \<Rightarrow> []"
    obtain h b where r: "trampoline_checks un store call is ?c (used @ [?c, ?m]) = (h, b)"
      by (cases "trampoline_checks un store call is ?c (used @ [?c, ?m])")
    have new: "head' = h" "new = check_block ?c ?m head (userIdentifier ?p) # store_block ?m ?t call # b"
      using Cons.prems(1) True r by (auto simp: Let_def)
    have "reaches env bs ?c (trampoline_result f (if env (userIdentifier ?p) then ?t else t))"
      by (rule reaches_check_block [OF assms(3) _ _ assms(5) Cons.prems(3)])
        (use Cons.prems(2) new(2) in auto)
    from Cons.IH [OF r _ this] Cons.prems(2) new True show ?thesis by simp
  qed
qed simp

lemma run_trampoline:
  assumes "unique_names un" "blocks f = []"
  shows "\<exists>n0. \<forall>n \<ge> n0. run_function env n (f\<lparr>blocks := trampoline_blocks un store copy ps f\<rparr>) =
    Some (trampoline_result f (selected_target env store ps copy))"
proof -
  let ?e = "un [] ''entry''"
  let ?o = "un [?e] ''original''"
  let ?c = "un [?e, ?o] ''trampoline_call''"
  obtain h new where r: "trampoline_checks un store ?c ps ?o [?e, ?o, ?c] = (h, new)"
    by (cases "trampoline_checks un store ?c ps ?o [?e, ?o, ?c]")
  let ?entry = "\<lparr>label = ?e, insts = [plain ''trampoline'' Alloca, plain ''entry.br'' (Br h)]\<rparr>"
  let ?bs = "[?entry, store_block ?o copy ?c, trampoline_call_block ?c f] @ new"
  have bs: "trampoline_blocks un store copy ps f = ?bs"
    using assms(2) r by (simp add: trampoline_blocks_def Let_def)
  have fr: "?o \<notin> set [?e]" "?c \<notin> set [?e, ?o]" using unique_names_fresh [OF assms(1)] by blast+
  have d: "distinct (map label ?bs)"
    using trampoline_checks_labels [OF assms(1) r] fr
    by (auto simp: store_block_def trampoline_call_block_def disjoint_iff)
  have "reaches env ?bs ?o (trampoline_result f copy)"
    by (rule reaches_store_block [OF d]) auto
  then have "reaches env ?bs h (trampoline_result f (selected_target env store ps copy))"
    by (intro trampoline_chain [OF assms(1) r d]) auto
  then obtain n0 where n0: "\<And>n s. n \<ge> n0 \<Longrightarrow> regs s ''trampoline'' = Some (RtCell ''trampoline'') \<Longrightarrow>
      calls s = [] \<Longrightarrow>
      rt_run env ?bs n h s = Some (trampoline_result f (selected_target env store ps copy))"
    unfolding reaches_def by blast
  have "rt_run env ?bs n ?e rt_start = Some (trampoline_result f (selected_target env store ps copy))"
    if n: "n \<ge> Suc n0" for n
  proof -
    obtain k where k: "n = Suc k" "k \<ge> n0" using n by (cases n) auto
    let ?s = "rt_set ''trampoline'' (Some (RtCell ''trampoline'')) rt_start"
    have "rt_run env ?bs n ?e rt_start = rt_run env ?bs k h ?s"
      by (simp add: k(1) plain_def rt_set_def rt_start_def)
    also have "\<dots> = Some (trampoline_result f (selected_target env store ps copy))"
      by (rule n0 [OF k(2)]) (simp_all add: rt_set_def rt_start_def)
    finally show ?thesis .
  qed
  then show ?thesis by (auto simp: run_function_def bs)
qed


section \<open>What each step does to the module\<close>

subsection \<open>Cloning\<close>

definition flat_points :: "(string \<times> nat list) list \<Rightarrow> (string \<times> nat) list" where
  "flat_points pairs = concat (map (\<lambda>(original, ps). map (Pair original) ps) pairs)"

lemma cloneFunctions_flat:
  "cloneFunctions un pairs s =
     foldl (\<lambda>s (original, i). clone_for_point un original i s) s (flat_points pairs)"
proof -
  have inner: "foldl (\<lambda>s i. clone_for_point un original i s) s ps =
      foldl (\<lambda>s (original, i). clone_for_point un original i s) s (map (Pair original) ps)" for original s ps
    by (induction ps arbitrary: s) simp_all
  show ?thesis
    unfolding cloneFunctions_def flat_points_def
    by (induction pairs arbitrary: s) (auto simp: inner)
qed

text \<open>What the loop guarantees for the points \<open>L\<close>, from \<open>(m, store)\<close> to \<open>(m', store')\<close>.\<close>

definition clone_name :: "point_store \<Rightarrow> nat \<Rightarrow> string" where
  "clone_name store i = (case mutatedFunction (store ! i) of Some n \<Rightarrow> n | None \<Rightarrow> [])"

definition point_cloned ::
  "ir_module \<times> point_store \<Rightarrow> ir_module \<times> point_store \<Rightarrow> string \<times> nat \<Rightarrow> bool" where
  "point_cloned s s' x \<longleftrightarrow>
     (let (m, store) = s; (m', store') = s'; (original, i) = x; name = clone_name store' i in
      store' ! i = (store ! i)\<lparr>mutatedFunction := Some name\<rparr> \<and> name \<notin> set (names m) \<and>
      (\<exists>sfx. name = userIdentifier (store ! i) @ sfx) \<and>
      get_function m' name =
        map_option (\<lambda>f. (CloneFunction f name)\<lparr>internal_linkage := True\<rparr>) (get_function m original))"

definition clones_done ::
  "(string \<times> nat) list \<Rightarrow> ir_module \<times> point_store \<Rightarrow> ir_module \<times> point_store \<Rightarrow> bool" where
  "clones_done L s s' \<longleftrightarrow>
     (let (m, store) = s; (m', store') = s' in
      set (names m) \<subseteq> set (names m') \<and> (\<forall>n \<in> set (names m). get_function m' n = get_function m n) \<and>
      (\<forall>n \<in> set (names m'). n \<in> set (names m) \<or>
         (\<exists>i \<in> snd ` set L. covered (store ! i) \<and> n = clone_name store' i)) \<and>
      length store' = length store \<and>
      (\<forall>j. j \<notin> snd ` set L \<or> \<not> covered (store ! j) \<longrightarrow> store' ! j = store ! j) \<and>
      (\<forall>x \<in> set L. covered (store ! snd x) \<longrightarrow> point_cloned s s' x) \<and>
      (\<forall>i \<in> snd ` set L. \<forall>j \<in> snd ` set L. covered (store ! i) \<and> covered (store ! j) \<and> i \<noteq> j \<longrightarrow>
         clone_name store' i \<noteq> clone_name store' j))"

definition clonable :: "(string \<times> nat) list \<Rightarrow> ir_module \<times> point_store \<Rightarrow> bool" where
  "clonable L s \<longleftrightarrow> distinct (map snd L) \<and>
     (\<forall>(original, i) \<in> set L. original \<in> set (names (fst s)) \<and> i < length (snd s) \<and>
        mutatedFunction (snd s ! i) = None)"

lemma clone_for_point_covered:
  assumes "unique_names un" "covered (store ! i)" "mutatedFunction (store ! i) = None"
    and "get_function m original = Some f"
  shows "\<exists>name. clone_for_point un original i (m, store) =
      (add_function ((CloneFunction f name)\<lparr>internal_linkage := True\<rparr>) m,
       store[i := (store ! i)\<lparr>mutatedFunction := Some name\<rparr>]) \<and>
    name \<notin> set (names m) \<and> (\<exists>sfx. name = userIdentifier (store ! i) @ sfx)"
  using assms
  by (intro exI [of _ "un (names m) (userIdentifier (store ! i))"])
    (auto simp: clone_for_point_def getMutatedFunctionName_def Let_def unique_names_def)

lemma clones_done_loop:
  assumes "unique_names un" "clonable L (m, store)"
  shows "clones_done L (m, store) (foldl (\<lambda>s (original, i). clone_for_point un original i s) (m, store) L)"
  using assms(2)
proof (induction L arbitrary: m store)
  case Nil
  then show ?case by (simp add: clones_done_def)
next
  case (Cons a L)
  obtain original i where a: "a = (original, i)" by (cases a)
  have pre: "original \<in> set (names m)" "i < length store" "mutatedFunction (store ! i) = None"
    "i \<notin> snd ` set L" "clonable L (m, store)"
    using Cons.prems by (auto simp: a clonable_def)
  show ?case
  proof (cases "covered (store ! i)")
    case False
    then have "clone_for_point un original i (m, store) = (m, store)"
      by (simp add: clone_for_point_def)
    with Cons.IH [OF pre(5)] False show ?thesis
      by (auto simp: a clones_done_def Let_def split: prod.splits)
  next
    case True
    obtain f where f: "get_function m original = Some f"
      using pre(1) get_function_None [of m original] by auto
    obtain name sfx where st: "clone_for_point un original i (m, store) =
        (add_function ((CloneFunction f name)\<lparr>internal_linkage := True\<rparr>) m,
         store[i := (store ! i)\<lparr>mutatedFunction := Some name\<rparr>])"
      and name: "name \<notin> set (names m)" "name = userIdentifier (store ! i) @ sfx"
      using clone_for_point_covered [OF assms(1) True pre(3) f] by blast
    let ?m = "add_function ((CloneFunction f name)\<lparr>internal_linkage := True\<rparr>) m"
    let ?s = "store[i := (store ! i)\<lparr>mutatedFunction := Some name\<rparr>]"
    have get: "get_function ?m n =
        (if n = name then Some ((CloneFunction f name)\<lparr>internal_linkage := True\<rparr>) else get_function m n)" for n
      using get_add_function [of "(CloneFunction f name)\<lparr>internal_linkage := True\<rparr>" m n] name(1)
      by (simp add: CloneFunction_def)
    have nm: "set (names ?m) = insert name (set (names m))" by (simp add: CloneFunction_def)
    have ne: "j \<noteq> i" if "(o', j) \<in> set L" for o' j using pre(4) that by force
    have cl: "clonable L (?m, ?s)"
      using pre(5) ne by (fastforce simp: clonable_def nth_list_update CloneFunction_def)
    have nth: "?s ! j = store ! j" if "j \<noteq> i" for j using that by simp
    have nthi: "?s ! i = (store ! i)\<lparr>mutatedFunction := Some name\<rparr>" using pre(2) by simp
    obtain m' store' where r: "foldl (\<lambda>s (original, i). clone_for_point un original i s) (?m, ?s) L = (m', store')"
      by fastforce
    from Cons.IH [OF cl] have IH: "clones_done L (?m, ?s) (m', store')" by (simp only: r)
    have i': "store' ! i = (store ! i)\<lparr>mutatedFunction := Some name\<rparr>"
      using IH pre(4) nthi by (simp add: clones_done_def)
    then have cn: "clone_name store' i = name" by (simp add: clone_name_def)
    have A: "set (names m) \<subseteq> set (names m')" "\<And>n. n \<in> set (names m) \<Longrightarrow> get_function m' n = get_function m n"
      "length store' = length store" "get_function m' name = get_function ?m name"
      using IH get name(1) by (auto simp: clones_done_def nm simp del: names_add)
    have B: "store' ! j = store ! j" if "j \<notin> snd ` set (a # L) \<or> \<not> covered (store ! j)" for j
      using IH that nth [of j] True by (cases "j = i") (auto simp: clones_done_def a)
    have C: "point_cloned (m, store) (m', store') x" "clone_name store' (snd x) \<noteq> name"
      if x: "x \<in> set L" "covered (store ! snd x)" for x
    proof -
      obtain o' j where xj: "x = (o', j)" by (cases x)
      have o': "o' \<in> set (names m)" using pre(5) x(1) xj by (auto simp: clonable_def)
      then have "o' \<noteq> name" using name(1) by auto
      then show "point_cloned (m, store) (m', store') x" "clone_name store' (snd x) \<noteq> name"
        using IH x nth [OF ne, of o' j] unfolding xj
        by (auto simp: clones_done_def point_cloned_def Let_def nm get simp del: names_add)
    qed
    have C2: "clone_name store' j \<noteq> name" if "j \<in> snd ` set L" "covered (store ! j)" for j
      using that C(2) by auto
    have D: "clone_name store' j \<noteq> clone_name store' k"
      if "j \<in> snd ` set (a # L)" "k \<in> snd ` set (a # L)" "covered (store ! j)" "covered (store ! k)" "j \<noteq> k" for j k
    proof (cases "j = i \<or> k = i")
      case True
      with that have "j = i \<and> k \<in> snd ` set L \<or> k = i \<and> j \<in> snd ` set L" by (auto simp: a)
      with that C2 cn show ?thesis by metis
    next
      case False
      then have "j \<in> snd ` set L" "k \<in> snd ` set L" "covered (?s ! j)" "covered (?s ! k)"
        using that nth by (auto simp: a)
      with IH that(5) show ?thesis by (auto simp: clones_done_def)
    qed
    have F: "n \<in> set (names m) \<or> (\<exists>i \<in> snd ` set (a # L). covered (store ! i) \<and> n = clone_name store' i)"
      if n: "n \<in> set (names m')" for n
    proof -
      consider "n \<in> set (names m)" | "n = name" | j where "j \<in> snd ` set L" "covered (?s ! j)" "n = clone_name store' j"
        using IH n unfolding clones_done_def Let_def prod.case nm by blast
      then show ?thesis
      proof cases
        case 3
        then have "covered (store ! j)" using pre(4) nth [of j] by (cases "j = i") auto
        with 3 show ?thesis by auto
      qed (use cn \<open>covered (store ! i)\<close> in \<open>auto simp: a\<close>)
    qed
    have E: "point_cloned (m, store) (m', store') a"
      using i' cn name A(4) get f by (simp add: point_cloned_def a Let_def)
    have fin: "foldl (\<lambda>s (original, i). clone_for_point un original i s) (m, store) (a # L) = (m', store')"
      using st r by (simp add: a)
    show ?thesis
      unfolding fin clones_done_def Let_def prod.case
    proof (intro conjI)
      show "\<forall>x \<in> set (a # L). covered (store ! snd x) \<longrightarrow> point_cloned (m, store) (m', store') x"
        using C(1) E by auto
      show "\<forall>n \<in> set (names m'). n \<in> set (names m) \<or>
         (\<exists>i \<in> snd ` set (a # L). covered (store ! i) \<and> n = clone_name store' i)"
        using F by (intro ballI)
    qed (use A B D in blast)+
  qed
qed


subsection \<open>Removing the originals and redirecting them\<close>

definition original_name :: "string \<Rightarrow> string" where
  "original_name f = ''mull_'' @ f @ ''_original''"

lemma original_name_inject [simp]: "original_name f = original_name g \<longleftrightarrow> f = g"
  by (simp add: original_name_def)

text \<open>The pairs of a bitcode: one for each function, listing points of that function.\<close>

definition wf_pairs :: "(string \<times> nat list) list \<Rightarrow> ir_module \<Rightarrow> point_store \<Rightarrow> bool" where
  "wf_pairs pairs m store \<longleftrightarrow> distinct (map fst pairs) \<and>
     (\<forall>(original, ps) \<in> set pairs. original \<in> set (names m) \<and> ps \<noteq> [] \<and>
        (\<forall>i \<in> set ps. originalFunction (store ! i) = original))"

lemma first_covered_Some: "first_covered store ps = Some i \<Longrightarrow> i \<in> set ps \<and> covered (store ! i)"
  by (induction ps) (auto split: if_splits)

lemma first_covered_None: "first_covered store ps = None \<longleftrightarrow> (\<forall>i \<in> set ps. \<not> covered (store ! i))"
  by (induction ps) auto

definition redirected :: "point_store \<Rightarrow> (string \<times> nat list) list \<Rightarrow> string \<Rightarrow> bool" where
  "redirected store pairs n \<longleftrightarrow> (\<exists>ps. (n, ps) \<in> set pairs \<and> first_covered store ps \<noteq> None)"

lemma delete_function_get:
  assumes "unique_names un" "first_covered store ps = Some i" "originalFunction (store ! i) = original"
    and "get_function m original = Some f" "original_name original \<notin> set (names m)"
  shows "get_function (delete_function un store m (original, ps)) n =
      (if n = original then Some (dropAllReferences f)
       else if n = original_name original then Some (CloneFunction f n) else get_function m n) \<and>
    names (delete_function un store m (original, ps)) = names m @ [original_name original]"
proof -
  have nm: "getOriginalFunctionName (store ! i) = original_name original"
    using assms(3) by (simp add: getOriginalFunctionName_def original_name_def)
  have u: "un (names m) (original_name original) = original_name original"
    using assms(1,5) by (simp add: unique_names_def)
  have o: "original \<in> set (names m)" using assms(4) get_function_None [of m original] by force
  then have "original_name original \<noteq> original" using assms(5) by auto
  then show ?thesis
    using assms(2,4,5)
    by (simp add: delete_function_def nm u get_update_function get_add_function CloneFunction_def)
qed

lemma deleteFunctions_get:
  assumes "unique_names un" "wf_pairs pairs m store"
    and "\<And>original. original \<in> fst ` set pairs \<Longrightarrow> original_name original \<notin> set (names m)"
  shows "(\<forall>n. n \<notin> original_name ` fst ` set pairs \<longrightarrow>
      get_function (deleteFunctions un pairs store m) n =
        (if redirected store pairs n then map_option dropAllReferences (get_function m n)
         else get_function m n)) \<and>
    (\<forall>n. redirected store pairs n \<longrightarrow>
      get_function (deleteFunctions un pairs store m) (original_name n) =
        map_option (\<lambda>f. CloneFunction f (original_name n)) (get_function m n))"
  using assms(2,3)
proof (induction pairs arbitrary: m)
  case Nil
  then show ?case by (simp add: deleteFunctions_def redirected_def)
next
  case (Cons a pairs)
  obtain original ps where a: "a = (original, ps)" by (cases a)
  let ?m = "delete_function un store m a"
  have pre: "original \<in> set (names m)" "original \<notin> fst ` set pairs" "wf_pairs pairs m store"
    "original_name original \<notin> set (names m)"
    using Cons.prems by (auto simp: wf_pairs_def a)
  have unf: "deleteFunctions un (a # pairs) store m = deleteFunctions un pairs store ?m"
    by (simp add: deleteFunctions_def)
  have nr: "\<not> redirected store pairs original"
    using pre(2) by (force simp: redirected_def)
  show ?case
  proof (cases "first_covered store ps")
    case None
    then have "?m = m" by (simp add: delete_function_def a)
    moreover have "redirected store (a # pairs) n = redirected store pairs n" for n
      using None by (auto simp: redirected_def a)
    ultimately show ?thesis
      using Cons.IH [OF pre(3)] Cons.prems(2) unfolding unf by (auto simp: a)
  next
    case (Some i)
    obtain f where f: "get_function m original = Some f"
      using pre(1) get_function_None [of m original] by auto
    have oi: "originalFunction (store ! i) = original"
      using Cons.prems(1) first_covered_Some [OF Some] by (auto simp: wf_pairs_def a)
    note g = delete_function_get [OF assms(1) Some oi f pre(4), folded a]
    have rd: "redirected store (a # pairs) n \<longleftrightarrow> n = original \<or> redirected store pairs n" for n
      using Some by (auto simp: redirected_def a)
    have wf: "wf_pairs pairs ?m store" using pre(3) g by (auto simp: wf_pairs_def)
    have fr: "original_name k \<notin> set (names ?m)" if "k \<in> fst ` set pairs" for k
      using Cons.prems(2) [of k] that pre(2) g by auto
    have red_in: "n \<in> fst ` set pairs" if "redirected store pairs n" for n
      using that by (force simp: redirected_def)
    note IH = Cons.IH [OF wf fr]
    have "get_function (deleteFunctions un pairs store ?m) n =
        (if redirected store (a # pairs) n then map_option dropAllReferences (get_function m n)
         else get_function m n)" if n: "n \<notin> original_name ` fst ` set (a # pairs)" for n
      using IH n g f nr rd by (auto simp: a)
    moreover have "get_function (deleteFunctions un pairs store ?m) (original_name n) =
        map_option (\<lambda>f. CloneFunction f (original_name n)) (get_function m n)"
      if n: "redirected store (a # pairs) n" for n
    proof (cases "n = original")
      case True
      have "original_name original \<notin> fst ` set pairs"
        using pre(3,4) by (auto simp: wf_pairs_def)
      then have "\<not> redirected store pairs (original_name original)" using red_in by blast
      moreover have "original_name original \<notin> original_name ` fst ` set pairs"
        using pre(2) by (metis imageE original_name_inject)
      ultimately have "get_function (deleteFunctions un pairs store ?m) (original_name original) =
          get_function ?m (original_name original)" using IH by simp
      moreover have "original_name original \<noteq> original" using pre(1,4) by auto
      ultimately show ?thesis using g f True by simp
    next
      case False
      then have r: "redirected store pairs n" using n rd by simp
      then obtain qs where "(n, qs) \<in> set pairs" by (auto simp: redirected_def)
      then have "n \<in> set (names m)" using pre(3) by (auto simp: wf_pairs_def)
      then have "n \<noteq> original_name original" using pre(4) by auto
      then have "get_function ?m n = get_function m n" using g False by simp
      with IH r show ?thesis by simp
    qed
    ultimately show ?thesis unfolding unf by blast
  qed
qed


lemma getOrInsertFunction_present:
  "n \<in> set (names m) \<Longrightarrow> get_function (getOrInsertFunction k params void m) n = get_function m n"
  by (auto simp: getOrInsertFunction_def get_add_function)

lemma getOrInsertFunction_absent:
  "n \<notin> set (names m) \<Longrightarrow> map_option blocks (get_function (getOrInsertFunction n params void m) n) = Some []"
  by (simp add: getOrInsertFunction_def get_add_function)

lemma insert_trampolines_get:
  assumes "distinct (map fst pairs)"
  shows "get_function (foldl (insert_trampoline un store) m pairs) n =
      (case map_of pairs n of
         Some ps \<Rightarrow>
           (if first_covered store ps = None then get_function m n
            else map_option (\<lambda>f. f\<lparr>blocks := trampoline_blocks un store
                   (getOriginalFunctionName (store ! hd ps)) ps f\<rparr>) (get_function m n))
       | None \<Rightarrow> get_function m n)"
  using assms
proof (induction pairs arbitrary: m)
  case Nil
  then show ?case by simp
next
  case (Cons a pairs)
  obtain original ps where a: "a = (original, ps)" by (cases a)
  let ?m = "insert_trampoline un store m a"
  have unf: "foldl (insert_trampoline un store) m (a # pairs) = foldl (insert_trampoline un store) ?m pairs"
    by simp
  have g: "get_function ?m k =
      (if k = original \<and> first_covered store ps \<noteq> None
       then map_option (\<lambda>f. f\<lparr>blocks := trampoline_blocks un store
              (getOriginalFunctionName (store ! hd ps)) ps f\<rparr>) (get_function m k)
       else get_function m k)" for k
    by (auto simp: insert_trampoline_def a get_update_function split: option.split)
  have none: "map_of pairs original = None" using Cons.prems by (auto simp: a map_of_eq_None_iff)
  have "distinct (map fst pairs)" using Cons.prems by simp
  note IH = Cons.IH [OF this, of ?m]
  show ?case
    unfolding unf using IH none
    by (cases "n = original"; cases "map_of pairs n"; cases "first_covered store ps")
      (simp_all add: g a [symmetric] del: map_of_eq_Some_iff, simp_all add: a del: map_of_eq_Some_iff)
qed

lemma insertTrampolines_get:
  assumes "distinct (map fst pairs)" "get_function m n = Some f"
  shows "get_function (insertTrampolines un pairs store m) n =
    (case map_of pairs n of
       Some ps \<Rightarrow>
         (if first_covered store ps = None then Some f
          else Some (f\<lparr>blocks := trampoline_blocks un store (getOriginalFunctionName (store ! hd ps)) ps f\<rparr>))
     | None \<Rightarrow> Some f)"
proof -
  have "n \<in> set (names m)" using assms(2) get_function_None [of m n] by fastforce
  then show ?thesis
    by (simp add: insertTrampolines_def insert_trampolines_get [OF assms(1)] getOrInsertFunction_present assms(2)
        split: option.split)
qed

text \<open>The trampolines of a module without a \<open>getenv\<close> of its own call one from outside of it.\<close>

lemma getenv_external:
  assumes "distinct (map fst pairs)" "''getenv'' \<notin> set (names m)" "''getenv'' \<notin> fst ` set pairs"
  shows "map_option blocks (get_function (insertTrampolines un pairs store m) ''getenv'') = Some []"
proof -
  have "map_of pairs ''getenv'' = None" using assms(3) by (simp add: map_of_eq_None_iff)
  then show ?thesis
    by (simp add: insertTrampolines_def insert_trampolines_get [OF assms(1)] getOrInsertFunction_absent [OF assms(2)])
qed

subsection \<open>Applying the mutations\<close>

lemma get_recordMutation [simp]:
  "get_function (recordMutation p m) n = get_function m n" "names (recordMutation p m) = names m"
  by (simp_all add: recordMutation_def get_function_def names_def)

lemma applyMutation_get:
  assumes "mutatedFunction p = Some n" "get_function m n = Some f"
    and "applyM (point_mutator p) (address p) (irMutator p) f = Inr g"
  shows "\<exists>m'. applyMutation applyM p m = Inr m' \<and>
    (\<forall>k. get_function m' k = (if k = n then Some (g\<lparr>fname := n\<rparr>) else get_function m k))"
proof -
  have "fname f = n" using get_function_name [OF assms(2)] .
  then have "get_function (update_function n (\<lambda>f. g\<lparr>fname := fname f\<rparr>) m) k =
      (if k = n then Some (g\<lparr>fname := n\<rparr>) else get_function m k)" for k
    using get_update_function [of "\<lambda>f. g\<lparr>fname := fname f\<rparr>" n m k] assms(2) by simp
  then show ?thesis using assms by (simp add: applyMutation_def)
qed

text \<open>Every covered point's own clone is mutated once; nothing else changes.\<close>

lemma applyMutations_get:
  assumes "\<And>p. p \<in> set ps \<Longrightarrow> covered p \<Longrightarrow> \<exists>n f. mutatedFunction p = Some n \<and>
      get_function m n = Some f \<and> applyM (point_mutator p) (address p) (irMutator p) f = Inr (result p)"
    and "distinct (map mutatedFunction (filter covered ps))"
  shows "\<exists>m'. applyMutations applyM ps m = Inr m' \<and>
    (\<forall>p \<in> set ps. covered p \<longrightarrow>
       get_function m' (the (mutatedFunction p)) = Some ((result p)\<lparr>fname := the (mutatedFunction p)\<rparr>)) \<and>
    (\<forall>k. Some k \<notin> mutatedFunction ` set (filter covered ps) \<longrightarrow> get_function m' k = get_function m k)"
  using assms
proof (induction ps arbitrary: m)
  case (Cons p ps)
  let ?m = "recordMutation p m"
  show ?case
  proof (cases "covered p")
    case False
    with Cons.IH [of ?m] Cons.prems show ?thesis by (auto simp: Let_def)
  next
    case True
    obtain n f where p: "mutatedFunction p = Some n" "get_function ?m n = Some f"
      "applyM (point_mutator p) (address p) (irMutator p) f = Inr (result p)"
      using Cons.prems(1) [of p] True by auto
    obtain m1 where m1: "applyMutation applyM p ?m = Inr m1"
      "\<And>k. get_function m1 k = (if k = n then Some ((result p)\<lparr>fname := n\<rparr>) else get_function ?m k)"
      using applyMutation_get [of p n ?m f applyM "result p", OF p] by blast
    have ne: "mutatedFunction q \<noteq> Some n" if "q \<in> set ps" "covered q" for q
      using Cons.prems(2) True p(1) that by force
    have pre: "\<exists>n f. mutatedFunction q = Some n \<and> get_function m1 n = Some f \<and>
        applyM (point_mutator q) (address q) (irMutator q) f = Inr (result q)"
      if "q \<in> set ps" "covered q" for q
      using Cons.prems(1) [of q] that ne [OF that] m1(2) by auto
    have "distinct (map mutatedFunction (filter covered ps))" using Cons.prems(2) True by simp
    from Cons.IH [OF pre this] obtain m' where m': "applyMutations applyM ps m1 = Inr m'"
      "\<forall>q \<in> set ps. covered q \<longrightarrow>
         get_function m' (the (mutatedFunction q)) = Some ((result q)\<lparr>fname := the (mutatedFunction q)\<rparr>)"
      "\<forall>k. Some k \<notin> mutatedFunction ` set (filter covered ps) \<longrightarrow> get_function m' k = get_function m1 k"
      by blast
    have "Some n \<notin> mutatedFunction ` set (filter covered ps)"
    proof
      assume "Some n \<in> mutatedFunction ` set (filter covered ps)"
      then obtain q where "q \<in> set ps" "covered q" "mutatedFunction q = Some n" by force
      with ne show False by blast
    qed
    then have n': "get_function m' n = Some ((result p)\<lparr>fname := n\<rparr>)" using m'(3) m1(2) by simp
    have rest: "get_function m' k = get_function m k"
      if "Some k \<notin> mutatedFunction ` set (filter covered (p # ps))" for k
      using that m'(3) m1(2) p(1) True by (simp split: if_splits)
    have "applyMutations applyM (p # ps) m = Inr m'" using True m1(1) m'(1) by (simp add: Let_def)
    then show ?thesis using m'(2) n' p(1) rest by (intro exI [of _ m']) auto
  qed
qed simp


section \<open>Properties\<close>

definition selected_point :: "(string \<Rightarrow> bool) \<Rightarrow> point_store \<Rightarrow> nat list \<Rightarrow> nat option" where
  "selected_point env store ps =
     find (\<lambda>i. covered (store ! i) \<and> env (userIdentifier (store ! i))) (rev ps)"

lemma find_append_list:
  "find P (xs @ ys) = (case find P xs of Some x \<Rightarrow> Some x | None \<Rightarrow> find P ys)"
  by (induction xs) auto

lemma find_SomeD: "find P xs = Some x \<Longrightarrow> x \<in> set xs \<and> P x"
  by (induction xs) (auto split: if_splits)

lemma selected_target_point:
  "selected_target env store ps t =
     (case selected_point env store ps of None \<Rightarrow> t | Some i \<Rightarrow> clone_name store i)"
  by (induction ps arbitrary: t)
    (auto simp: selected_point_def find_append_list clone_name_def split: option.splits)

lemma selected_point_in:
  "selected_point env store ps = Some i \<Longrightarrow>
     i \<in> set ps \<and> covered (store ! i) \<and> env (userIdentifier (store ! i))"
  unfolding selected_point_def by (drule find_SomeD) simp

definition reserved :: "string \<Rightarrow> bool" where
  "reserved n \<longleftrightarrow> take 5 n = ''mull_''"

lemma reserved_original [simp]: "reserved (original_name f)"
  by (simp add: reserved_def original_name_def)

lemma reserved_append [simp]: "5 \<le> length n \<Longrightarrow> reserved (n @ s) = reserved n"
  by (simp add: reserved_def)

text \<open>What the preparation starts from: no name of the program or of a mutant begins with \<open>mull_\<close>.\<close>

definition preparable ::
  "(string \<times> nat list) list \<Rightarrow> nat list \<Rightarrow> ir_module \<Rightarrow> point_store \<Rightarrow> bool" where
  "preparable pairs order m store \<longleftrightarrow>
     wf_pairs pairs m store \<and> clonable (flat_points pairs) (m, store) \<and>
     distinct order \<and> set order = snd ` set (flat_points pairs) \<and>
     (\<forall>n \<in> set (names m). \<not> reserved n) \<and>
     (\<forall>i \<in> set order. length (userIdentifier (store ! i)) \<ge> 5 \<and> \<not> reserved (userIdentifier (store ! i)))"

lemma in_flat_points: "(n, i) \<in> set (flat_points pairs) \<longleftrightarrow> (\<exists>ps. (n, ps) \<in> set pairs \<and> i \<in> set ps)"
  by (force simp: flat_points_def)

lemma point_same_fields:
  assumes "clones_done (flat_points pairs) (m, store) (m1, store1)"
  shows "covered (store1 ! i) = covered (store ! i)" "userIdentifier (store1 ! i) = userIdentifier (store ! i)"
    "originalFunction (store1 ! i) = originalFunction (store ! i)"
    "point_mutator (store1 ! i) = point_mutator (store ! i)" "address (store1 ! i) = address (store ! i)"
    "irMutator (store1 ! i) = irMutator (store ! i)"
proof -
  have "store1 ! i = store ! i \<or> store1 ! i = (store ! i)\<lparr>mutatedFunction := Some (clone_name store1 i)\<rparr>"
  proof (cases "i \<in> snd ` set (flat_points pairs) \<and> covered (store ! i)")
    case True
    then obtain x where "x \<in> set (flat_points pairs)" "snd x = i" by auto
    with True assms have "point_cloned (m, store) (m1, store1) x" by (auto simp: clones_done_def)
    with \<open>snd x = i\<close> show ?thesis by (cases x) (auto simp: point_cloned_def Let_def)
  next
    case False
    with assms show ?thesis by (auto simp: clones_done_def)
  qed
  then show "covered (store1 ! i) = covered (store ! i)" "userIdentifier (store1 ! i) = userIdentifier (store ! i)"
    "originalFunction (store1 ! i) = originalFunction (store ! i)"
    "point_mutator (store1 ! i) = point_mutator (store ! i)" "address (store1 ! i) = address (store ! i)"
    "irMutator (store1 ! i) = irMutator (store ! i)"
    by (elim disjE; simp)+
qed


lemma first_covered_cong:
  "(\<And>i. covered (store1 ! i) = covered (store ! i)) \<Longrightarrow> first_covered store1 ps = first_covered store ps"
  by (induction ps) auto

lemma clone_names_fresh:
  assumes pre: "preparable pairs order m store"
    and cd: "clones_done (flat_points pairs) (m, store) (m1, store1)"
    and i: "i \<in> set order" "covered (store ! i)"
  shows "clone_name store1 i \<in> set (names m1) - set (names m) - range original_name"
proof -
  from i(1) pre obtain n where x: "(n, i) \<in> set (flat_points pairs)"
    by (auto simp: preparable_def)
  have u: "length (userIdentifier (store ! i)) \<ge> 5" "\<not> reserved (userIdentifier (store ! i))"
    using pre i(1) by (simp_all add: preparable_def)
  have pc: "point_cloned (m, store) (m1, store1) (n, i)" using cd i(2) x by (auto simp: clones_done_def)
  obtain ps where "(n, ps) \<in> set pairs" using x by (auto simp: in_flat_points)
  with pre have "n \<in> set (names m)" by (auto simp: preparable_def wf_pairs_def)
  then obtain f where "get_function m n = Some f" using get_function_None [of m n] by auto
  with pc have "get_function m1 (clone_name store1 i) \<noteq> None" by (auto simp: point_cloned_def Let_def)
  then have "clone_name store1 i \<in> set (names m1)" using get_function_None by metis
  moreover have "clone_name store1 i \<notin> set (names m)" using pc by (auto simp: point_cloned_def Let_def)
  moreover have "\<not> reserved (clone_name store1 i)"
    using pc u by (auto simp: point_cloned_def Let_def)
  ultimately show ?thesis by auto
qed

lemma clones_done_names:
  assumes "clones_done L (m, store) (m', store')" "n \<in> set (names m')"
  shows "n \<in> set (names m) \<or> (\<exists>i \<in> snd ` set L. covered (store ! i) \<and> n = clone_name store' i)"
  using assms by (simp only: clones_done_def Let_def prod.case)

lemma original_names_fresh:
  assumes pre: "preparable pairs order m store"
    and cd: "clones_done (flat_points pairs) (m, store) (m1, store1)"
  shows "original_name n \<notin> set (names m1)"
proof
  assume "original_name n \<in> set (names m1)"
  then consider "original_name n \<in> set (names m)"
    | i where "i \<in> snd ` set (flat_points pairs)" "covered (store ! i)" "original_name n = clone_name store1 i"
    using clones_done_names [OF cd] by blast
  then show False
  proof cases
    case 1
    then show ?thesis using pre by (auto simp: preparable_def)
  next
    case 2
    then have "i \<in> set order" using pre by (simp add: preparable_def)
    from clone_names_fresh [OF pre cd this 2(2)] 2(3) show ?thesis by (metis DiffD2 rangeI)
  qed
qed

text \<open>The situation after the first three steps, collected.\<close>

lemma redirected_modules:
  assumes un: "unique_names un" and pre: "preparable pairs order m store"
    and c: "cloneFunctions un pairs (m, store) = (m1, store1)"
    and m3: "m3 = insertTrampolines un pairs store1 (deleteFunctions un pairs store1 m1)"
  shows "clones_done (flat_points pairs) (m, store) (m1, store1)"
    and "\<And>n ps f. (n, ps) \<in> set pairs \<Longrightarrow> first_covered store ps \<noteq> None \<Longrightarrow> get_function m n = Some f \<Longrightarrow>
      get_function m3 n =
        Some ((dropAllReferences f)\<lparr>blocks := trampoline_blocks un store1 (original_name n) ps (dropAllReferences f)\<rparr>) \<and>
      get_function m3 (original_name n) = Some (CloneFunction f (original_name n))"
    and "\<And>n. n \<in> set (names m1) \<Longrightarrow> \<not> redirected store pairs n \<Longrightarrow> get_function m3 n = get_function m1 n"
    and "\<And>i. i \<in> set order \<Longrightarrow> covered (store ! i) \<Longrightarrow>
      clone_name store1 i \<in> set (names m1) - set (names m) - range original_name"
proof -
  show cd: "clones_done (flat_points pairs) (m, store) (m1, store1)"
    using clones_done_loop [OF un, of "flat_points pairs" m store] pre c
    by (simp add: cloneFunctions_flat preparable_def)
  note same = point_same_fields [OF cd]
  have fc: "first_covered store1 ps = first_covered store ps" for ps
    by (rule first_covered_cong) (rule same)
  have rd: "redirected store1 pairs n = redirected store pairs n" for n
    by (simp add: redirected_def fc)
  have wf: "wf_pairs pairs m1 store1"
    using pre cd same(3) by (fastforce simp: preparable_def wf_pairs_def clones_done_def)
  have fresh: "original_name n \<notin> set (names m1)" for n by (rule original_names_fresh [OF pre cd])
  show "clone_name store1 i \<in> set (names m1) - set (names m) - range original_name"
    if "i \<in> set order" "covered (store ! i)" for i
    using that by (rule clone_names_fresh [OF pre cd])
  have dist: "distinct (map fst pairs)" using wf by (simp add: wf_pairs_def)
  note del = deleteFunctions_get [OF un wf fresh]
  show "get_function m3 n = get_function m1 n" if "n \<in> set (names m1)" "\<not> redirected store pairs n" for n
  proof -
    have "n \<notin> original_name ` fst ` set pairs" using that(1) fresh by auto
    then have "get_function (deleteFunctions un pairs store1 m1) n = get_function m1 n"
      using del that(2) by (simp add: rd)
    moreover have "first_covered store1 ps = None" if "map_of pairs n = Some ps" for ps
      using map_of_SomeD [OF that] \<open>\<not> redirected store pairs n\<close> by (auto simp: redirected_def fc)
    moreover have "\<exists>f. get_function m1 n = Some f" using that(1) get_function_None [of m1 n] by auto
    ultimately show ?thesis
      using insertTrampolines_get [OF dist] by (auto simp: m3 split: option.split)
  qed
  show "get_function m3 n =
        Some ((dropAllReferences f)\<lparr>blocks := trampoline_blocks un store1 (original_name n) ps (dropAllReferences f)\<rparr>) \<and>
      get_function m3 (original_name n) = Some (CloneFunction f (original_name n))"
    if p: "(n, ps) \<in> set pairs" "first_covered store ps \<noteq> None" "get_function m n = Some f" for n ps f
  proof -
    have nm: "n \<in> set (names m)" "ps \<noteq> []" "originalFunction (store1 ! hd ps) = n"
      using pre p(1) same(3) by (auto simp: preparable_def wf_pairs_def)
    have g1: "get_function m1 n = Some f" using cd nm(1) p(3) by (simp add: clones_done_def)
    have no: "n \<noteq> original_name k" for k using pre nm(1) by (auto simp: preparable_def)
    have r: "redirected store1 pairs n" using p(1,2) by (auto simp: redirected_def fc)
    have "original_name n \<notin> fst ` set pairs" using fresh [of n] wf by (force simp: wf_pairs_def)
    then have mo: "map_of pairs n = Some ps" "map_of pairs (original_name n) = None"
      using p(1) dist by (simp_all add: map_of_eq_None_iff)
    have nno: "n \<notin> original_name ` fst ` set pairs" using no by blast
    have gn: "getOriginalFunctionName (store1 ! hd ps) = original_name n"
      using nm(3) by (simp add: getOriginalFunctionName_def original_name_def)
    have "get_function (deleteFunctions un pairs store1 m1) n = Some (dropAllReferences f)"
      "get_function (deleteFunctions un pairs store1 m1) (original_name n) =
        Some (CloneFunction f (original_name n))"
      using del r g1 nno by auto
    moreover obtain i where "first_covered store ps = Some i" using p(2) by blast
    ultimately show ?thesis
      using insertTrampolines_get [OF dist] mo by (simp add: m3 fc gn)
  qed
qed


definition mutate_ok ::
  "apply_mutation \<Rightarrow> (string \<times> nat list) list \<Rightarrow> ir_module \<Rightarrow> point_store \<Rightarrow> bool" where
  "mutate_ok applyM pairs m store \<longleftrightarrow>
     (\<forall>n ps i f g. (n, ps) \<in> set pairs \<and> i \<in> set ps \<and> covered (store ! i) \<and>
        get_function m n = Some f \<and> blocks g = blocks f \<longrightarrow>
        (\<exists>h. applyM (point_mutator (store ! i)) (address (store ! i)) (irMutator (store ! i)) g = Inr h))"

lemma clones_before_mutation:
  assumes un: "unique_names un" and pre: "preparable pairs order m store"
    and c: "cloneFunctions un pairs (m, store) = (m1, store1)"
    and m3: "m3 = insertTrampolines un pairs store1 (deleteFunctions un pairs store1 m1)"
    and i: "(n, ps) \<in> set pairs" "i \<in> set ps" "covered (store ! i)" "get_function m n = Some f"
  shows "mutatedFunction (store1 ! i) = Some (clone_name store1 i)"
    and "get_function m3 (clone_name store1 i) =
      Some ((CloneFunction f (clone_name store1 i))\<lparr>internal_linkage := True\<rparr>)"
    and "clone_name store1 i \<notin> set (names m)" "clone_name store1 i \<notin> range original_name"
proof -
  note R = redirected_modules [OF un pre c m3]
  have fl: "(n, i) \<in> set (flat_points pairs)" using i(1,2) by (auto simp: in_flat_points)
  then have "i \<in> snd ` set (flat_points pairs)" by force
  then have ord: "i \<in> set order" using pre by (simp add: preparable_def)
  have pc: "point_cloned (m, store) (m1, store1) (n, i)"
    using R(1) fl i(3) by (auto simp: clones_done_def)
  note cn = R(4) [OF ord i(3)]
  from cn show "clone_name store1 i \<notin> set (names m)" "clone_name store1 i \<notin> range original_name"
    by simp_all
  have "store1 ! i = (store ! i)\<lparr>mutatedFunction := Some (clone_name store1 i)\<rparr>"
    using pc by (simp only: point_cloned_def Let_def prod.case)
  then show "mutatedFunction (store1 ! i) = Some (clone_name store1 i)"
    by (metis mutation_point.select_convs(6) mutation_point.surjective mutation_point.update_convs(6))
  have "\<not> redirected store pairs (clone_name store1 i)"
    using cn pre by (auto simp: redirected_def preparable_def wf_pairs_def)
  then have "get_function m3 (clone_name store1 i) = get_function m1 (clone_name store1 i)"
    using R(3) cn by simp
  also have "\<dots> = Some ((CloneFunction f (clone_name store1 i))\<lparr>internal_linkage := True\<rparr>)"
    using pc i(4) by (simp add: point_cloned_def Let_def)
  finally show "get_function m3 (clone_name store1 i) =
      Some ((CloneFunction f (clone_name store1 i))\<lparr>internal_linkage := True\<rparr>)" .
qed

lemma mutated_modules:
  assumes un: "unique_names un" and pre: "preparable pairs order m store"
    and c: "cloneFunctions un pairs (m, store) = (m1, store1)"
    and m3: "m3 = insertTrampolines un pairs store1 (deleteFunctions un pairs store1 m1)"
    and ok: "mutate_ok applyM pairs m store"
  shows "\<exists>m'. applyMutations applyM (map (\<lambda>i. store1 ! i) order) m3 = Inr m' \<and>
    (\<forall>n ps i f. (n, ps) \<in> set pairs \<longrightarrow> i \<in> set ps \<longrightarrow> covered (store ! i) \<longrightarrow> get_function m n = Some f \<longrightarrow>
      (\<exists>h g. applyM (point_mutator (store ! i)) (address (store ! i)) (irMutator (store ! i))
               ((CloneFunction f (clone_name store1 i))\<lparr>internal_linkage := True\<rparr>) = Inr h \<and>
             get_function m' (clone_name store1 i) = Some g \<and> blocks g = blocks h)) \<and>
    (\<forall>k. k \<in> set (names m) \<or> k \<in> range original_name \<longrightarrow> get_function m' k = get_function m3 k)"
proof -
  note R = redirected_modules [OF un pre c m3]
  note same = point_same_fields [OF R(1)]
  note C = clones_before_mutation [OF un pre c m3]
  let ?P = "map (\<lambda>i. store1 ! i) order"
  let ?apply = "\<lambda>p. applyM (point_mutator p) (address p) (irMutator p)"
  define result :: "mutation_point \<Rightarrow> ir_function" where
    "result = (\<lambda>p. projr (?apply p (the (get_function m3 (the (mutatedFunction p))))))"
  have orig: "\<exists>n ps f. (n, ps) \<in> set pairs \<and> i \<in> set ps \<and> get_function m n = Some f"
    if i: "i \<in> set order" for i
  proof -
    obtain n where "(n, i) \<in> set (flat_points pairs)" using pre i by (auto simp: preparable_def)
    then obtain ps where ps: "(n, ps) \<in> set pairs" "i \<in> set ps" by (auto simp: in_flat_points)
    then have "n \<in> set (names m)" using pre by (auto simp: preparable_def wf_pairs_def)
    then obtain f where "get_function m n = Some f" using get_function_None [of m n] by auto
    with ps show ?thesis by blast
  qed
  have res: "?apply (store1 ! i) ((CloneFunction f (clone_name store1 i))\<lparr>internal_linkage := True\<rparr>) =
      Inr (result (store1 ! i))"
    if i: "(n, ps) \<in> set pairs" "i \<in> set ps" "covered (store ! i)" "get_function m n = Some f" for n ps i f
  proof -
    let ?g = "(CloneFunction f (clone_name store1 i))\<lparr>internal_linkage := True\<rparr>"
    have "blocks ?g = blocks f" by (simp add: CloneFunction_def)
    then obtain h where "?apply (store1 ! i) ?g = Inr h"
      using ok i unfolding mutate_ok_def same by blast
    then show ?thesis using C(1,2) [OF i] by (simp add: result_def)
  qed
  have "\<exists>n f. mutatedFunction p = Some n \<and> get_function m3 n = Some f \<and> ?apply p f = Inr (result p)"
    if p: "p \<in> set ?P" "covered p" for p
  proof -
    obtain i where i: "i \<in> set order" "p = store1 ! i" using p(1) by auto
    then have cv: "covered (store ! i)" using p(2) same(1) by simp
    from orig [OF i(1)] obtain n ps f where n: "(n, ps) \<in> set pairs" "i \<in> set ps" "get_function m n = Some f"
      by blast
    show ?thesis using C(1,2) [OF n(1,2) cv n(3)] res [OF n(1,2) cv n(3)] unfolding i(2) by blast
  qed
  moreover have "distinct (map mutatedFunction (filter covered ?P))"
  proof -
    have "inj_on (\<lambda>i. mutatedFunction (store1 ! i)) {i \<in> set order. covered (store1 ! i)}"
    proof (rule inj_onI)
      fix i j assume ij: "i \<in> {i \<in> set order. covered (store1 ! i)}" "j \<in> {i \<in> set order. covered (store1 ! i)}"
        "mutatedFunction (store1 ! i) = mutatedFunction (store1 ! j)"
      then have "clone_name store1 i = clone_name store1 j" by (simp add: clone_name_def)
      moreover have "i \<in> snd ` set (flat_points pairs)" "j \<in> snd ` set (flat_points pairs)"
        using ij pre by (simp_all add: preparable_def)
      ultimately show "i = j" using R(1) ij same(1) unfolding clones_done_def by auto
    qed
    then show ?thesis
      using pre by (simp add: filter_map distinct_map comp_def preparable_def inj_on_def)
  qed
  ultimately obtain m' where m': "applyMutations applyM ?P m3 = Inr m'"
    "\<forall>p \<in> set ?P. covered p \<longrightarrow>
       get_function m' (the (mutatedFunction p)) = Some ((result p)\<lparr>fname := the (mutatedFunction p)\<rparr>)"
    "\<forall>k. Some k \<notin> mutatedFunction ` set (filter covered ?P) \<longrightarrow> get_function m' k = get_function m3 k"
    using applyMutations_get [of ?P m3 applyM result] by blast
  have "\<exists>h g. ?apply (store ! i) ((CloneFunction f (clone_name store1 i))\<lparr>internal_linkage := True\<rparr>) = Inr h \<and>
      get_function m' (clone_name store1 i) = Some g \<and> blocks g = blocks h"
    if i: "(n, ps) \<in> set pairs" "i \<in> set ps" "covered (store ! i)" "get_function m n = Some f" for n ps i f
  proof -
    have "(n, i) \<in> set (flat_points pairs)" using i(1,2) by (auto simp: in_flat_points)
    then have "i \<in> snd ` set (flat_points pairs)" by force
    then have "i \<in> set order" using pre by (simp add: preparable_def)
    then have "get_function m' (clone_name store1 i) = Some ((result (store1 ! i))\<lparr>fname := clone_name store1 i\<rparr>)"
      using m'(2) C(1) [OF i] i(3) same(1) by auto
    with res [OF i] show ?thesis unfolding same by fastforce
  qed
  moreover have "get_function m' k = get_function m3 k" if k: "k \<in> set (names m) \<or> k \<in> range original_name" for k
  proof -
    have "Some k \<noteq> mutatedFunction (store1 ! i)" if i: "i \<in> set order" "covered (store1 ! i)" for i
    proof -
      from orig [OF i(1)] obtain n ps f where n: "(n, ps) \<in> set pairs" "i \<in> set ps" "get_function m n = Some f"
        by blast
      have "covered (store ! i)" using i(2) same(1) by simp
      with C [OF n(1,2) this n(3)] k show ?thesis by auto
    qed
    then show ?thesis using m'(3) by auto
  qed
  ultimately show ?thesis using m'(1) by blast
qed

text \<open>
  \<open>f'\<close> calls, under every environment, a function of \<open>m'\<close> with the original or the mutated body of \<open>f\<close>.
\<close>

definition dispatches ::
  "apply_mutation \<Rightarrow> ir_module \<Rightarrow> point_store \<Rightarrow> nat list \<Rightarrow> ir_function \<Rightarrow> ir_function \<Rightarrow> bool" where
  "dispatches applyM m' store ps f f' \<longleftrightarrow>
     (\<forall>env. \<exists>t g. get_function m' t = Some g \<and>
          (\<exists>n0. \<forall>k \<ge> n0. run_function env k f' = Some (trampoline_result f t)) \<and>
          (case selected_point env store ps of
             None \<Rightarrow> blocks g = blocks f
           | Some i \<Rightarrow> \<exists>h. applyM (point_mutator (store ! i)) (address (store ! i)) (irMutator (store ! i))
               ((CloneFunction f t)\<lparr>internal_linkage := True\<rparr>) = Inr h \<and> blocks g = blocks h))"

text \<open>Preparing a bitcode succeeds, and running a function that has a covered mutant calls, with
  the function's own arguments, exactly one of its copies and returns what that returns: when no
  environment variable named after a covered mutant of the function is set, a copy with the original
  body; otherwise the clone of the last such mutant in the function's list, whose body is the result
  of applying that mutation, once, to the original body. Functions without a covered mutant keep
  their definition.\<close>

lemma prepared_function_dispatch:
  assumes un: "unique_names un" and pre: "preparable pairs order m store"
    and ok: "mutate_ok applyM pairs m store"
  shows "\<exists>m' store'. prepare_bitcode un applyM pairs order (m, store) = Inr (m', store') \<and>
    (\<forall>n ps f. (n, ps) \<in> set pairs \<longrightarrow> first_covered store ps \<noteq> None \<longrightarrow> get_function m n = Some f \<longrightarrow>
      (\<exists>f'. get_function m' n = Some f' \<and>
        dispatches applyM m' store ps f f')) \<and>
    (\<forall>n \<in> set (names m). \<not> redirected store pairs n \<longrightarrow> get_function m' n = get_function m n)"
proof -
  obtain m1 store1 where c: "cloneFunctions un pairs (m, store) = (m1, store1)" by fastforce
  define m3 where m3: "m3 = insertTrampolines un pairs store1 (deleteFunctions un pairs store1 m1)"
  note R = redirected_modules [OF un pre c m3]
  note same = point_same_fields [OF R(1)]
  obtain m' where m': "applyMutations applyM (map (\<lambda>i. store1 ! i) order) m3 = Inr m'"
    and mut: "\<And>n ps i f. (n, ps) \<in> set pairs \<Longrightarrow> i \<in> set ps \<Longrightarrow> covered (store ! i) \<Longrightarrow>
      get_function m n = Some f \<Longrightarrow>
      \<exists>h g. applyM (point_mutator (store ! i)) (address (store ! i)) (irMutator (store ! i))
               ((CloneFunction f (clone_name store1 i))\<lparr>internal_linkage := True\<rparr>) = Inr h \<and>
             get_function m' (clone_name store1 i) = Some g \<and> blocks g = blocks h"
    and keep: "\<And>k. k \<in> set (names m) \<or> k \<in> range original_name \<Longrightarrow> get_function m' k = get_function m3 k"
    using mutated_modules [OF un pre c m3 ok] by blast
  have prep: "prepare_bitcode un applyM pairs order (m, store) = Inr (m', store1)"
    using m' by (simp add: prepare_bitcode_def c m3)
  have sel: "selected_point env store1 ps = selected_point env store ps" for env ps
    by (simp add: selected_point_def same)
  have disp: "\<exists>f'. get_function m' n = Some f' \<and>
        dispatches applyM m' store ps f f'"
    if n: "(n, ps) \<in> set pairs" "first_covered store ps \<noteq> None" "get_function m n = Some f" for n ps f
  proof -
    let ?f = "(dropAllReferences f)\<lparr>blocks := trampoline_blocks un store1 (original_name n) ps (dropAllReferences f)\<rparr>"
    have nm: "n \<in> set (names m)" using n(3) get_function_None [of m n] by force
    have f': "get_function m' n = Some ?f" "get_function m' (original_name n) = Some (CloneFunction f (original_name n))"
      using R(2) [OF n] keep nm by auto
    show ?thesis
      unfolding dispatches_def
    proof (intro exI [of _ ?f] conjI allI)
      fix env
      have run: "\<exists>n0. \<forall>k \<ge> n0. run_function env k ?f =
          Some (trampoline_result f (selected_target env store1 ps (original_name n)))"
        using run_trampoline [OF un, of "dropAllReferences f" env store1 "original_name n" ps]
        by (simp add: trampoline_result_def Let_def)
      show "\<exists>t g. get_function m' t = Some g \<and>
          (\<exists>n0. \<forall>k \<ge> n0. run_function env k ?f = Some (trampoline_result f t)) \<and>
          (case selected_point env store ps of
             None \<Rightarrow> blocks g = blocks f
           | Some i \<Rightarrow> \<exists>h. applyM (point_mutator (store ! i)) (address (store ! i)) (irMutator (store ! i))
               ((CloneFunction f t)\<lparr>internal_linkage := True\<rparr>) = Inr h \<and> blocks g = blocks h)"
      proof (cases "selected_point env store ps")
        case None
        then show ?thesis using run f'(2)
          by (intro exI [of _ "original_name n"] exI [of _ "CloneFunction f (original_name n)"] conjI)
            (simp_all add: selected_target_point sel CloneFunction_def)
      next
        case (Some i)
        from mut [OF n(1) _ _ n(3)] selected_point_in [OF Some] run show ?thesis
          by (fastforce simp: selected_target_point sel Some)
      qed
    qed (rule f'(1))
  qed
  have "get_function m' n = get_function m n" if n: "n \<in> set (names m)" "\<not> redirected store pairs n" for n
    using keep [of n] R(3) [of n] R(1) n by (simp add: clones_done_def subset_iff)
  with prep disp show ?thesis by blast
qed


text \<open>A name supply with the assumed behaviour, and two points in the sample function.\<close>

definition suffix_name :: name_supply where
  "suffix_name used n =
     (if n \<notin> set used then n else n @ replicate (Suc (sum_list (map length used))) CHR ''.'')"

lemma unique_names_suffix: "unique_names suffix_name"
proof -
  have "n @ replicate (Suc (sum_list (map length used))) c \<notin> set used" for n c and used :: "string list"
  proof
    assume "n @ replicate (Suc (sum_list (map length used))) c \<in> set used"
    then have "length (n @ replicate (Suc (sum_list (map length used))) c) \<in> set (map length used)"
      unfolding set_map by (rule imageI)
    then have "length (n @ replicate (Suc (sum_list (map length used))) c) \<le> sum_list (map length used)"
      by (rule member_le_sum_list) simp
    then show False by simp
  qed
  then show ?thesis by (simp add: unique_names_def suffix_name_def)
qed

definition sample_mutation :: "string \<Rightarrow> mutation_point" where
  "sample_mutation ident =
     (MutationPoint (\<lambda>_. True) mk_AddToSub None 0 sample_module
        \<lparr>in_function = ''f'', in_block = ''entry'', at_inst = ''a''\<rparr>
        (sample_inst ''a'' (BinaryOp ''add'' (ArgRef 0) (ArgRef 1)) 7))\<lparr>userIdentifier := ident\<rparr>"

end
