(* ===== verification/LogicalMutators.thy ===== *)
theory LogicalMutators
  imports MutationPoints
begin

text \<open>
  \<open>lib/Mutators/CXX/LogicalAndToOr.cpp\<close> and \<open>LogicalOrToAnd.cpp\<close>: the two mutators that rewrite the
  control flow of a short-circuit operator. They look for a pair of conditional branches in one of
  three patterns, replace the first branch and repair the \<open>phi\<close> nodes of the block that gains a
  predecessor. In the sources operand 2 of a branch (the true block) is called left, operand 1 (the
  false block) right.
\<close>

datatype and_or_pattern = Pattern1 | Pattern2 | Pattern3

text \<open>A branch found in a function: its block and the instruction.\<close>

type_synonym branch = "basic_block \<times> instruction"

fun phi_incoming :: "instruction \<Rightarrow> (ir_value \<times> string) list option" where
  "phi_incoming i = (case opcode i of Phi ins \<Rightarrow> Some ins | _ \<Rightarrow> None)"

text \<open>The loops over the candidate's block: some \<open>phi\<close> has an incoming block other than \<open>parent\<close>.\<close>

definition has_other_incoming :: "basic_block \<Rightarrow> string \<Rightarrow> bool" where
  "has_other_incoming b parent \<longleftrightarrow>
     list_ex (\<lambda>i. case phi_incoming i of None \<Rightarrow> False | Some ins \<Rightarrow> list_ex (\<lambda>(_, l). l \<noteq> parent) ins)
       (insts b)"

text \<open>
  The loop over all instructions; \<open>passed\<close> is set when the first branch itself has been seen, and
  \<open>classify\<close> is the comparison of a candidate's operands.
\<close>

fun scan_branches ::
  "(basic_block \<Rightarrow> string \<Rightarrow> string \<Rightarrow> and_or_pattern option) \<Rightarrow> branch \<Rightarrow> bool \<Rightarrow> branch list \<Rightarrow>
     (and_or_pattern \<times> branch) option" where
  "scan_branches classify first passed [] = None"
| "scan_branches classify first passed ((b, i) # rest) =
     (case opcode i of
        CondBr t e c \<Rightarrow>
          (if label b = label (fst first) \<and> iref i = iref (snd first)
           then scan_branches classify first True rest
           else if \<not> passed then scan_branches classify first passed rest
           else
             (case classify b t e of
                Some pat \<Rightarrow> Some (pat, b, i)
              | None \<Rightarrow> scan_branches classify first passed rest))
      | _ \<Rightarrow> scan_branches classify first passed rest)"

definition and_or_classify ::
  "branch \<Rightarrow> basic_block \<Rightarrow> string \<Rightarrow> string \<Rightarrow> and_or_pattern option" where
  "and_or_classify first b candLeft candRight =
     (case opcode (snd first) of
        CondBr left right _ \<Rightarrow>
          (if candRight = right then Some Pattern1
           else if candRight = left then Some Pattern2
           else if has_other_incoming b (label (fst first)) \<and> label b = right then Some Pattern3
           else None)
      | _ \<Rightarrow> None)"

definition or_and_classify ::
  "branch \<Rightarrow> basic_block \<Rightarrow> string \<Rightarrow> string \<Rightarrow> and_or_pattern option" where
  "or_and_classify first b candLeft candRight =
     (case opcode (snd first) of
        CondBr left right _ \<Rightarrow>
          (if candLeft = left then Some Pattern1
           else if candLeft = right then Some Pattern2
           else if has_other_incoming b (label (fst first)) \<and> label b = left then Some Pattern3
           else None)
      | _ \<Rightarrow> None)"

definition AndToOr_findPossibleMutationInBranch ::
  "ir_function \<Rightarrow> branch \<Rightarrow> (and_or_pattern \<times> branch) option" where
  "AndToOr_findPossibleMutationInBranch f first =
     (if \<not> is_conditional (opcode (snd first)) then None
      else scan_branches (and_or_classify first) first False (instructions f))"

definition OrToAnd_findPossibleMutationInBranch ::
  "ir_function \<Rightarrow> branch \<Rightarrow> (and_or_pattern \<times> branch) option" where
  "OrToAnd_findPossibleMutationInBranch f first =
     (if \<not> is_conditional (opcode (snd first)) then None
      else scan_branches (or_and_classify first) first False (instructions f))"

text \<open>\<open>findPossibleMutation\<close>: a value that is no conditional branch has none.\<close>

definition AndToOr_findPossibleMutation :: "ir_function \<Rightarrow> branch \<Rightarrow> and_or_pattern option" where
  "AndToOr_findPossibleMutation f bi =
     (if \<not> is_conditional (opcode (snd bi)) then None
      else map_option fst (AndToOr_findPossibleMutationInBranch f bi))"

definition OrToAnd_findPossibleMutation :: "ir_function \<Rightarrow> branch \<Rightarrow> and_or_pattern option" where
  "OrToAnd_findPossibleMutation f bi =
     (if \<not> is_conditional (opcode (snd bi)) then None
      else map_option fst (OrToAnd_findPossibleMutationInBranch f bi))"

text \<open>\<open>getMutations\<close> goes over all instructions of the function, not over the selected ones.\<close>

definition logical_getMutations ::
  "(ir_function \<Rightarrow> branch \<Rightarrow> and_or_pattern option) \<Rightarrow> (string \<Rightarrow> bool) \<Rightarrow> ir_module \<Rightarrow> mutator \<Rightarrow>
     function_under_test \<Rightarrow> mutation_point list" where
  "logical_getMutations findPossible is_absolute m mutator fut =
     (case get_function m (fut_function fut) of
        None \<Rightarrow> []
      | Some f \<Rightarrow>
          map (\<lambda>(b, i). MutationPoint is_absolute mutator None (fut_bitcode fut) m (pointer_to f b i) i)
            (filter (\<lambda>bi. findPossible f bi \<noteq> None) (instructions f)))"

definition AndToOr_getMutations ::
  "(string \<Rightarrow> bool) \<Rightarrow> ir_module \<Rightarrow> mutator \<Rightarrow> function_under_test \<Rightarrow> mutation_point list" where
  "AndToOr_getMutations = logical_getMutations AndToOr_findPossibleMutation"

definition OrToAnd_getMutations ::
  "(string \<Rightarrow> bool) \<Rightarrow> ir_module \<Rightarrow> mutator \<Rightarrow> function_under_test \<Rightarrow> mutation_point list" where
  "OrToAnd_getMutations = logical_getMutations OrToAnd_findPossibleMutation"

section \<open>Rewriting\<close>

definition update_block :: "string \<Rightarrow> (instruction list \<Rightarrow> instruction list) \<Rightarrow> ir_function \<Rightarrow> ir_function" where
  "update_block l u f =
     f\<lparr>blocks := map (\<lambda>b. if label b = l then b\<lparr>insts := u (insts b)\<rparr> else b) (blocks f)\<rparr>"

text \<open>
  \<open>replacement->insertAfter(firstBranch); firstBranch->eraseFromParent()\<close>: the new branch, which has
  no debug location, takes the place of the old one.
\<close>

definition replace_branch :: "branch \<Rightarrow> ir_op \<Rightarrow> ir_function \<Rightarrow> ir_function" where
  "replace_branch first new f =
     update_block (label (fst first))
       (map (\<lambda>i. if iref i = iref (snd first) then \<lparr>iref = iref i, opcode = new, dbg = None\<rparr> else i)) f"

definition getBasicBlockIndex :: "(ir_value \<times> string) list \<Rightarrow> string \<Rightarrow> nat option" where
  "getBasicBlockIndex ins l =
     (let i = getIndex ins (\<lambda>(_, x). x = l) in if i < length ins then Some i else None)"

text \<open>The loop over a block's instructions, up to the first that is no \<open>phi\<close>.\<close>

fun add_incoming :: "string \<Rightarrow> string \<Rightarrow> instruction list \<Rightarrow> instruction list" where
  "add_incoming existing new [] = []"
| "add_incoming existing new (i # is) =
     (case phi_incoming i of
        None \<Rightarrow> i # is
      | Some ins \<Rightarrow>
          (case getBasicBlockIndex ins existing of
             None \<Rightarrow> i
           | Some k \<Rightarrow> i\<lparr>opcode := Phi (ins @ [(fst (ins ! k), new)])\<rparr>) # add_incoming existing new is)"

definition successors :: "basic_block \<Rightarrow> string list" where
  "successors b =
     (case insts b of
        [] \<Rightarrow> []
      | _ # _ \<Rightarrow> (case opcode (last (insts b)) of CondBr t e _ \<Rightarrow> [t, e] | Br l \<Rightarrow> [l] | _ \<Rightarrow> []))"

text \<open>
  The loop over the successors of the second branch's block: where one is \<open>target\<close>, its \<open>phi\<close> nodes
  accept a jump from \<open>new\<close> with the value they have for the second branch's block.
\<close>

definition update_phis :: "string \<Rightarrow> string \<Rightarrow> basic_block \<Rightarrow> ir_function \<Rightarrow> ir_function" where
  "update_phis target new second_block f =
     foldl (\<lambda>f s. if target \<noteq> s then f else update_block s (add_incoming (label second_block) new) f) f
       (successors second_block)"

definition apply_AndToOr_Pattern1 :: "branch \<Rightarrow> branch \<Rightarrow> ir_function \<Rightarrow> ir_function result" where
  "apply_AndToOr_Pattern1 first second f =
     (case (opcode (snd first), opcode (snd second)) of
        (CondBr firstLeft firstRight c, CondBr secondLeft secondRight _) \<Rightarrow>
          Inr (update_phis secondLeft (label (fst first)) (fst second)
                 (replace_branch first (CondBr secondLeft firstLeft c) f))
      | _ \<Rightarrow> Inl (AssertFailed ''isConditional''))"

definition apply_AndToOr_Pattern2 :: "branch \<Rightarrow> branch \<Rightarrow> ir_function \<Rightarrow> ir_function result" where
  "apply_AndToOr_Pattern2 first second f =
     (case (opcode (snd first), opcode (snd second)) of
        (CondBr firstLeft firstRight c, CondBr secondLeft secondRight _) \<Rightarrow>
          Inr (update_phis secondLeft (label (fst first)) (fst second)
                 (replace_branch first (CondBr firstRight secondLeft c) f))
      | _ \<Rightarrow> Inl (AssertFailed ''isConditional''))"

definition apply_OrToAnd_Pattern1 :: "branch \<Rightarrow> branch \<Rightarrow> ir_function \<Rightarrow> ir_function result" where
  "apply_OrToAnd_Pattern1 first second f =
     (case (opcode (snd first), opcode (snd second)) of
        (CondBr firstLeft firstRight c, CondBr secondLeft secondRight _) \<Rightarrow>
          Inr (update_phis secondRight (label (fst first)) (fst second)
                 (replace_branch first (CondBr firstRight secondRight c) f))
      | _ \<Rightarrow> Inl (AssertFailed ''isConditional''))"

definition apply_OrToAnd_Pattern2 :: "branch \<Rightarrow> branch \<Rightarrow> ir_function \<Rightarrow> ir_function result" where
  "apply_OrToAnd_Pattern2 first second f =
     (case (opcode (snd first), opcode (snd second)) of
        (CondBr firstLeft firstRight c, CondBr secondLeft secondRight _) \<Rightarrow>
          Inr (update_phis secondRight (label (fst first)) (fst second)
                 (replace_branch first (CondBr secondRight firstLeft c) f))
      | _ \<Rightarrow> Inl (AssertFailed ''isConditional''))"

text \<open>The third pattern, the same in both files: the first \<open>phi\<close> of the second branch's block has its
  first incoming constant negated, and the first branch its targets swapped.\<close>

definition apply_AndToOr_Pattern3 :: "branch \<Rightarrow> branch \<Rightarrow> ir_function \<Rightarrow> ir_function result" where
  "apply_AndToOr_Pattern3 first second f =
     (case find (\<lambda>i. phi_incoming i \<noteq> None) (insts (fst second)) of
        None \<Rightarrow> Inl (AssertFailed ''phiNode'')
      | Some phi \<Rightarrow>
          (case (phi_incoming phi, opcode (snd first)) of
             (Some ((ConstInt n, l) # rest), CondBr firstLeft firstRight c) \<Rightarrow>
               (let flipped = Phi ((ConstInt (if n \<noteq> 0 then 0 else 1), l) # rest);
                    f1 = update_block (label (fst second))
                           (map (\<lambda>i. if iref i = iref phi then i\<lparr>opcode := flipped\<rparr> else i)) f
                in Inr (replace_branch first (CondBr firstRight firstLeft c) f1))
           | _ \<Rightarrow> Inl (AssertFailed ''intValueForIncomingBlock0'')))"

definition apply_OrToAnd_Pattern3 :: "branch \<Rightarrow> branch \<Rightarrow> ir_function \<Rightarrow> ir_function result" where
  "apply_OrToAnd_Pattern3 = apply_AndToOr_Pattern3"

definition logical_applyMutation ::
  "(ir_function \<Rightarrow> branch \<Rightarrow> (and_or_pattern \<times> branch) option) \<Rightarrow>
   (branch \<Rightarrow> branch \<Rightarrow> ir_function \<Rightarrow> ir_function result) \<Rightarrow>
   (branch \<Rightarrow> branch \<Rightarrow> ir_function \<Rightarrow> ir_function result) \<Rightarrow>
   (branch \<Rightarrow> branch \<Rightarrow> ir_function \<Rightarrow> ir_function result) \<Rightarrow>
   mutation_address \<Rightarrow> ir_function \<Rightarrow> ir_function result" where
  "logical_applyMutation findInBranch apply1 apply2 apply3 a f =
     (case at_next (blocks f) (basicBlockIndex a) of
        None \<Rightarrow> Inl (OutOfRange ''std::next'')
      | Some b \<Rightarrow>
          (case at_next (insts b) (instructionIndex a) of
             None \<Rightarrow> Inl (OutOfRange ''std::next'')
           | Some i \<Rightarrow>
               if \<not> is_conditional (opcode i) then Inl (AssertFailed ''branchInst->isConditional()'')
               else
                 (case findInBranch f (b, i) of
                    None \<Rightarrow> Inr f
                  | Some (Pattern1, second) \<Rightarrow> apply1 (b, i) second f
                  | Some (Pattern2, second) \<Rightarrow> apply2 (b, i) second f
                  | Some (Pattern3, second) \<Rightarrow> apply3 (b, i) second f)))"

definition AndToOr_applyMutation :: "mutation_address \<Rightarrow> ir_function \<Rightarrow> ir_function result" where
  "AndToOr_applyMutation =
     logical_applyMutation AndToOr_findPossibleMutationInBranch apply_AndToOr_Pattern1 apply_AndToOr_Pattern2
       apply_AndToOr_Pattern3"

definition OrToAnd_applyMutation :: "mutation_address \<Rightarrow> ir_function \<Rightarrow> ir_function result" where
  "OrToAnd_applyMutation =
     logical_applyMutation OrToAnd_findPossibleMutationInBranch apply_OrToAnd_Pattern1 apply_OrToAnd_Pattern2
       apply_OrToAnd_Pattern3"


section \<open>Where the control flow goes\<close>

text \<open>The block a block's last instruction jumps to, when \<open>\<rho>\<close> gives the conditions' values.\<close>

definition branch_target :: "(ir_value \<Rightarrow> bool) \<Rightarrow> basic_block \<Rightarrow> string option" where
  "branch_target \<rho> b =
     (if insts b = [] then None
      else (case opcode (last (insts b)) of
              CondBr t e c \<Rightarrow> Some (if \<rho> c then t else e)
            | Br l \<Rightarrow> Some l
            | _ \<Rightarrow> None))"

text \<open>The block reached from \<open>l1\<close>, passing through \<open>l2\<close> when the first jump goes there.\<close>

definition short_circuit :: "(ir_value \<Rightarrow> bool) \<Rightarrow> ir_function \<Rightarrow> string \<Rightarrow> string \<Rightarrow> string option" where
  "short_circuit \<rho> f l1 l2 =
     Option.bind (get_block f l1) (\<lambda>b1. Option.bind (branch_target \<rho> b1) (\<lambda>d.
       if d = l2 then Option.bind (get_block f l2) (branch_target \<rho>) else Some d))"

lemma scan_branches_Some:
  "scan_branches classify first passed bis = Some (pat, b, i) \<Longrightarrow>
     \<exists>t e c. opcode i = CondBr t e c \<and> classify b t e = Some pat \<and> (b, i) \<in> set bis \<and>
       \<not> (label b = label (fst first) \<and> iref i = iref (snd first))"
  by (induction classify first passed bis rule: scan_branches.induct)
    (auto split: ir_op.splits if_splits option.splits)

lemma get_update_block:
  "get_block (update_block l u f) k =
     map_option (\<lambda>b. if k = l then b\<lparr>insts := u (insts b)\<rparr> else b) (get_block f k)"
proof -
  have "find (\<lambda>b. label b = k) (map (\<lambda>b. if label b = l then b\<lparr>insts := u (insts b)\<rparr> else b) bs) =
      map_option (\<lambda>b. if k = l then b\<lparr>insts := u (insts b)\<rparr> else b) (find (\<lambda>b. label b = k) bs)" for bs
    by (induction bs) auto
  then show ?thesis by (simp add: get_block_def update_block_def)
qed

lemma add_incoming_shape:
  "list_all2 (\<lambda>i j. j = i \<or> (\<exists>x y. opcode i = Phi x \<and> opcode j = Phi y)) is (add_incoming l new is)"
  by (induction l new "is" rule: add_incoming.induct)
    (auto simp: list_all2_refl split: option.splits ir_op.splits)

lemma list_all2_last: "list_all2 P xs ys \<Longrightarrow> xs \<noteq> [] \<Longrightarrow> P (last xs) (last ys)"
  by (induction rule: list_all2_induct) (auto split: if_splits)

lemma branch_target_add_incoming:
  "branch_target \<rho> (b\<lparr>insts := add_incoming l new (insts b)\<rparr>) = branch_target \<rho> b"
proof (cases "insts b = []")
  case False
  note sh = add_incoming_shape [of "insts b" l new]
  have "add_incoming l new (insts b) \<noteq> []" using sh False by auto
  with list_all2_last [OF sh False] False show ?thesis by (auto simp: branch_target_def)
qed (simp add: branch_target_def)

lemma target_update_phis:
  "Option.bind (get_block (update_phis t new b f) l) (branch_target \<rho>) =
     Option.bind (get_block f l) (branch_target \<rho>)"
proof -
  have step: "Option.bind (get_block (update_block s (add_incoming x new) f) l) (branch_target \<rho>) =
      Option.bind (get_block f l) (branch_target \<rho>)" for s x f
    by (cases "get_block f l") (auto simp: get_update_block branch_target_add_incoming)
  have "Option.bind (get_block (foldl (\<lambda>f s. if t \<noteq> s then f else update_block s (add_incoming x new) f) f ss) l)
      (branch_target \<rho>) = Option.bind (get_block f l) (branch_target \<rho>)" for ss x
    by (induction ss arbitrary: f) (auto simp: step)
  then show ?thesis by (simp add: update_phis_def)
qed

lemma target_replace_branch:
  assumes "get_block f (label b1) = Some b1" "insts b1 = pre @ [i1]"
  shows "Option.bind (get_block (replace_branch (b1, i1) new f) l) (branch_target \<rho>) =
    (if l = label b1
     then (case new of CondBr t e c \<Rightarrow> Some (if \<rho> c then t else e) | Br l \<Rightarrow> Some l | _ \<Rightarrow> None)
     else Option.bind (get_block f l) (branch_target \<rho>))"
  using assms by (auto simp: replace_branch_def get_update_block branch_target_def option.map_ident)

lemma short_circuit_alt:
  "short_circuit \<rho> f l1 l2 =
     Option.bind (Option.bind (get_block f l1) (branch_target \<rho>)) (\<lambda>d.
       if d = l2 then Option.bind (get_block f l2) (branch_target \<rho>) else Some d)"
  by (simp add: short_circuit_def Option.bind_assoc)

text \<open>
  A conditional branch that ends its block, at the address; what the mutators need of the function.
\<close>

definition branch_at :: "mutation_address \<Rightarrow> ir_function \<Rightarrow> branch \<Rightarrow> bool" where
  "branch_at a f bi \<longleftrightarrow>
     at_next (blocks f) (basicBlockIndex a) = Some (fst bi) \<and>
     at_next (insts (fst bi)) (instructionIndex a) = Some (snd bi) \<and>
     get_block f (label (fst bi)) = Some (fst bi) \<and> insts (fst bi) \<noteq> [] \<and> last (insts (fst bi)) = snd bi"

definition ends_block :: "ir_function \<Rightarrow> branch \<Rightarrow> bool" where
  "ends_block f bi \<longleftrightarrow>
     get_block f (label (fst bi)) = Some (fst bi) \<and> insts (fst bi) \<noteq> [] \<and> last (insts (fst bi)) = snd bi"

lemma ends_block_target:
  "ends_block f (b, i) \<Longrightarrow> opcode i = CondBr t e c \<Longrightarrow>
     Option.bind (get_block f (label b)) (branch_target \<rho>) = Some (if \<rho> c then t else e)"
  by (auto simp: ends_block_def branch_target_def)

lemma rewritten_target:
  assumes "ends_block f (b1, i1)"
  shows "Option.bind (get_block (update_phis t n b2 (replace_branch (b1, i1) (CondBr x y c) f)) l) (branch_target \<rho>) =
    (if l = label b1 then Some (if \<rho> c then x else y) else Option.bind (get_block f l) (branch_target \<rho>))"
proof -
  have "insts b1 = butlast (insts b1) @ [i1]"
    using assms by (metis append_butlast_last_id ends_block_def fst_conv snd_conv)
  then show ?thesis
    using target_replace_branch [of f b1 _ i1 "CondBr x y c" l \<rho>] assms
    by (simp add: target_update_phis ends_block_def)
qed

section \<open>Properties\<close>

text \<open>C8. In the first two patterns, when the second branch is the one the first operand leads to, the
  original function evaluates a conjunction of the two operands (the first one negated in the second
  pattern) and the rewritten function their disjunction, with the same two outcomes.\<close>

theorem and_to_or_rewrites_conjunction:
  assumes "branch_at a f (b1, i1)" "opcode i1 = CondBr t1 e1 c1"
    and "AndToOr_findPossibleMutationInBranch f (b1, i1) = Some (pat, b2, i2)" "pat \<noteq> Pattern3"
    and "ends_block f (b2, i2)" "opcode i2 = CondBr t2 e2 c2" "label b2 \<noteq> label b1"
    and "label b2 = (if pat = Pattern1 then t1 else e1)"
    and "t1 \<noteq> e1" "t2 \<noteq> label b2" "e2 \<noteq> label b2"
  shows "\<exists>g. AndToOr_applyMutation a f = Inr g \<and>
    (\<forall>\<rho> p. p = (\<rho> c1 = (pat = Pattern1)) \<longrightarrow>
       short_circuit \<rho> f (label b1) (label b2) = Some (if p \<and> \<rho> c2 then t2 else e2) \<and>
       short_circuit \<rho> g (label b1) (label b2) = Some (if p \<or> \<rho> c2 then t2 else e2))"
proof -
  have e1: "ends_block f (b1, i1)" using assms(1) by (simp add: branch_at_def ends_block_def)
  have "and_or_classify (b1, i1) b2 t2 e2 = Some pat"
    using scan_branches_Some assms(2,3,6)
    by (fastforce simp: AndToOr_findPossibleMutationInBranch_def is_conditional_def)
  then have e2: "e2 = (if pat = Pattern1 then e1 else t1)"
    using assms(2,4) by (auto simp: and_or_classify_def split: if_splits)
  define x y where "x = (if pat = Pattern1 then t2 else e1)" and "y = (if pat = Pattern1 then t1 else t2)"
  define g where "g = update_phis t2 (label b1) b2 (replace_branch (b1, i1) (CondBr x y c1) f)"
  have "AndToOr_applyMutation a f = Inr g"
    using assms(1-4,6)
    by (cases pat) (simp_all add: AndToOr_applyMutation_def logical_applyMutation_def branch_at_def
        is_conditional_def apply_AndToOr_Pattern1_def apply_AndToOr_Pattern2_def g_def x_def y_def)
  moreover have "short_circuit \<rho> f (label b1) (label b2) = Some (if (\<rho> c1 = (pat = Pattern1)) \<and> \<rho> c2 then t2 else e2)"
    for \<rho>
    unfolding short_circuit_alt ends_block_target [OF e1 assms(2)] ends_block_target [OF assms(5,6)]
    using assms(8,9) e2 by (cases "pat = Pattern1") auto
  moreover have "short_circuit \<rho> g (label b1) (label b2) = Some (if (\<rho> c1 = (pat = Pattern1)) \<or> \<rho> c2 then t2 else e2)"
    for \<rho>
    unfolding short_circuit_alt g_def rewritten_target [OF e1]
    using assms(7-11) e2 ends_block_target [OF assms(5,6)] by (cases "pat = Pattern1") (auto simp: x_def y_def)
  ultimately show ?thesis by auto
qed


text \<open>A function compiled from \<open>if (a && b)\<close> and one from \<open>if (a || b)\<close>, for the witnesses.\<close>

definition two_branches :: "string \<Rightarrow> string \<Rightarrow> string \<Rightarrow> string \<Rightarrow> ir_function" where
  "two_branches t1 e1 t2 e2 = \<lparr>fname = ''f'',
     blocks = [\<lparr>label = ''entry'', insts = [sample_inst ''br1'' (CondBr t1 e1 (ArgRef 0)) 3]\<rparr>,
       \<lparr>label = ''rhs'', insts = [sample_inst ''br2'' (CondBr t2 e2 (ArgRef 1)) 3]\<rparr>,
       \<lparr>label = ''then'', insts = [sample_inst ''r1'' (Ret None) 4]\<rparr>,
       \<lparr>label = ''end'', insts = [sample_inst ''r2'' (Ret None) 5]\<rparr>],
     subprogram = Some (sample_debug 2), param_count = 2, returns_void = True, internal_linkage = False\<rparr>"

definition sample_entry :: "string \<Rightarrow> string \<Rightarrow> branch" where
  "sample_entry t1 e1 =
     (\<lparr>label = ''entry'', insts = [sample_inst ''br1'' (CondBr t1 e1 (ArgRef 0)) 3]\<rparr>,
      sample_inst ''br1'' (CondBr t1 e1 (ArgRef 0)) 3)"

definition sample_rhs :: "string \<Rightarrow> string \<Rightarrow> branch" where
  "sample_rhs t2 e2 =
     (\<lparr>label = ''rhs'', insts = [sample_inst ''br2'' (CondBr t2 e2 (ArgRef 1)) 3]\<rparr>,
      sample_inst ''br2'' (CondBr t2 e2 (ArgRef 1)) 3)"

lemmas two_branches_defs = two_branches_def sample_entry_def sample_rhs_def sample_inst_def

lemma sample_branches:
  "branch_at (MutationPointAddress 0 0 0) (two_branches t1 e1 t2 e2) (sample_entry t1 e1)"
  "ends_block (two_branches t1 e1 t2 e2) (sample_rhs t2 e2)"
  by (simp_all add: two_branches_defs branch_at_def ends_block_def get_block_def at_next_def nth_opt_def
      MutationPointAddress_def)

lemma and_to_or_rewrites_conjunction_witness:
  "\<exists>g. AndToOr_applyMutation (MutationPointAddress 0 0 0) (two_branches ''rhs'' ''end'' ''then'' ''end'') = Inr g \<and>
    short_circuit (\<lambda>v. v = ArgRef 0) (two_branches ''rhs'' ''end'' ''then'' ''end'') ''entry'' ''rhs'' = Some ''end'' \<and>
    short_circuit (\<lambda>v. v = ArgRef 0) g ''entry'' ''rhs'' = Some ''then''"
proof -
  let ?f = "two_branches ''rhs'' ''end'' ''then'' ''end''"
  let ?b1 = "fst (sample_entry ''rhs'' ''end'')" and ?i1 = "snd (sample_entry ''rhs'' ''end'')"
  let ?b2 = "fst (sample_rhs ''then'' ''end'')" and ?i2 = "snd (sample_rhs ''then'' ''end'')"
  have find: "AndToOr_findPossibleMutationInBranch ?f (?b1, ?i1) = Some (Pattern1, ?b2, ?i2)"
    by (simp add: two_branches_defs AndToOr_findPossibleMutationInBranch_def is_conditional_def
        instructions_def and_or_classify_def)
  have ba: "branch_at (MutationPointAddress 0 0 0) ?f (?b1, ?i1)" and eb: "ends_block ?f (?b2, ?i2)"
    using sample_branches by simp_all
  have op1: "opcode ?i1 = CondBr ''rhs'' ''end'' (ArgRef 0)" and op2: "opcode ?i2 = CondBr ''then'' ''end'' (ArgRef 1)"
    by (simp_all add: two_branches_defs)
  have "\<exists>g. AndToOr_applyMutation (MutationPointAddress 0 0 0) ?f = Inr g \<and>
    (\<forall>\<rho> p. p = (\<rho> (ArgRef 0) = (Pattern1 = Pattern1)) \<longrightarrow>
       short_circuit \<rho> ?f (label ?b1) (label ?b2) = Some (if p \<and> \<rho> (ArgRef 1) then ''then'' else ''end'') \<and>
       short_circuit \<rho> g (label ?b1) (label ?b2) = Some (if p \<or> \<rho> (ArgRef 1) then ''then'' else ''end''))"
    by (rule and_to_or_rewrites_conjunction [OF ba op1 find _ eb op2]) (simp_all add: sample_entry_def sample_rhs_def)
  then obtain g where g: "AndToOr_applyMutation (MutationPointAddress 0 0 0) ?f = Inr g"
    and sc: "\<And>\<rho>. short_circuit \<rho> ?f (label ?b1) (label ?b2) =
        Some (if \<rho> (ArgRef 0) \<and> \<rho> (ArgRef 1) then ''then'' else ''end'') \<and>
      short_circuit \<rho> g (label ?b1) (label ?b2) =
        Some (if \<rho> (ArgRef 0) \<or> \<rho> (ArgRef 1) then ''then'' else ''end'')"
    by auto
  have l: "label ?b1 = ''entry''" "label ?b2 = ''rhs''" by (simp_all add: sample_entry_def sample_rhs_def)
  show ?thesis using g sc [of "\<lambda>v. v = ArgRef 0", unfolded l] by simp
qed

text \<open>C9. The converse mutator: the original function evaluates a disjunction of the two operands (the
  first one negated in the second pattern), the rewritten one their conjunction.\<close>

theorem or_to_and_rewrites_disjunction:
  assumes "branch_at a f (b1, i1)" "opcode i1 = CondBr t1 e1 c1"
    and "OrToAnd_findPossibleMutationInBranch f (b1, i1) = Some (pat, b2, i2)" "pat \<noteq> Pattern3"
    and "ends_block f (b2, i2)" "opcode i2 = CondBr t2 e2 c2" "label b2 \<noteq> label b1"
    and "label b2 = (if pat = Pattern1 then e1 else t1)"
    and "t1 \<noteq> e1" "t2 \<noteq> label b2" "e2 \<noteq> label b2"
  shows "\<exists>g. OrToAnd_applyMutation a f = Inr g \<and>
    (\<forall>\<rho> p. p = (\<rho> c1 = (pat = Pattern1)) \<longrightarrow>
       short_circuit \<rho> f (label b1) (label b2) = Some (if p \<or> \<rho> c2 then t2 else e2) \<and>
       short_circuit \<rho> g (label b1) (label b2) = Some (if p \<and> \<rho> c2 then t2 else e2))"
proof -
  have e1: "ends_block f (b1, i1)" using assms(1) by (simp add: branch_at_def ends_block_def)
  have "or_and_classify (b1, i1) b2 t2 e2 = Some pat"
    using scan_branches_Some assms(2,3,6)
    by (fastforce simp: OrToAnd_findPossibleMutationInBranch_def is_conditional_def)
  then have t2: "t2 = (if pat = Pattern1 then t1 else e1)"
    using assms(2,4) by (auto simp: or_and_classify_def split: if_splits)
  define x y where "x = (if pat = Pattern1 then e1 else e2)" and "y = (if pat = Pattern1 then e2 else t1)"
  define g where "g = update_phis e2 (label b1) b2 (replace_branch (b1, i1) (CondBr x y c1) f)"
  have "OrToAnd_applyMutation a f = Inr g"
    using assms(1-4,6)
    by (cases pat) (simp_all add: OrToAnd_applyMutation_def logical_applyMutation_def branch_at_def
        is_conditional_def apply_OrToAnd_Pattern1_def apply_OrToAnd_Pattern2_def g_def x_def y_def)
  moreover have "short_circuit \<rho> f (label b1) (label b2) = Some (if (\<rho> c1 = (pat = Pattern1)) \<or> \<rho> c2 then t2 else e2)"
    for \<rho>
    unfolding short_circuit_alt ends_block_target [OF e1 assms(2)] ends_block_target [OF assms(5,6)]
    using assms(8,9) t2 by (cases "pat = Pattern1") auto
  moreover have "short_circuit \<rho> g (label b1) (label b2) = Some (if (\<rho> c1 = (pat = Pattern1)) \<and> \<rho> c2 then t2 else e2)"
    for \<rho>
    unfolding short_circuit_alt g_def rewritten_target [OF e1]
    using assms(7-11) t2 ends_block_target [OF assms(5,6)] by (cases "pat = Pattern1") (auto simp: x_def y_def)
  ultimately show ?thesis by auto
qed

lemma or_to_and_rewrites_disjunction_witness:
  "\<exists>g. OrToAnd_applyMutation (MutationPointAddress 0 0 0) (two_branches ''then'' ''rhs'' ''then'' ''end'') = Inr g \<and>
    short_circuit (\<lambda>v. v = ArgRef 0) (two_branches ''then'' ''rhs'' ''then'' ''end'') ''entry'' ''rhs'' = Some ''then'' \<and>
    short_circuit (\<lambda>v. v = ArgRef 0) g ''entry'' ''rhs'' = Some ''end''"
proof -
  let ?f = "two_branches ''then'' ''rhs'' ''then'' ''end''"
  let ?b1 = "fst (sample_entry ''then'' ''rhs'')" and ?i1 = "snd (sample_entry ''then'' ''rhs'')"
  let ?b2 = "fst (sample_rhs ''then'' ''end'')" and ?i2 = "snd (sample_rhs ''then'' ''end'')"
  have find: "OrToAnd_findPossibleMutationInBranch ?f (?b1, ?i1) = Some (Pattern1, ?b2, ?i2)"
    by (simp add: two_branches_defs OrToAnd_findPossibleMutationInBranch_def is_conditional_def
        instructions_def or_and_classify_def)
  have ba: "branch_at (MutationPointAddress 0 0 0) ?f (?b1, ?i1)" and eb: "ends_block ?f (?b2, ?i2)"
    using sample_branches by simp_all
  have op1: "opcode ?i1 = CondBr ''then'' ''rhs'' (ArgRef 0)" and op2: "opcode ?i2 = CondBr ''then'' ''end'' (ArgRef 1)"
    by (simp_all add: two_branches_defs)
  have "\<exists>g. OrToAnd_applyMutation (MutationPointAddress 0 0 0) ?f = Inr g \<and>
    (\<forall>\<rho> p. p = (\<rho> (ArgRef 0) = (Pattern1 = Pattern1)) \<longrightarrow>
       short_circuit \<rho> ?f (label ?b1) (label ?b2) = Some (if p \<or> \<rho> (ArgRef 1) then ''then'' else ''end'') \<and>
       short_circuit \<rho> g (label ?b1) (label ?b2) = Some (if p \<and> \<rho> (ArgRef 1) then ''then'' else ''end''))"
    by (rule or_to_and_rewrites_disjunction [OF ba op1 find _ eb op2]) (simp_all add: sample_entry_def sample_rhs_def)
  then obtain g where g: "OrToAnd_applyMutation (MutationPointAddress 0 0 0) ?f = Inr g"
    and sc: "\<And>\<rho>. short_circuit \<rho> ?f (label ?b1) (label ?b2) =
        Some (if \<rho> (ArgRef 0) \<or> \<rho> (ArgRef 1) then ''then'' else ''end'') \<and>
      short_circuit \<rho> g (label ?b1) (label ?b2) =
        Some (if \<rho> (ArgRef 0) \<and> \<rho> (ArgRef 1) then ''then'' else ''end'')"
    by auto
  have l: "label ?b1 = ''entry''" "label ?b2 = ''rhs''" by (simp_all add: sample_entry_def sample_rhs_def)
  show ?thesis using g sc [of "\<lambda>v. v = ArgRef 0", unfolded l] by simp
qed


text \<open>
  The third pattern: the operator's value is a \<open>phi\<close> of the second branch's block, which the first
  branch reaches directly with a constant. \<open>phi_value\<close> is the value on arrival from a block.
\<close>

definition phi_value :: "ir_function \<Rightarrow> string \<Rightarrow> string \<Rightarrow> string \<Rightarrow> ir_value option" where
  "phi_value f l r from_block =
     Option.bind (get_block f l) (\<lambda>b. Option.bind (get_inst b r) (\<lambda>i.
       Option.bind (phi_incoming i) (\<lambda>ins. map_option fst (find (\<lambda>(_, x). x = from_block) ins))))"

text \<open>In the third pattern, when the first incoming value of the second block's first \<open>phi\<close> is a
  constant arriving from the first branch, the mutation swaps the targets of the first branch and
  negates that constant, so that the short cut is taken on the other value of the first operand, and
  with the other result.\<close>

lemma and_to_or_pattern3:
  assumes "branch_at a f (b1, i1)" "opcode i1 = CondBr t1 e1 c1"
    and "AndToOr_findPossibleMutationInBranch f (b1, i1) = Some (Pattern3, b2, i2)"
    and "get_block f (label b2) = Some b2" "label b2 \<noteq> label b1"
    and "find (\<lambda>i. phi_incoming i \<noteq> None) (insts b2) = Some phi" "get_inst b2 (iref phi) = Some phi"
    and "phi_incoming phi = Some ((ConstInt n, label b1) # rest)"
  shows "\<exists>g. AndToOr_applyMutation a f = Inr g \<and>
    (\<forall>\<rho>. Option.bind (get_block f (label b1)) (branch_target \<rho>) = Some (if \<rho> c1 then t1 else e1) \<and>
         Option.bind (get_block g (label b1)) (branch_target \<rho>) = Some (if \<rho> c1 then e1 else t1)) \<and>
    phi_value f (label b2) (iref phi) (label b1) = Some (ConstInt n) \<and>
    phi_value g (label b2) (iref phi) (label b1) = Some (ConstInt (if n = 0 then 1 else 0))"
proof -
  let ?flip = "Phi ((ConstInt (if n \<noteq> 0 then 0 else 1), label b1) # rest)"
  let ?f1 = "update_block (label b2) (map (\<lambda>i. if iref i = iref phi then i\<lparr>opcode := ?flip\<rparr> else i)) f"
  let ?g = "replace_branch (b1, i1) (CondBr e1 t1 c1) ?f1"
  have ins: "insts b1 = butlast (insts b1) @ [i1]"
    using assms(1) by (metis append_butlast_last_id branch_at_def fst_conv snd_conv)
  have g1: "get_block f (label b1) = Some b1" using assms(1) by (simp add: branch_at_def)
  then have f1: "get_block ?f1 (label b1) = Some b1"
    using assms(5) by (simp add: get_update_block)
  have app: "AndToOr_applyMutation a f = Inr ?g"
    using assms(1-3,6,8)
    by (simp add: AndToOr_applyMutation_def logical_applyMutation_def branch_at_def is_conditional_def
        apply_AndToOr_Pattern3_def Let_def)
  have "get_inst (b2\<lparr>insts := map (\<lambda>i. if iref i = iref phi then i\<lparr>opcode := ?flip\<rparr> else i) (insts b2)\<rparr>) (iref phi) =
      Some (phi\<lparr>opcode := ?flip\<rparr>)"
  proof -
    have "find (\<lambda>i. iref i = r) (map (\<lambda>i. if iref i = r then i\<lparr>opcode := x\<rparr> else i) is) =
        map_option (\<lambda>i. i\<lparr>opcode := x\<rparr>) (find (\<lambda>i. iref i = r) is)" for r x and "is" :: "instruction list"
      by (induction "is") auto
    then show ?thesis using assms(7) by (simp add: get_inst_def)
  qed
  then have "phi_value ?g (label b2) (iref phi) (label b1) = Some (ConstInt (if n = 0 then 1 else 0))"
    using assms(4,5) by (simp add: phi_value_def replace_branch_def get_update_block)
  moreover have "phi_value f (label b2) (iref phi) (label b1) = Some (ConstInt n)"
    using assms(4,7,8) by (simp add: phi_value_def)
  moreover have "Option.bind (get_block f (label b1)) (branch_target \<rho>) = Some (if \<rho> c1 then t1 else e1)" for \<rho>
    using g1 assms(1,2) by (simp add: branch_target_def branch_at_def)
  moreover have "Option.bind (get_block ?g (label b1)) (branch_target \<rho>) = Some (if \<rho> c1 then e1 else t1)" for \<rho>
    using target_replace_branch [OF f1 ins] by simp
  ultimately show ?thesis using app by blast
qed

text \<open>Compiled from \<open>x = a && b; if (x) ...\<close> without optimisation.\<close>

definition phi_function :: ir_function where
  "phi_function = \<lparr>fname = ''f'',
     blocks = [\<lparr>label = ''entry'', insts = [sample_inst ''br1'' (CondBr ''rhs'' ''end'' (ArgRef 0)) 3]\<rparr>,
       \<lparr>label = ''rhs'', insts = [sample_inst ''br2'' (Br ''end'') 3]\<rparr>,
       \<lparr>label = ''end'', insts =
          [sample_inst ''x'' (Phi [(ConstInt 0, ''entry''), (ArgRef 1, ''rhs'')]) 3,
           sample_inst ''br3'' (CondBr ''then'' ''else'' (InstRef ''x'')) 4]\<rparr>,
       \<lparr>label = ''then'', insts = [sample_inst ''r1'' (Ret None) 5]\<rparr>,
       \<lparr>label = ''else'', insts = [sample_inst ''r2'' (Ret None) 6]\<rparr>],
     subprogram = Some (sample_debug 2), param_count = 2, returns_void = True, internal_linkage = False\<rparr>"

lemma and_to_or_pattern3_witness:
  "\<exists>g. AndToOr_applyMutation (MutationPointAddress 0 0 0) phi_function = Inr g \<and>
     phi_value g ''end'' ''x'' ''entry'' = Some (ConstInt 1)"
proof -
  let ?b1 = "\<lparr>label = ''entry'', insts = [sample_inst ''br1'' (CondBr ''rhs'' ''end'' (ArgRef 0)) 3]\<rparr>"
  let ?i1 = "sample_inst ''br1'' (CondBr ''rhs'' ''end'' (ArgRef 0)) 3"
  let ?phi = "sample_inst ''x'' (Phi [(ConstInt 0, ''entry''), (ArgRef 1, ''rhs'')]) 3"
  let ?i2 = "sample_inst ''br3'' (CondBr ''then'' ''else'' (InstRef ''x'')) 4"
  let ?b2 = "\<lparr>label = ''end'', insts = [?phi, ?i2]\<rparr>"
  have ba: "branch_at (MutationPointAddress 0 0 0) phi_function (?b1, ?i1)"
    by (simp add: phi_function_def branch_at_def at_next_def nth_opt_def MutationPointAddress_def get_block_def)
  have op: "opcode ?i1 = CondBr ''rhs'' ''end'' (ArgRef 0)" by (simp add: sample_inst_def)
  have fi: "AndToOr_findPossibleMutationInBranch phi_function (?b1, ?i1) = Some (Pattern3, ?b2, ?i2)"
    by (simp add: phi_function_def AndToOr_findPossibleMutationInBranch_def is_conditional_def
        instructions_def and_or_classify_def has_other_incoming_def sample_inst_def)
  have b2: "get_block phi_function (label ?b2) = Some ?b2"
    by (simp add: phi_function_def get_block_def)
  have ph: "find (\<lambda>i. phi_incoming i \<noteq> None) (insts ?b2) = Some ?phi" "get_inst ?b2 (iref ?phi) = Some ?phi"
    "phi_incoming ?phi = Some ((ConstInt 0, label ?b1) # [(ArgRef 1, ''rhs'')])"
    by (simp_all add: get_inst_def sample_inst_def)
  have "label ?b2 \<noteq> label ?b1" by simp
  from and_to_or_pattern3 [OF ba op fi b2 this ph] show ?thesis by (auto simp: sample_inst_def)
qed

section \<open>Where the repair of the \<open>phi\<close> nodes stops\<close>

definition predecessors :: "ir_function \<Rightarrow> string \<Rightarrow> string list" where
  "predecessors f l = map label (filter (\<lambda>b. l \<in> set (successors b)) (blocks f))"

text \<open>LLVM's rule for \<open>phi\<close> nodes: one entry for each predecessor.\<close>

definition phis_match :: "ir_function \<Rightarrow> bool" where
  "phis_match f \<longleftrightarrow>
     list_all (\<lambda>b. list_all (\<lambda>i. case phi_incoming i of None \<Rightarrow> True
        | Some ins \<Rightarrow> set (map snd ins) = set (predecessors f (label b))) (insts b)) (blocks f)"

text \<open>Compiled from \<open>int x = 0; if (a && b) x = 1; use(x);\<close> with the variable in a register.\<close>

definition register_function :: ir_function where
  "register_function = \<lparr>fname = ''f'',
     blocks = [\<lparr>label = ''entry'', insts = [sample_inst ''br1'' (CondBr ''rhs'' ''end'' (ArgRef 0)) 3]\<rparr>,
       \<lparr>label = ''rhs'', insts = [sample_inst ''br2'' (CondBr ''then'' ''end'' (ArgRef 1)) 3]\<rparr>,
       \<lparr>label = ''then'', insts = [sample_inst ''br3'' (Br ''end'') 4]\<rparr>,
       \<lparr>label = ''end'', insts =
          [sample_inst ''x'' (Phi [(ConstInt 1, ''then''), (ConstInt 0, ''rhs''), (ConstInt 0, ''entry'')]) 5,
           sample_inst ''ret'' (Ret (Some (InstRef ''x''))) 6]\<rparr>],
     subprogram = Some (sample_debug 2), param_count = 2, returns_void = False, internal_linkage = False\<rparr>"

text \<open>The block a function loses a jump from when a branch is rewritten.\<close>

lemma successors_target: "l \<in> set (successors b) \<Longrightarrow> \<exists>\<rho>. branch_target \<rho> b = Some l"
proof -
  assume l: "l \<in> set (successors b)"
  then have "insts b \<noteq> []" by (auto simp: successors_def)
  then have "branch_target (\<lambda>_. True) b = Some l \<or> branch_target (\<lambda>_. False) b = Some l"
    using l by (auto simp: successors_def branch_target_def neq_Nil_conv split: ir_op.splits if_splits)
  then show ?thesis by blast
qed

lemma target_successors: "branch_target \<rho> b = Some l \<Longrightarrow> l \<in> set (successors b)"
  by (cases "insts b") (auto simp: successors_def branch_target_def split: ir_op.splits if_splits)

lemma labels_update_block [simp]: "map label (blocks (update_block l u f)) = map label (blocks f)"
  by (auto simp: update_block_def)

lemma labels_update_phis [simp]: "map label (blocks (update_phis t new b f)) = map label (blocks f)"
proof -
  have "map label (blocks (foldl (\<lambda>f s. if t \<noteq> s then f else update_block s (add_incoming x new) f) f ss)) =
      map label (blocks f)" for ss x
    by (induction ss arbitrary: f) simp_all
  then show ?thesis by (simp add: update_phis_def)
qed

lemma get_block_distinct:
  "distinct (map label (blocks f)) \<Longrightarrow> b \<in> set (blocks f) \<Longrightarrow> get_block f (label b) = Some b"
proof -
  have "distinct (map label bs) \<Longrightarrow> b \<in> set bs \<Longrightarrow> find (\<lambda>c. label c = label b) bs = Some b" for bs
    by (induction bs) (auto simp: image_iff)
  then show "distinct (map label (blocks f)) \<Longrightarrow> b \<in> set (blocks f) \<Longrightarrow> get_block f (label b) = Some b"
    by (simp add: get_block_def)
qed

lemma get_block_update_phis:
  assumes "l \<noteq> t"
  shows "get_block (update_phis t new b f) l = get_block f l"
proof -
  have "get_block (foldl (\<lambda>f s. if t \<noteq> s then f else update_block s (add_incoming x new) f) f ss) l = get_block f l"
    for ss x
    by (induction ss arbitrary: f) (use assms in \<open>auto simp: get_update_block option.map_ident\<close>)
  then show ?thesis by (simp add: update_phis_def)
qed

lemma phis_matchD:
  assumes "phis_match f" "b \<in> set (blocks f)" "i \<in> set (insts b)" "phi_incoming i = Some ins"
  shows "set (map snd ins) = set (predecessors f (label b))"
proof -
  have "case phi_incoming i of None \<Rightarrow> True | Some ins \<Rightarrow> set (map snd ins) = set (predecessors f (label b))"
    using assms(1-3) unfolding phis_match_def list_all_iff by blast
  then show ?thesis unfolding assms(4) by simp
qed

text \<open>C28. The first pattern leaves the block that loses a predecessor as it is. The first branch goes to the
  false block of both branches before the mutation and no longer afterwards, when its true block and the
  true block of the second branch are others; but a \<open>phi\<close> node of that block keeps its entry for the first
  branch's block. So where the \<open>phi\<close> nodes of a function match the predecessors of their blocks and the
  false block has one, those of the mutated function do not match any more.\<close>

theorem pattern1_leaves_stale_phi:
  assumes "branch_at a f (b1, i1)" "opcode i1 = CondBr t1 e1 c1"
    and "AndToOr_findPossibleMutationInBranch f (b1, i1) = Some (Pattern1, b2, i2)" "opcode i2 = CondBr t2 e2 c2"
    and "distinct (map label (blocks f))" "phis_match f"
    and "t1 \<noteq> e1" "t2 \<noteq> e1" "e1 \<noteq> label b1"
    and "get_block f e1 = Some b3" "phi \<in> set (insts b3)" "phi_incoming phi = Some ins"
  shows "\<exists>g. AndToOr_applyMutation a f = Inr g \<and> e2 = e1 \<and>
    label b1 \<in> set (predecessors f e1) \<and> label b1 \<notin> set (predecessors g e1) \<and>
    get_block g e1 = Some b3 \<and> label b1 \<in> snd ` set ins \<and> \<not> phis_match g"
proof -
  have eb: "ends_block f (b1, i1)" using assms(1) by (simp add: branch_at_def ends_block_def)
  have e2: "e2 = e1"
    using scan_branches_Some assms(2,3,4)
    by (fastforce simp: AndToOr_findPossibleMutationInBranch_def is_conditional_def and_or_classify_def split: if_splits)
  define g where "g = update_phis t2 (label b1) b2 (replace_branch (b1, i1) (CondBr t2 t1 c1) f)"
  have app: "AndToOr_applyMutation a f = Inr g"
    using assms(1-4)
    by (simp add: AndToOr_applyMutation_def logical_applyMutation_def branch_at_def is_conditional_def
        apply_AndToOr_Pattern1_def g_def)
  have b1: "get_block f (label b1) = Some b1" using assms(1) by (simp add: branch_at_def)
  then have in1: "b1 \<in> set (blocks f)" by (auto simp: get_block_def find_Some_iff)
  have b3: "b3 \<in> set (blocks f)" "label b3 = e1" using assms(10) by (auto simp: get_block_def find_Some_iff)
  have "branch_target (\<lambda>_. False) b1 = Some e1"
    using ends_block_target [OF eb assms(2), of "\<lambda>_. False"] b1 by simp
  then have pre: "label b1 \<in> set (predecessors f e1)"
    using in1 target_successors by (auto simp: predecessors_def)
  then have entry: "label b1 \<in> snd ` set ins"
    using phis_matchD [OF assms(6) b3(1) assms(11,12)] b3(2) by auto
  have labels: "distinct (map label (blocks g))" using assms(5) by (simp add: g_def replace_branch_def)
  have g3: "get_block g e1 = Some b3"
    using assms(8-10) by (simp add: g_def get_block_update_phis replace_branch_def get_update_block option.map_ident)
  have gone: "label b1 \<notin> set (predecessors g e1)"
  proof
    assume "label b1 \<in> set (predecessors g e1)"
    then obtain b where b: "b \<in> set (blocks g)" "label b = label b1" "e1 \<in> set (successors b)"
      by (auto simp: predecessors_def)
    from successors_target [OF b(3)] obtain \<rho> where "branch_target \<rho> b = Some e1" by blast
    then have "Option.bind (get_block g (label b1)) (branch_target \<rho>) = Some e1"
      using get_block_distinct [OF labels b(1)] b(2) by simp
    then show False using rewritten_target [OF eb, of t2 "label b1" b2 t2 t1 c1 "label b1" \<rho>] assms(7,8)
      by (auto simp: g_def split: if_splits)
  qed
  have "b3 \<in> set (blocks g)" using g3 by (auto simp: get_block_def find_Some_iff)
  then have "\<not> phis_match g" using phis_matchD [OF _ _ assms(11,12), of g] gone entry b3(2) by auto
  with app e2 pre gone g3 entry show ?thesis by blast
qed

lemma pattern1_leaves_stale_phi_witness:
  "phis_match register_function \<and>
   (\<exists>g. AndToOr_applyMutation (MutationPointAddress 0 0 0) register_function = Inr g \<and> \<not> phis_match g \<and>
      ''entry'' \<notin> set (predecessors g ''end''))"
proof -
  let ?i1 = "sample_inst ''br1'' (CondBr ''rhs'' ''end'' (ArgRef 0)) 3"
  let ?b1 = "\<lparr>label = ''entry'', insts = [?i1]\<rparr>"
  let ?i2 = "sample_inst ''br2'' (CondBr ''then'' ''end'' (ArgRef 1)) 3"
  let ?b2 = "\<lparr>label = ''rhs'', insts = [?i2]\<rparr>"
  let ?phi = "sample_inst ''x'' (Phi [(ConstInt 1, ''then''), (ConstInt 0, ''rhs''), (ConstInt 0, ''entry'')]) 5"
  let ?b3 = "\<lparr>label = ''end'', insts = [?phi, sample_inst ''ret'' (Ret (Some (InstRef ''x''))) 6]\<rparr>"
  have m: "phis_match register_function"
    by (simp add: phis_match_def predecessors_def successors_def register_function_def sample_inst_def insert_commute)
  have ba: "branch_at (MutationPointAddress 0 0 0) register_function (?b1, ?i1)"
    by (simp add: register_function_def branch_at_def at_next_def nth_opt_def MutationPointAddress_def get_block_def)
  have fi: "AndToOr_findPossibleMutationInBranch register_function (?b1, ?i1) = Some (Pattern1, ?b2, ?i2)"
    by (simp add: register_function_def AndToOr_findPossibleMutationInBranch_def is_conditional_def
        instructions_def and_or_classify_def sample_inst_def)
  have op: "opcode ?i1 = CondBr ''rhs'' ''end'' (ArgRef 0)" "opcode ?i2 = CondBr ''then'' ''end'' (ArgRef 1)"
    "phi_incoming ?phi = Some [(ConstInt 1, ''then''), (ConstInt 0, ''rhs''), (ConstInt 0, ''entry'')]"
    by (simp_all add: sample_inst_def)
  have b3: "get_block register_function ''end'' = Some ?b3" by (simp add: register_function_def get_block_def)
  have d: "distinct (map label (blocks register_function))" by (simp add: register_function_def)
  from pattern1_leaves_stale_phi [OF ba op(1) fi op(2) d m _ _ _ b3 _ op(3)] m show ?thesis by auto
qed

end
