(* ===== verification/Configuration.thy ===== *)
theory Configuration
  imports Prelude
begin

text \<open>
  \<open>lib/Config/Configuration.cpp\<close> and \<open>lib/Config/ConfigurationOptions.cpp\<close>: what the command line
  selects. \<open>hardware_concurrency\<close> is the machine's, a parameter.
\<close>

record ParallelizationConfig =
  workers :: int
  testExecutionWorkers :: int
  mutantExecutionWorkers :: int

definition new_ParallelizationConfig :: ParallelizationConfig where
  "new_ParallelizationConfig =
     \<lparr>workers = 0, testExecutionWorkers = 0, mutantExecutionWorkers = 0\<rparr>"

definition singleThreadParallelization :: ParallelizationConfig where
  "singleThreadParallelization =
     \<lparr>workers = 1, testExecutionWorkers = 1, mutantExecutionWorkers = 1\<rparr>"

text \<open>\<open>std::max\<close> is taken on \<open>unsigned\<close>, the result stored in an \<open>int\<close>.\<close>

definition default_workers :: "32 word \<Rightarrow> int" where
  "default_workers hardware_concurrency = sint (max hardware_concurrency 1)"

definition normalize :: "32 word \<Rightarrow> ParallelizationConfig \<Rightarrow> ParallelizationConfig" where
  "normalize hardware_concurrency c =
     (let c1 = (if workers c = 0 then c\<lparr>workers := default_workers hardware_concurrency\<rparr> else c);
          c2 = (if testExecutionWorkers c1 = 0 then c1\<lparr>testExecutionWorkers := workers c1\<rparr> else c1)
      in if mutantExecutionWorkers c2 = 0 then c2\<lparr>mutantExecutionWorkers := workers c2\<rparr> else c2)"

definition defaultConfig :: "32 word \<Rightarrow> ParallelizationConfig" where
  "defaultConfig hardware_concurrency = normalize hardware_concurrency new_ParallelizationConfig"

datatype IDEDiagnosticsKind = DiagNone | DiagSurvived | DiagKilled | DiagAll

record Configuration =
  debugEnabled :: bool
  dryRunEnabled :: bool
  captureTestOutput :: bool
  captureMutantOutput :: bool
  skipSanityCheckRun :: bool
  includeNotCovered :: bool
  keepObjectFiles :: bool
  keepExecutable :: bool
  mutateOnly :: bool
  timeout :: int
  linkerTimeout :: int
  ide_diagnostics :: IDEDiagnosticsKind
  bitcodePaths :: "string list"
  executable :: string
  outputFile :: string
  coverageInfo :: string
  linker :: string
  linkerFlags :: "string list"
  parallelization :: ParallelizationConfig

definition MullDefaultTimeoutMilliseconds :: int where
  "MullDefaultTimeoutMilliseconds = 3000"

definition MullDefaultLinkerTimeoutMilliseconds :: int where
  "MullDefaultLinkerTimeoutMilliseconds = 30000"

definition new_Configuration :: Configuration where
  "new_Configuration =
     \<lparr>debugEnabled = False, dryRunEnabled = False, captureTestOutput = True, captureMutantOutput = True,
      skipSanityCheckRun = False, includeNotCovered = False, keepObjectFiles = False,
      keepExecutable = False, mutateOnly = False, timeout = MullDefaultTimeoutMilliseconds,
      linkerTimeout = MullDefaultLinkerTimeoutMilliseconds, ide_diagnostics = DiagNone,
      bitcodePaths = [], executable = [], outputFile = [], coverageInfo = [], linker = [],
      linkerFlags = [], parallelization = singleThreadParallelization\<rparr>"

lemma normalize_workers:
  "workers (normalize h c) = (if workers c = 0 then default_workers h else workers c)"
  by (simp add: normalize_def Let_def)

lemma normalize_mutantExecutionWorkers:
  "mutantExecutionWorkers (normalize h c) =
     (if mutantExecutionWorkers c = 0 then workers (normalize h c) else mutantExecutionWorkers c)"
  by (simp add: normalize_def Let_def)

lemma default_workers_positive:
  assumes "uint h < 2 ^ 31"
  shows "0 < default_workers h"
proof (cases "h \<le> 1")
  case True
  then show ?thesis by (simp add: default_workers_def max_def)
next
  case False
  then have "1 < uint h" by (simp add: word_le_def)
  then show ?thesis using assms False by (simp add: default_workers_def max_def sint_small)
qed

end
