(* ===== verification/MutantRunner.thy ===== *)
theory MutantRunner
  imports Tasks Mutants Configuration
begin

text \<open>
  Running programs: \<open>lib/Toolchain/Runner.cpp\<close>, \<open>lib/MutantRunner.cpp\<close>,
  \<open>lib/Parallelization/Tasks/MutantExecutionTask.cpp\<close> and \<open>lib/Toolchain/Linker.cpp\<close>. What a process
  does is not Mull's: a function \<open>world\<close> gives the outcome of a request made at a certain point in time,
  so that the same request may have different outcomes at different times.
\<close>

section \<open>Execution results\<close>

datatype ExecutionStatus =
    Invalid | Failed | Passed | Timedout | Crashed | AbnormalExit | DryRun | FailFast | NotCovered

fun executionStatusAsString :: "ExecutionStatus \<Rightarrow> string" where
  "executionStatusAsString Invalid = ''Invalid''"
| "executionStatusAsString Failed = ''Failed''"
| "executionStatusAsString Passed = ''Passed''"
| "executionStatusAsString Timedout = ''Timedout''"
| "executionStatusAsString Crashed = ''Crashed''"
| "executionStatusAsString AbnormalExit = ''AbnormalExit''"
| "executionStatusAsString DryRun = ''DryRun''"
| "executionStatusAsString FailFast = ''FailFast''"
| "executionStatusAsString NotCovered = ''NotCovered''"

record ExecutionResult =
  status :: ExecutionStatus
  exitStatus :: int
  runningTime :: int
  stdoutOutput :: string
  stderrOutput :: string

definition new_ExecutionResult :: ExecutionResult where
  "new_ExecutionResult =
     \<lparr>status = Invalid, exitStatus = 0, runningTime = 0, stdoutOutput = [], stderrOutput = []\<rparr>"

record MutationResult =
  execution_result :: ExecutionResult
  result_mutant :: mutant

section \<open>Runner\<close>

record process_request =
  command :: "string list"
  extra_env :: "(string \<times> string) list"
  working_directory :: "string option"
  wait_milliseconds :: int

datatype start_error = NoSuchFile | OtherError string

record process_outcome =
  start_failure :: "start_error option"
  wait_timed_out :: bool
  wait_status :: int
  process_stdout :: string
  process_stderr :: string
  elapsed :: int

type_synonym world = "nat \<Rightarrow> process_request \<Rightarrow> process_outcome"

definition drainProcess :: "process_outcome \<Rightarrow> bool \<Rightarrow> string \<times> string" where
  "drainProcess p captureOutput =
     (if \<not> captureOutput then ([], []) else (process_stdout p, process_stderr p))"

definition cannot_run_message :: "string \<Rightarrow> process_outcome \<Rightarrow> string list \<Rightarrow> string" where
  "cannot_run_message message p allArguments =
     ''Cannot run executable: '' @ message @ newline @
     ''stdout: '' @ fst (drainProcess p True) @ newline @
     ''stderr: '' @ snd (drainProcess p True) @ newline @
     ''command: '' @ concat (map (\<lambda>a. a @ '' '') allArguments) @ newline"

text \<open>\<open>runProgram\<close> up to its calls of \<open>diagnostics.error\<close>, whose message is the left value.\<close>

definition run_process ::
  "(process_request \<Rightarrow> process_outcome) \<Rightarrow> string \<Rightarrow> string list \<Rightarrow> string list \<Rightarrow> int \<Rightarrow> bool \<Rightarrow>
     string option \<Rightarrow> string + ExecutionResult" where
  "run_process exec program arguments environment milliseconds captureOutput workingDirectory =
     (let env = map (\<lambda>e. (e, ''1'')) environment;
          allArguments = [program] @ arguments;
          p = exec \<lparr>command = allArguments, extra_env = env, working_directory = workingDirectory,
                     wait_milliseconds = milliseconds\<rparr>
      in case start_failure p of
           Some NoSuchFile \<Rightarrow> Inl (''Executable not found: '' @ program)
         | Some (OtherError message) \<Rightarrow> Inl (cannot_run_message message p allArguments)
         | None \<Rightarrow>
             (let executionStatus =
                    (if wait_timed_out p then Timedout else if wait_status p = 0 then Passed else Failed);
                  outputs = drainProcess p captureOutput
              in Inr \<lparr>status = executionStatus, exitStatus = wait_status p, runningTime = elapsed p,
                      stdoutOutput = fst outputs, stderrOutput = snd outputs\<rparr>))"

definition runProgram ::
  "(process_request \<Rightarrow> process_outcome) \<Rightarrow> string \<Rightarrow> string list \<Rightarrow> string list \<Rightarrow> int \<Rightarrow> bool \<Rightarrow>
     string option \<Rightarrow> ExecutionResult diag" where
  "runProgram exec program arguments environment milliseconds captureOutput workingDirectory =
     (case run_process exec program arguments environment milliseconds captureOutput workingDirectory of
        Inl message \<Rightarrow> diag_error message
      | Inr r \<Rightarrow> diag_return r)"

text \<open>In a worker thread the error ends the process.\<close>

definition runProgram_in_task ::
  "(process_request \<Rightarrow> process_outcome) \<Rightarrow> string \<Rightarrow> string list \<Rightarrow> string list \<Rightarrow> int \<Rightarrow> bool \<Rightarrow>
     string option \<Rightarrow> ExecutionResult result" where
  "runProgram_in_task exec program arguments environment milliseconds captureOutput workingDirectory =
     (case run_process exec program arguments environment milliseconds captureOutput workingDirectory of
        Inl message \<Rightarrow> Inl (Exited 1)
      | Inr r \<Rightarrow> Inr r)"

section \<open>Mutants\<close>

text \<open>
  \<open>MutantExecutionTask\<close> on one mutant; \<open>k\<close> is the mutant's position in the vector, which stands for the
  time at which it runs.
\<close>

definition run_mutant ::
  "world \<Rightarrow> Configuration \<Rightarrow> string \<Rightarrow> ExecutionResult \<Rightarrow> string list \<Rightarrow> nat \<times> mutant \<Rightarrow>
     MutationResult result" where
  "run_mutant world cfg program baseline extraArgs km =
     (let (k, m) = km in
      if mutant_covered m
      then bind_result
        (runProgram_in_task (world (2 + k)) program extraArgs [mutant_identifier m]
           (runningTime baseline * 10) (captureMutantOutput cfg) None)
        (\<lambda>r. Inr \<lparr>execution_result = r, result_mutant = m\<rparr>)
      else Inr \<lparr>execution_result = new_ExecutionResult\<lparr>status := NotCovered\<rparr>, result_mutant = m\<rparr>)"

text \<open>The warm-up run is made at time 0, the baseline run at time 1.\<close>

definition runMutants ::
  "world \<Rightarrow> Configuration \<Rightarrow> string \<Rightarrow> string list \<Rightarrow> mutant list \<Rightarrow> MutationResult list diag" where
  "runMutants world cfg program extraArgs mutants =
     diag_bind (runProgram (world 0) program extraArgs [] (timeout cfg) (captureMutantOutput cfg) None) (\<lambda>_.
     diag_bind (runProgram (world 1) program extraArgs [] (timeout cfg) (captureMutantOutput cfg) None) (\<lambda>baseline.
     diag_lift
       (run_tasks (mutantExecutionWorkers (parallelization cfg))
         (\<lambda>km. [run_mutant world cfg program baseline extraArgs km]) (enumerate 0 mutants))))"

section \<open>Linker\<close>

text \<open>\<open>temporary\<close> is \<open>createTemporaryFile\<close>: an error message or the path of the new file.\<close>

definition outputFileName :: "(string \<Rightarrow> string \<Rightarrow> string + string) \<Rightarrow> Configuration \<Rightarrow> string diag" where
  "outputFileName temporary cfg =
     (if outputFile cfg = []
      then (case temporary ''mull'' ''exe'' of
              Inl err \<Rightarrow> diag_error (''Cannot create temporary file'' @ err)
            | Inr path \<Rightarrow> diag_return path)
      else diag_return (outputFile cfg))"

definition link_failure_message :: "ExecutionResult \<Rightarrow> string \<Rightarrow> string" where
  "link_failure_message r cmd =
     ''Cannot link program'' @ newline @
     ''status: '' @ executionStatusAsString (status r) @ newline @
     ''time: '' @ string_of_int (runningTime r) @ ''ms'' @ newline @
     ''exit: '' @ string_of_int (exitStatus r) @ newline @
     ''command: '' @ cmd @ newline @
     ''stdout: '' @ stdoutOutput r @ newline @
     ''stderr: '' @ stderrOutput r @ newline"

definition linkObjectFiles ::
  "(process_request \<Rightarrow> process_outcome) \<Rightarrow> (string \<Rightarrow> string \<Rightarrow> string + string) \<Rightarrow> Configuration \<Rightarrow>
     string list \<Rightarrow> string diag" where
  "linkObjectFiles exec temporary cfg objects =
     diag_bind (outputFileName temporary cfg) (\<lambda>output_file.
     let arguments = linkerFlags cfg @ objects @ [''-o'', output_file];
         cmd = linker cfg @ concat (map (\<lambda>a. '' '' @ a) arguments)
     in diag_bind (runProgram exec (linker cfg) arguments [] (linkerTimeout cfg) True None) (\<lambda>r.
        diag_bind (if status r \<noteq> Passed then diag_error (link_failure_message r cmd) else diag_return ())
          (\<lambda>_. diag_bind (diag_debug (''Link command: '' @ cmd)) (\<lambda>_. diag_return output_file))))"

section \<open>Properties\<close>

definition starts :: "world \<Rightarrow> bool" where
  "starts world \<longleftrightarrow> (\<forall>k req. start_failure (world k req) = None)"

definition execution_of :: "process_outcome \<Rightarrow> bool \<Rightarrow> ExecutionResult" where
  "execution_of p capture =
     \<lparr>status = (if wait_timed_out p then Timedout else if wait_status p = 0 then Passed else Failed),
      exitStatus = wait_status p, runningTime = elapsed p,
      stdoutOutput = (if capture then process_stdout p else []),
      stderrOutput = (if capture then process_stderr p else [])\<rparr>"

lemma run_process_starts:
  assumes "start_failure (exec \<lparr>command = program # arguments, extra_env = map (\<lambda>e. (e, ''1'')) environment,
      working_directory = cwd, wait_milliseconds = t\<rparr>) = None"
  shows "run_process exec program arguments environment t capture cwd =
    Inr (execution_of (exec \<lparr>command = program # arguments, extra_env = map (\<lambda>e. (e, ''1'')) environment,
      working_directory = cwd, wait_milliseconds = t\<rparr>) capture)"
  using assms by (simp add: run_process_def Let_def execution_of_def drainProcess_def)

lemma run_mutant_starts:
  assumes "starts world"
  shows "run_mutant world cfg program baseline extraArgs (k, m) =
    Inr \<lparr>execution_result =
           (if mutant_covered m
            then execution_of (world (2 + k)
              \<lparr>command = program # extraArgs, extra_env = [(mutant_identifier m, ''1'')],
               working_directory = None, wait_milliseconds = runningTime baseline * 10\<rparr>)
              (captureMutantOutput cfg)
            else new_ExecutionResult\<lparr>status := NotCovered\<rparr>),
         result_mutant = m\<rparr>"
  using assms by (simp add: run_mutant_def runProgram_in_task_def run_process_starts starts_def)

definition baseline_request :: "Configuration \<Rightarrow> string \<Rightarrow> string list \<Rightarrow> process_request" where
  "baseline_request cfg program extraArgs =
     \<lparr>command = program # extraArgs, extra_env = [], working_directory = None,
      wait_milliseconds = timeout cfg\<rparr>"

lemma runMutants_starts:
  assumes "starts world" "0 < mutantExecutionWorkers (parallelization cfg)" "length mutants < 2 ^ 31"
  shows "runMutants world cfg program extraArgs mutants d =
    (d, Inr (map (\<lambda>(k, m).
      \<lparr>execution_result =
         (if mutant_covered m
          then execution_of (world (2 + k)
            \<lparr>command = program # extraArgs, extra_env = [(mutant_identifier m, ''1'')],
             working_directory = None,
             wait_milliseconds = 10 * elapsed (world 1 (baseline_request cfg program extraArgs))\<rparr>)
            (captureMutantOutput cfg)
          else new_ExecutionResult\<lparr>status := NotCovered\<rparr>),
       result_mutant = m\<rparr>) (enumerate 0 mutants)))"
proof -
  have run: "runProgram (world k) program extraArgs [] (timeout cfg) (captureMutantOutput cfg) None =
    diag_return (execution_of (world k (baseline_request cfg program extraArgs)) (captureMutantOutput cfg))" for k
    using assms(1) by (simp add: runProgram_def run_process_starts starts_def baseline_request_def)
  have tasks: "run_tasks (mutantExecutionWorkers (parallelization cfg))
       (\<lambda>km. [run_mutant world cfg program b extraArgs km]) (enumerate 0 mutants) =
    Inr (map (\<lambda>km. projr (run_mutant world cfg program b extraArgs km)) (enumerate 0 mutants))" for b
  proof -
    have "(\<lambda>km. [run_mutant world cfg program b extraArgs km]) =
      (\<lambda>km. [Inr (projr (run_mutant world cfg program b extraArgs km))])"
      using run_mutant_starts [OF assms(1)] by (auto simp: fun_eq_iff)
    then show ?thesis
      using run_tasks_one_each [of _ "enumerate 0 mutants"] assms(2,3) by simp
  qed
  show ?thesis
    by (auto simp: runMutants_def run tasks st_lift_def run_mutant_starts [OF assms(1)] execution_of_def
        mult.commute)
qed

text \<open>C16. When programs can be started and there is a worker, \<open>runMutants\<close> gives one result per mutant, in
  the order of the mutants: a covered mutant ran exactly once, with its identifier set to 1 in the
  environment and ten times the baseline's running time as its limit, and its result is the outcome
  of that run (timed out, passed on exit status 0, failed otherwise); a mutant that is not covered
  did not run and is \<open>NotCovered\<close>.\<close>

theorem mutants_run_with_baseline_limit:
  assumes "starts world" "0 < mutantExecutionWorkers (parallelization cfg)" "length mutants < 2 ^ 31"
  shows "runMutants world cfg program extraArgs mutants d =
    (d, Inr (map (\<lambda>(k, m).
      \<lparr>execution_result =
         (if mutant_covered m
          then execution_of (world (2 + k)
            \<lparr>command = program # extraArgs, extra_env = [(mutant_identifier m, ''1'')],
             working_directory = None,
             wait_milliseconds = 10 * elapsed (world 1 (baseline_request cfg program extraArgs))\<rparr>)
            (captureMutantOutput cfg)
          else new_ExecutionResult\<lparr>status := NotCovered\<rparr>),
       result_mutant = m\<rparr>) (enumerate 0 mutants)))"
  by (rule runMutants_starts [OF assms])

definition quick_world :: world where
  "quick_world k req =
     \<lparr>start_failure = None, wait_timed_out = (wait_milliseconds req < 15), wait_status = (if extra_env req = [] then 0 else 1),
      process_stdout = [], process_stderr = [], elapsed = 2\<rparr>"

lemma mutants_run_with_baseline_limit_witness:
  "runMutants quick_world new_Configuration ''a.out'' []
     [Mutant ''m'' ''cxx'' nullSourceLocation nullSourceLocation True,
      Mutant ''n'' ''cxx'' nullSourceLocation nullSourceLocation False] new_diagnostics =
   (new_diagnostics, Inr
     [\<lparr>execution_result = \<lparr>status = Failed, exitStatus = 1, runningTime = 2, stdoutOutput = [], stderrOutput = []\<rparr>,
       result_mutant = Mutant ''m'' ''cxx'' nullSourceLocation nullSourceLocation True\<rparr>,
      \<lparr>execution_result = \<lparr>status = NotCovered, exitStatus = 0, runningTime = 0, stdoutOutput = [], stderrOutput = []\<rparr>,
       result_mutant = Mutant ''n'' ''cxx'' nullSourceLocation nullSourceLocation False\<rparr>])"
  by (subst mutants_run_with_baseline_limit)
    (simp_all add: starts_def quick_world_def new_Configuration_def singleThreadParallelization_def
      execution_of_def baseline_request_def new_ExecutionResult_def Mutant_def)

definition output_path :: "(string \<Rightarrow> string \<Rightarrow> string + string) \<Rightarrow> Configuration \<Rightarrow> string + string" where
  "output_path temporary cfg = (if outputFile cfg = [] then temporary ''mull'' ''exe'' else Inr (outputFile cfg))"

text \<open>Linking succeeds with the path \<open>out\<close> exactly when \<open>out\<close> is the configured output file, or the
  temporary file that stands for it, and the linker, started with the configured flags, all object
  files in order and \<open>-o out\<close>, exits with status 0 in time; in every other case the process ends.\<close>

lemma link_succeeds_iff_linker_passes:
  "snd (linkObjectFiles exec temporary cfg objects d) = Inr out \<longleftrightarrow>
     output_path temporary cfg = Inr out \<and>
     (let p = exec \<lparr>command = linker cfg # linkerFlags cfg @ objects @ [''-o'', out], extra_env = [],
                    working_directory = None, wait_milliseconds = linkerTimeout cfg\<rparr>
      in start_failure p = None \<and> wait_timed_out p = False \<and> wait_status p = 0)"
proof -
  have nm: "outputFileName temporary cfg =
    (case output_path temporary cfg of
       Inl err \<Rightarrow> diag_error (''Cannot create temporary file'' @ err) | Inr path \<Rightarrow> diag_return path)"
    by (simp add: outputFileName_def output_path_def)
  have dbg: "snd (diag_bind (diag_debug msg) (\<lambda>_. diag_return x) d) = Inr y \<longleftrightarrow> x = y" for msg x y d
    by (auto simp: st_bind_def diag_debug_def st_return_def)
  have err: "diag_bind (diag_error m) f = diag_error m" for m f
    by (simp add: st_bind_def diag_error_def fun_eq_iff)
  have errd: "snd (diag_error m d) = Inl (Exited 1)" for m d
    by (simp add: diag_error_def)
  show ?thesis
  proof (cases "output_path temporary cfg")
    case (Inl e)
    then show ?thesis by (simp add: linkObjectFiles_def nm err errd)
  next
    case (Inr path)
    define p where "p = exec \<lparr>command = linker cfg # linkerFlags cfg @ objects @ [''-o'', path], extra_env = [],
                    working_directory = None, wait_milliseconds = linkerTimeout cfg\<rparr>"
    show ?thesis
    proof (cases "start_failure p")
      case None
      have "runProgram exec (linker cfg) (linkerFlags cfg @ objects @ [''-o'', path]) [] (linkerTimeout cfg) True None =
        diag_return (execution_of p True)"
        using None run_process_starts [of exec "linker cfg" "linkerFlags cfg @ objects @ [''-o'', path]" "[]"]
        by (simp add: runProgram_def p_def)
      then show ?thesis
        using None by (auto simp: linkObjectFiles_def nm Inr Let_def err errd dbg execution_of_def p_def)
    next
      case (Some e)
      then show ?thesis
        by (cases e) (auto simp: linkObjectFiles_def nm Inr Let_def err errd runProgram_def run_process_def p_def)
    qed
  qed
qed

end
