(* ===== verification/Filters.thy ===== *)
theory Filters
  imports Caches MutantRunner
begin

text \<open>
  The filters of \<open>lib/Filters\<close>: \<open>NoDebugInfoFilter\<close>, \<open>FilePathFilter\<close> with its cache, \<open>GitDiffFilter\<close>,
  and \<open>GitDiffReader\<close>, which parses the output of \<open>git diff -U0\<close>. The user's regular expressions are
  patterns with a parameter \<open>regex_search\<close>; the reader's own two expressions are fixed and modelled.
\<close>

section \<open>No debug information\<close>

definition NoDebugInfo_skip_point :: "mutation_point \<Rightarrow> bool" where
  "NoDebugInfo_skip_point p = isNull (sourceLocation p)"

definition NoDebugInfo_skip_function :: "(string \<Rightarrow> bool) \<Rightarrow> ir_function \<Rightarrow> bool" where
  "NoDebugInfo_skip_function is_absolute f = isNull (locationFromFunction is_absolute f)"

definition NoDebugInfo_skip_instruction :: "(string \<Rightarrow> bool) \<Rightarrow> instruction \<Rightarrow> bool" where
  "NoDebugInfo_skip_instruction is_absolute i = isNull (locationFromInstruction is_absolute i)"

section \<open>File paths\<close>

record file_path_filter =
  includeFilters :: "string list"
  excludeFilters :: "string list"
  cache :: "(string \<times> bool) list"

definition new_file_path_filter :: file_path_filter where
  "new_file_path_filter = \<lparr>includeFilters = [], excludeFilters = [], cache = []\<rparr>"

definition FilePath_exclude :: "string \<Rightarrow> file_path_filter \<Rightarrow> file_path_filter" where
  "FilePath_exclude r f = f\<lparr>excludeFilters := excludeFilters f @ [r]\<rparr>"

definition FilePath_include :: "string \<Rightarrow> file_path_filter \<Rightarrow> file_path_filter" where
  "FilePath_include r f = f\<lparr>includeFilters := includeFilters f @ [r]\<rparr>"

fun any_match :: "(string \<Rightarrow> string \<Rightarrow> bool) \<Rightarrow> string \<Rightarrow> string list \<Rightarrow> bool" where
  "any_match regex_search path [] = False"
| "any_match regex_search path (r # rs) =
     (if regex_search r path then True else any_match regex_search path rs)"

definition FilePath_shouldSkip ::
  "(string \<Rightarrow> string \<Rightarrow> bool) \<Rightarrow> string \<Rightarrow> file_path_filter \<Rightarrow> bool \<times> file_path_filter" where
  "FilePath_shouldSkip regex_search path f =
     (case map_of (cache f) path of
        Some allow \<Rightarrow> (\<not> allow, f)
      | None \<Rightarrow>
          (let allow0 = (if includeFilters f \<noteq> [] then any_match regex_search path (includeFilters f) else True);
               allow = (if allow0 then \<not> any_match regex_search path (excludeFilters f) else False)
           in (\<not> allow, f\<lparr>cache := (path, allow) # cache f\<rparr>)))"

definition FilePath_skip_location ::
  "(string \<Rightarrow> string \<Rightarrow> bool) \<Rightarrow> SourceLocation \<Rightarrow> file_path_filter \<Rightarrow> (bool \<times> file_path_filter) result" where
  "FilePath_skip_location regex_search loc f =
     bind_result (cxx_assert ''!location.isNull()'' (\<not> isNull loc)) (\<lambda>_.
       Inr (FilePath_shouldSkip regex_search (filePath loc) f))"

definition FilePath_skip_point ::
  "(string \<Rightarrow> string \<Rightarrow> bool) \<Rightarrow> mutation_point \<Rightarrow> file_path_filter \<Rightarrow> (bool \<times> file_path_filter) result" where
  "FilePath_skip_point regex_search p = FilePath_skip_location regex_search (sourceLocation p)"

definition FilePath_skip_function ::
  "(string \<Rightarrow> string \<Rightarrow> bool) \<Rightarrow> (string \<Rightarrow> bool) \<Rightarrow> ir_function \<Rightarrow> file_path_filter \<Rightarrow>
     (bool \<times> file_path_filter) result" where
  "FilePath_skip_function regex_search is_absolute fn =
     FilePath_skip_location regex_search (locationFromFunction is_absolute fn)"

definition FilePath_skip_instruction ::
  "(string \<Rightarrow> string \<Rightarrow> bool) \<Rightarrow> (string \<Rightarrow> bool) \<Rightarrow> instruction \<Rightarrow> file_path_filter \<Rightarrow>
     (bool \<times> file_path_filter) result" where
  "FilePath_skip_instruction regex_search is_absolute i =
     FilePath_skip_location regex_search (locationFromInstruction is_absolute i)"

text \<open>A path is allowed when some include pattern matches, or there is none, and no exclude pattern does.\<close>

definition path_allowed :: "(string \<Rightarrow> string \<Rightarrow> bool) \<Rightarrow> string list \<Rightarrow> string list \<Rightarrow> string \<Rightarrow> bool" where
  "path_allowed regex_search incl excl path \<longleftrightarrow>
     (incl = [] \<or> list_ex (\<lambda>r. regex_search r path) incl) \<and> \<not> list_ex (\<lambda>r. regex_search r path) excl"

definition cache_valid :: "(string \<Rightarrow> string \<Rightarrow> bool) \<Rightarrow> file_path_filter \<Rightarrow> bool" where
  "cache_valid regex_search f \<longleftrightarrow>
     list_all (\<lambda>(path, allow). allow = path_allowed regex_search (includeFilters f) (excludeFilters f) path)
       (cache f)"

lemma any_match_list_ex: "any_match regex_search path rs = list_ex (\<lambda>r. regex_search r path) rs"
  by (induction rs) auto

lemma FilePath_shouldSkip_step:
  assumes "cache_valid regex_search f"
  shows "\<exists>f'. FilePath_shouldSkip regex_search path f =
      (\<not> path_allowed regex_search (includeFilters f) (excludeFilters f) path, f') \<and>
    cache_valid regex_search f' \<and> includeFilters f' = includeFilters f \<and> excludeFilters f' = excludeFilters f"
proof (cases "map_of (cache f) path")
  case (Some allow)
  then have "allow = path_allowed regex_search (includeFilters f) (excludeFilters f) path"
    using assms by (auto simp: cache_valid_def list_all_iff dest!: map_of_SomeD)
  with Some assms show ?thesis by (simp add: FilePath_shouldSkip_def)
next
  case None
  then show ?thesis
    using assms
    by (auto simp: FilePath_shouldSkip_def Let_def any_match_list_ex path_allowed_def cache_valid_def
        list_all_iff)
qed

text \<open>The filter is a cached lookup; its patterns are what the answers depend on.\<close>

definition path_query ::
  "(string \<Rightarrow> string \<Rightarrow> bool) \<Rightarrow> string \<Rightarrow> file_path_filter \<Rightarrow> file_path_filter \<times> bool" where
  "path_query regex_search path f = prod.swap (FilePath_shouldSkip regex_search path f)"

interpretation path_cache: cached_lookup "path_query regex_search" "cache_valid regex_search"
    "\<lambda>f. (includeFilters f, excludeFilters f)"
    "\<lambda>path (inc, exc). \<not> path_allowed regex_search inc exc path"
  for regex_search
proof (unfold_locales, rule steadyI)
  fix path f assume "cache_valid regex_search f"
  from FilePath_shouldSkip_step [OF this, of path]
  show "\<exists>f'. path_query regex_search path f = (f', case (includeFilters f, excludeFilters f) of
      (inc, exc) \<Rightarrow> \<not> path_allowed regex_search inc exc path) \<and>
    cache_valid regex_search f' \<and> (includeFilters f', excludeFilters f') = (includeFilters f, excludeFilters f)"
    by (auto simp: path_query_def)
qed

text \<open>A session of queries, in whatever order the threads that share the filter take its lock.\<close>

definition FilePath_queries ::
  "(string \<Rightarrow> string \<Rightarrow> bool) \<Rightarrow> string list \<Rightarrow> file_path_filter \<Rightarrow> bool list \<times> file_path_filter" where
  "FilePath_queries regex_search paths f = prod.swap (ask_all (path_query regex_search) paths f)"

section \<open>Reading a git diff\<close>

type_synonym git_diff_info = "(string \<times> (int \<times> int) list) list"

definition starts_with :: "string \<Rightarrow> string \<Rightarrow> bool" where
  "starts_with pre s \<longleftrightarrow> take (length pre) s = pre"

text \<open>
  \<open>^\+\+\+\ [^/]+/(.*)\<close>: what follows the first slash after the marker, up to a line terminator.
\<close>

definition match_file_line :: "string \<Rightarrow> string option" where
  "match_file_line l =
     (if \<not> starts_with ''+++ '' l then None
      else
        (let rest = drop 4 l;
             pre = takeWhile (\<lambda>c. c \<noteq> CHR ''/'') rest;
             post = dropWhile (\<lambda>c. c \<noteq> CHR ''/'') rest
         in if pre = [] \<or> post = [] then None
            else Some (takeWhile (\<lambda>c. c \<noteq> CHR 0x0A \<and> c \<noteq> CHR 0x0D) (tl post))))"

text \<open>\<open>^@@ -[0-9,]+ \+(\d+)(,(\d+))?\<close>: the groups 1 and 3, the latter empty when it takes no part.\<close>

definition match_range_line :: "string \<Rightarrow> (string \<times> string) option" where
  "match_range_line l =
     (if \<not> starts_with ''@@ -'' l then None
      else
        (let rest = drop 4 l;
             old = takeWhile (\<lambda>c. is_digit c \<or> c = CHR '','') rest;
             post = drop (length old) rest
         in if old = [] \<or> \<not> starts_with '' +'' post then None
            else
              (let start = takeWhile is_digit (drop 2 post);
                   post2 = drop (length start) (drop 2 post);
                   count_text = (if starts_with '','' post2 then takeWhile is_digit (tl post2) else [])
               in if start = [] then None else Some (start, count_text))))"

definition diff_step ::
  "(string \<Rightarrow> bool) \<Rightarrow> string \<Rightarrow> string \<times> git_diff_info \<Rightarrow> string \<Rightarrow> (string \<times> git_diff_info) result" where
  "diff_step is_absolute root s l =
     (let (current, info) = s in
      case match_file_line l of
        Some f \<Rightarrow> Inr (absoluteFilePath is_absolute root f, info)
      | None \<Rightarrow>
          (case match_range_line l of
             None \<Rightarrow> Inr (current, info)
           | Some (start, count_text) \<Rightarrow>
               bind_result (stoi start) (\<lambda>startLine.
               bind_result (if count_text = [] then Inr 1 else stoi count_text) (\<lambda>lineCount.
                 Inr (current,
                      if lineCount > 0 then push_back_at current (startLine, lineCount) info else info)))))"

fun diff_loop ::
  "(string \<Rightarrow> bool) \<Rightarrow> string \<Rightarrow> string list \<Rightarrow> string \<times> git_diff_info \<Rightarrow> (string \<times> git_diff_info) result" where
  "diff_loop is_absolute root [] s = Inr s"
| "diff_loop is_absolute root (l # ls) s =
     bind_result (diff_step is_absolute root s l) (diff_loop is_absolute root ls)"

definition parseDiffContent :: "(string \<Rightarrow> bool) \<Rightarrow> string \<Rightarrow> string \<Rightarrow> git_diff_info result" where
  "parseDiffContent is_absolute root content =
     (if content = [] then Inr []
      else bind_result (diff_loop is_absolute root (getlines (CHR 0x0A) content) ([], [])) (\<lambda>s. Inr (snd s)))"

text \<open>\<open>readGitDiff\<close> runs git in the project's directory; a git that cannot be started ends the process.\<close>

definition readGitDiff ::
  "(string \<Rightarrow> bool) \<Rightarrow> string \<Rightarrow> (process_request \<Rightarrow> process_outcome) \<Rightarrow> string \<Rightarrow> git_diff_info diag" where
  "readGitDiff is_absolute root exec branch =
     diag_bind (runProgram exec ''git'' [''diff'', ''-U0'', branch] [] 5000 True (Some root)) (\<lambda>r.
     if exitStatus r \<noteq> 0
     then diag_bind (diag_warning
            (''GitDiffReader: cannot get git diff information. Received output: '' @ stderrOutput r))
            (\<lambda>_. diag_return [])
     else diag_lift (parseDiffContent is_absolute root (stdoutOutput r)))"

text \<open>A filter is the diff it has read; the null pointer the caller checks for is never returned.\<close>

definition createFromGitDiff ::
  "(string \<Rightarrow> bool) \<Rightarrow> (process_request \<Rightarrow> process_outcome) \<Rightarrow> string \<Rightarrow> string \<Rightarrow> git_diff_info option diag" where
  "createFromGitDiff is_absolute exec gitProjectRoot gitDiffBranch =
     diag_bind (readGitDiff is_absolute gitProjectRoot exec gitDiffBranch) (\<lambda>info. diag_return (Some info))"

section \<open>Filtering by a git diff\<close>

fun in_ranges :: "(int \<times> int) list \<Rightarrow> int \<Rightarrow> bool" where
  "in_ranges [] l = False"
| "in_ranges ((first, second) # rs) l =
     (let rangeEnd = first + second - 1 in
      if first \<le> l \<and> l \<le> rangeEnd then True else in_ranges rs l)"

definition location_text :: "SourceLocation \<Rightarrow> string" where
  "location_text loc = filePath loc @ '':'' @ string_of_int (line loc) @ '':'' @ string_of_int (column loc)"

definition GitDiff_shouldSkip :: "(string \<Rightarrow> bool) \<Rightarrow> git_diff_info \<Rightarrow> instruction \<Rightarrow> bool diag" where
  "GitDiff_shouldSkip is_absolute info i =
     (let loc = locationFromInstruction is_absolute i;
          say = (\<lambda>message result. diag_bind (diag_debug (message @ location_text loc)) (\<lambda>_. diag_return result)) in
      if isNull loc then diag_return True
      else if info = [] then say ''GitDiffFilter: git diff is empty. Skipping instruction: '' True
      else
        (case map_of info (filePath loc) of
           None \<Rightarrow>
             say ''GitDiffFilter: the file is not present in the git diff. Skipping instruction: '' True
         | Some ranges \<Rightarrow>
             if in_ranges ranges (line loc)
             then say ''GitDiffFilter: whitelisting instruction: '' False
             else say ''GitDiffFilter: skipping instruction: '' True))"

lemma in_ranges_iff: "in_ranges rs l \<longleftrightarrow> (\<exists>(first, second) \<in> set rs. first \<le> l \<and> l < first + second)"
  by (induction rs l rule: in_ranges.induct) (auto simp: Let_def)


section \<open>Properties\<close>

text \<open>C24. The cache of the file path filter is transparent: once its patterns are set, every query, in
  any order and however often a path is repeated, skips exactly the paths that no include pattern
  admits (when there are include patterns) or that an exclude pattern rejects.\<close>

theorem file_path_filter_queries:
  assumes "cache f = []"
  shows "fst (FilePath_queries regex_search paths f) =
      map (\<lambda>p. \<not> path_allowed regex_search (includeFilters f) (excludeFilters f) p) paths \<and>
    cache_valid regex_search (snd (FilePath_queries regex_search paths f))"
proof -
  have "cache_valid regex_search f" using assms by (simp add: cache_valid_def)
  from path_cache.ask_all_answers [OF this, of paths] show ?thesis by (auto simp: FilePath_queries_def)
qed

lemma file_path_filter_queries_witness:
  "fst (FilePath_queries (\<lambda>r p. starts_with r p) [''/src/a.cpp'', ''/usr/b.h'', ''/src/a.cpp'']
     (FilePath_exclude ''/usr'' new_file_path_filter)) = [False, True, False]"
proof -
  have c: "cache (FilePath_exclude ''/usr'' new_file_path_filter) = []"
    by (simp add: FilePath_exclude_def new_file_path_filter_def)
  show ?thesis
    using file_path_filter_queries [OF c, of "\<lambda>r p. starts_with r p" "[''/src/a.cpp'', ''/usr/b.h'', ''/src/a.cpp'']"]
    by (simp add: path_allowed_def FilePath_exclude_def new_file_path_filter_def starts_with_def)
qed

lemma diag_debug_ok: "\<exists>d'. diag_debug m d = (d', Inr ())"
  by (simp add: diag_debug_def)

text \<open>The git diff filter keeps exactly the instructions that have a location whose file is in the
  diff with a range that contains the line; whether the debug log is on makes no difference.\<close>

lemma git_diff_filter_keeps_changed_lines:
  "snd (GitDiff_shouldSkip is_absolute info i d) =
     Inr (\<not> (let loc = locationFromInstruction is_absolute i in
        \<not> isNull loc \<and>
        (\<exists>ranges first second. map_of info (filePath loc) = Some ranges \<and> (first, second) \<in> set ranges \<and>
             first \<le> line loc \<and> line loc < first + second)))"
proof -
  have say: "snd (diag_bind (diag_debug m) (\<lambda>_. diag_return r) d) = Inr r" for m and r :: bool
    by (auto simp: st_bind_def diag_debug_def st_return_def)
  let ?loc = "locationFromInstruction is_absolute i"
  show ?thesis
  proof (cases "isNull ?loc")
    case True
    then show ?thesis by (simp add: GitDiff_shouldSkip_def st_return_def Let_def)
  next
    case False
    show ?thesis
    proof (cases "map_of info (filePath ?loc)")
      case None
      with False show ?thesis by (simp add: GitDiff_shouldSkip_def Let_def say)
    next
      case (Some ranges)
      then have "info \<noteq> []" by auto
      with False Some show ?thesis
        by (auto simp: GitDiff_shouldSkip_def Let_def say in_ranges_iff)
    qed
  qed
qed

text \<open>When git fails, the code warns and goes on with an empty diff: the filter then skips every
  instruction, and nothing is mutated.\<close>

lemma failed_git_skips_everything:
  assumes "run_process exec ''git'' [''diff'', ''-U0'', branch] [] 5000 True (Some root) = Inr r" "exitStatus r \<noteq> 0"
    and "\<not> strictModeEnabled d"
  shows "\<exists>d'. createFromGitDiff is_absolute exec root branch d = (d', Inr (Some [])) \<and>
    snd (GitDiff_shouldSkip is_absolute [] i d'') = Inr True"
  using assms
  by (simp add: createFromGitDiff_def readGitDiff_def runProgram_def st_bind_def st_return_def
      diag_warning_lenient git_diff_filter_keeps_changed_lines Let_def)

subsection \<open>The diff parser against the format\<close>

text \<open>
  The lines of a diff: a file header, a hunk header with an optional count, and everything else. The
  text of a header line is what git prints; \<open>tail\<close> is the context after the second \<open>@@\<close>.
\<close>

datatype diff_line =
    FileLine string string
  | HunkLine string nat "nat option" string
  | OtherLine string

fun render_line :: "diff_line \<Rightarrow> string" where
  "render_line (FileLine pre path) = ''+++ '' @ pre @ ''/'' @ path"
| "render_line (HunkLine old start None tail) = ''@@ -'' @ old @ '' +'' @ string_of_nat start @ '' @@'' @ tail"
| "render_line (HunkLine old start (Some n) tail) =
     ''@@ -'' @ old @ '' +'' @ string_of_nat start @ '','' @ string_of_nat n @ '' @@'' @ tail"
| "render_line (OtherLine s) = s"

definition no_eol :: "string \<Rightarrow> bool" where
  "no_eol s \<longleftrightarrow> CHR 0x0A \<notin> set s \<and> CHR 0x0D \<notin> set s"

fun wf_line :: "diff_line \<Rightarrow> bool" where
  "wf_line (FileLine pre path) \<longleftrightarrow> pre \<noteq> [] \<and> CHR ''/'' \<notin> set pre \<and> no_eol pre \<and> no_eol path"
| "wf_line (HunkLine old start n tail) \<longleftrightarrow>
     old \<noteq> [] \<and> list_all (\<lambda>c. is_digit c \<or> c = CHR '','') old \<and> start < 2 ^ 31 \<and>
     (case n of None \<Rightarrow> True | Some k \<Rightarrow> k < 2 ^ 31) \<and> no_eol tail"
| "wf_line (OtherLine s) \<longleftrightarrow> \<not> starts_with ''+++ '' s \<and> \<not> starts_with ''@@ -'' s \<and> CHR 0x0A \<notin> set s"

text \<open>What the lines mean: each hunk that adds lines is a range of the file named last.\<close>

fun meaning :: "(string \<Rightarrow> bool) \<Rightarrow> string \<Rightarrow> string \<times> git_diff_info \<Rightarrow> diff_line \<Rightarrow> string \<times> git_diff_info" where
  "meaning is_absolute root (current, info) (FileLine pre path) = (absoluteFilePath is_absolute root path, info)"
| "meaning is_absolute root (current, info) (HunkLine old start n tail) =
     (let k = (case n of None \<Rightarrow> 1 | Some k \<Rightarrow> k)
      in (current, if k > 0 then push_back_at current (int start, int k) info else info))"
| "meaning is_absolute root (current, info) (OtherLine s) = (current, info)"

lemma starts_with_append [simp]: "starts_with pre (pre @ s)"
  by (simp add: starts_with_def)

lemma takeWhile_stop: "list_all P xs \<Longrightarrow> \<not> P y \<Longrightarrow> takeWhile P (xs @ y # ys) = xs"
  by (induction xs) auto

lemma dropWhile_stop: "list_all P xs \<Longrightarrow> \<not> P y \<Longrightarrow> dropWhile P (xs @ y # ys) = y # ys"
  by (induction xs) auto

lemma digits_list_all: "list_all is_digit (string_of_nat n)"
  using string_of_nat_digits [of n] by (simp add: list_all_iff)

lemma match_file_line_FileLine:
  assumes "wf_line (FileLine pre path)"
  shows "match_file_line (render_line (FileLine pre path)) = Some path"
proof -
  have l: "list_all (\<lambda>c. c \<noteq> CHR ''/'') pre" and p: "list_all (\<lambda>c. c \<noteq> CHR 0x0A \<and> c \<noteq> CHR 0x0D) path"
    using assms by (auto simp: list_all_iff no_eol_def)
  have "takeWhile (\<lambda>c. c \<noteq> CHR 0x0A \<and> c \<noteq> CHR 0x0D) path = path"
    using p by (simp add: list_all_iff)
  then show ?thesis
    using assms takeWhile_stop [OF l, of "CHR ''/''" path] dropWhile_stop [OF l, of "CHR ''/''" path]
    by (simp add: match_file_line_def starts_with_def)
qed

lemma match_file_line_other: "\<not> starts_with ''+++ '' s \<Longrightarrow> match_file_line s = None"
  by (simp add: match_file_line_def)

lemma match_range_line_other: "\<not> starts_with ''@@ -'' s \<Longrightarrow> match_range_line s = None"
  by (simp add: match_range_line_def)

lemma match_range_line_HunkLine:
  assumes "wf_line (HunkLine old start n tail)"
  shows "match_range_line (render_line (HunkLine old start n tail)) =
    Some (string_of_nat start, case n of None \<Rightarrow> [] | Some k \<Rightarrow> string_of_nat k)"
proof -
  have old: "list_all (\<lambda>c. is_digit c \<or> c = CHR '','') old" "old \<noteq> []" using assms by simp_all
  have sp: "\<not> (is_digit CHR '' '' \<or> CHR '' '' = CHR '','')" "\<not> is_digit CHR '' ''" "\<not> is_digit CHR '',''"
    by (simp_all add: is_digit_def)
  show ?thesis
    using old takeWhile_stop [OF old(1) sp(1)] takeWhile_stop [OF digits_list_all sp(2)]
      takeWhile_stop [OF digits_list_all sp(3)]
    by (cases n) (simp_all add: match_range_line_def starts_with_def Let_def)
qed

lemma diff_step_render:
  assumes "wf_line l"
  shows "diff_step is_absolute root s (render_line l) = Inr (meaning is_absolute root s l)"
proof (cases l)
  case (FileLine pre path)
  then show ?thesis
    using match_file_line_FileLine assms by (cases s) (simp add: diff_step_def)
next
  case (HunkLine old start n tail)
  have "\<not> starts_with ''+++ '' (render_line l)"
    by (cases n) (simp_all add: HunkLine starts_with_def)
  then have m: "match_file_line (render_line l) = None" by (rule match_file_line_other)
  have r: "match_range_line (render_line l) =
      Some (string_of_nat start, case n of None \<Rightarrow> [] | Some k \<Rightarrow> string_of_nat k)"
    using match_range_line_HunkLine assms unfolding HunkLine by blast
  show ?thesis
    unfolding diff_step_def m r using assms
    by (cases s; cases n) (simp_all add: HunkLine stoi_string_of_nat Let_def)
next
  case (OtherLine x)
  then show ?thesis
    using assms by (cases s) (simp add: diff_step_def match_file_line_other match_range_line_other)
qed

lemma render_line_no_newline: "wf_line l \<Longrightarrow> CHR 0x0A \<notin> set (render_line l)"
proof (cases l)
  case (HunkLine old start n tail)
  assume "wf_line l"
  moreover have "\<not> is_digit CHR 0x0A" by (simp add: is_digit_def)
  ultimately show ?thesis
    using string_of_nat_digits by (cases n) (auto simp: HunkLine no_eol_def list_all_iff)
qed (auto simp: no_eol_def)

text \<open>C23. On the text of a diff, one line each, the parser succeeds and returns for every file, under its
  path below the repository's root, the ranges of its hunks that add lines, in order.\<close>

theorem parse_rendered_diff:
  assumes "list_all wf_line ls"
  shows "parseDiffContent is_absolute root (concat (map (\<lambda>l. render_line l @ [CHR 0x0A]) ls)) =
    Inr (snd (foldl (meaning is_absolute root) ([], []) ls))"
proof -
  have gl: "getlines (CHR 0x0A) (concat (map (\<lambda>l. render_line l @ [CHR 0x0A]) ls)) = map render_line ls"
    using assms
  proof (induction ls)
    case (Cons l ls)
    then show ?case
      using getlines_append [OF render_line_no_newline [of l]] by simp
  qed simp
  have loop: "diff_loop is_absolute root (map render_line ls) s = Inr (foldl (meaning is_absolute root) s ls)"
    for s
    using assms by (induction ls arbitrary: s) (auto simp: diff_step_render)
  have ne: "concat (map (\<lambda>l. render_line l @ [CHR 0x0A]) ls) = [] \<longleftrightarrow> ls = []" by (cases ls) auto
  show ?thesis unfolding parseDiffContent_def gl loop ne by simp
qed


lemma parse_rendered_diff_witness:
  "parseDiffContent (\<lambda>p. False) ''/repo'' (concat (map (\<lambda>l. render_line l @ [CHR 0x0A])
      [OtherLine ''--- a/x.cpp'', FileLine ''b'' ''x.cpp'', HunkLine ''3,0'' 4 (Some 2) '' int f()'',
       OtherLine ''+new'', OtherLine ''+lines'', HunkLine ''9'' 11 None [], HunkLine ''20,2'' 20 (Some 0) []])) =
    Inr [(''/repo/x.cpp'', [(4, 2), (11, 1)])]"
proof -
  have "list_all wf_line
      [OtherLine ''--- a/x.cpp'', FileLine ''b'' ''x.cpp'', HunkLine ''3,0'' 4 (Some 2) '' int f()'',
       OtherLine ''+new'', OtherLine ''+lines'', HunkLine ''9'' 11 None [], HunkLine ''20,2'' 20 (Some 0) []]"
    by (simp add: starts_with_def no_eol_def is_digit_def)
  from parse_rendered_diff [OF this, of "\<lambda>p. False" "''/repo''"] show ?thesis
    by (simp add: absoluteFilePath_def Let_def del: render_line.simps)
qed

end
