(* ===== verification/Driver.thy ===== *)
theory Driver
  imports MutantRunner Trampolines LogicalMutators
begin

text \<open>
  \<open>lib/Driver.cpp\<close> with \<open>lib/MutationsFinder.cpp\<close>, \<open>lib/Toolchain/Compiler.cpp\<close> and the tasks it
  executes: the pipeline from the bitcode of a program to the results of its mutants. The virtual
  calls on mutators and filters are dispatched here. Parameters: \<open>canMutate\<close> and \<open>mutate\<close> (irm),
  \<open>load_coverage\<close> (LLVM's coverage reader), the code generator, the world the processes run in.
\<close>

section \<open>Virtual calls on mutators\<close>

definition getMutations ::
  "(string \<Rightarrow> bool) \<Rightarrow> (irm_mutation \<Rightarrow> instruction \<Rightarrow> bool) \<Rightarrow> ir_module \<Rightarrow> mutator \<Rightarrow>
     function_under_test \<Rightarrow> mutation_point list" where
  "getMutations is_absolute canMutate m mutator fut =
     (case dynamic_class mutator of
        TrivialCXXMutator_class \<Rightarrow> trivial_getMutations is_absolute canMutate m mutator fut
      | NegateConditionMutator_class \<Rightarrow> NegateCondition_getMutations is_absolute canMutate m mutator fut
      | ScalarValueMutator_class \<Rightarrow> ScalarValue_getMutations is_absolute canMutate m mutator fut
      | UnaryMinusToNoop_class \<Rightarrow> unary_minus_getMutations is_absolute canMutate m mutator fut
      | LogicalAndToOr_class \<Rightarrow> AndToOr_getMutations is_absolute m mutator fut
      | LogicalOrToAnd_class \<Rightarrow> OrToAnd_getMutations is_absolute m mutator fut)"

text \<open>\<open>mutate\<close> is \<open>irm::IRMutation::mutate\<close> on an instruction of a function.\<close>

definition trivial_applyMutation ::
  "(irm_mutation \<Rightarrow> instruction \<Rightarrow> ir_function \<Rightarrow> ir_function) \<Rightarrow> mutation_address \<Rightarrow>
     irm_mutation option \<Rightarrow> ir_function \<Rightarrow> ir_function result" where
  "trivial_applyMutation mutate a low f =
     (case findInstruction_in_function a f of
        None \<Rightarrow> Inl (OutOfRange ''std::next'')
      | Some i \<Rightarrow> (case low of None \<Rightarrow> Inl (NullPointer ''lowLevelMutation'') | Some l \<Rightarrow> Inr (mutate l i f)))"

definition NegateCondition_applyMutation ::
  "(irm_mutation \<Rightarrow> instruction \<Rightarrow> ir_function \<Rightarrow> ir_function) \<Rightarrow> mutation_address \<Rightarrow>
     irm_mutation option \<Rightarrow> ir_function \<Rightarrow> ir_function result" where
  "NegateCondition_applyMutation mutate a low f =
     (case findInstruction_in_function a f of
        None \<Rightarrow> Inl (OutOfRange ''std::next'')
      | Some i \<Rightarrow> (case low of None \<Rightarrow> Inl (NullPointer ''lowLevelMutation'') | Some l \<Rightarrow> Inr (mutate l i f)))"

definition ScalarValue_applyMutation ::
  "(irm_mutation \<Rightarrow> instruction \<Rightarrow> ir_function \<Rightarrow> ir_function) \<Rightarrow> mutation_address \<Rightarrow>
     irm_mutation option \<Rightarrow> ir_function \<Rightarrow> ir_function result" where
  "ScalarValue_applyMutation mutate a low f =
     (case findInstruction_in_function a f of
        None \<Rightarrow> Inl (OutOfRange ''std::next'')
      | Some i \<Rightarrow> (case low of None \<Rightarrow> Inl (NullPointer ''lowLevelMutation'') | Some l \<Rightarrow> Inr (mutate l i f)))"

definition UnaryMinusToNoop_applyMutation ::
  "(irm_mutation \<Rightarrow> instruction \<Rightarrow> ir_function \<Rightarrow> ir_function) \<Rightarrow> mutation_address \<Rightarrow>
     irm_mutation option \<Rightarrow> ir_function \<Rightarrow> ir_function result" where
  "UnaryMinusToNoop_applyMutation mutate a low f =
     (case findInstruction_in_function a f of
        None \<Rightarrow> Inl (OutOfRange ''std::next'')
      | Some i \<Rightarrow> (case low of None \<Rightarrow> Inl (NullPointer ''lowLevelMutation'') | Some l \<Rightarrow> Inr (mutate l i f)))"

text \<open>The four classes have the same code.\<close>

lemma instruction_applyMutation [simp]:
  "NegateCondition_applyMutation = trivial_applyMutation" "ScalarValue_applyMutation = trivial_applyMutation"
  "UnaryMinusToNoop_applyMutation = trivial_applyMutation"
  by (simp_all add: fun_eq_iff NegateCondition_applyMutation_def ScalarValue_applyMutation_def
      UnaryMinusToNoop_applyMutation_def trivial_applyMutation_def)

definition mutator_applyMutation ::
  "(irm_mutation \<Rightarrow> instruction \<Rightarrow> ir_function \<Rightarrow> ir_function) \<Rightarrow> apply_mutation" where
  "mutator_applyMutation mutate mutator a low f =
     (case dynamic_class mutator of
        TrivialCXXMutator_class \<Rightarrow> trivial_applyMutation mutate a low f
      | NegateConditionMutator_class \<Rightarrow> NegateCondition_applyMutation mutate a low f
      | ScalarValueMutator_class \<Rightarrow> ScalarValue_applyMutation mutate a low f
      | UnaryMinusToNoop_class \<Rightarrow> UnaryMinusToNoop_applyMutation mutate a low f
      | LogicalAndToOr_class \<Rightarrow> AndToOr_applyMutation a f
      | LogicalOrToAnd_class \<Rightarrow> OrToAnd_applyMutation a f)"

section \<open>Functions under test\<close>

text \<open>\<open>load\<close> is \<open>CoverageMapping::load\<close>: an error, or the names and counts of the covered functions.\<close>

type_synonym coverage_records = "(string \<times> nat) list"

definition loadCoverage ::
  "(string \<Rightarrow> string \<Rightarrow> string + coverage_records) \<Rightarrow> Configuration \<Rightarrow> coverage_records option diag" where
  "loadCoverage load cfg =
     (if coverageInfo cfg = [] then diag_return None
      else
        (case load (executable cfg) (coverageInfo cfg) of
           Inl err \<Rightarrow> diag_bind (diag_warning (''Cannot read coverage info: '' @ err)) (\<lambda>_. diag_return None)
         | Inr records \<Rightarrow> diag_return (Some records)))"

text \<open>A name is split at its first colon.\<close>

definition split_scope :: "string \<Rightarrow> string \<times> string" where
  "split_scope name =
     (if CHR '':'' \<in> set name
      then (takeWhile (\<lambda>c. c \<noteq> CHR '':'') name, tl (dropWhile (\<lambda>c. c \<noteq> CHR '':'') name))
      else ([], name))"

text \<open>The two sets of names; a scoped function is a pair of scope and name.\<close>

fun coverage_sets :: "coverage_records \<Rightarrow> (string \<times> string) list \<times> string list" where
  "coverage_sets [] = ([], [])"
| "coverage_sets ((name, executions) # records) =
     (let (scoped, unscoped) = coverage_sets records in
      if executions = 0 then (scoped, unscoped)
      else if fst (split_scope name) = [] then (scoped, snd (split_scope name) # unscoped)
      else (split_scope name # scoped, unscoped))"

definition function_covered ::
  "(string \<Rightarrow> bool) \<Rightarrow> (string \<Rightarrow> string) \<Rightarrow> coverage_records \<Rightarrow> ir_function \<Rightarrow> bool" where
  "function_covered is_absolute filename records f =
     (let (scoped, unscoped) = coverage_sets records in
      if fname f \<in> set unscoped then True
      else (filename (unitFilePath (locationFromFunction is_absolute f)), fname f) \<in> set scoped)"

definition functions_with_coverage ::
  "(string \<Rightarrow> bool) \<Rightarrow> (string \<Rightarrow> string) \<Rightarrow> Configuration \<Rightarrow> coverage_records \<Rightarrow> bitcode_file list \<Rightarrow>
     function_under_test list" where
  "functions_with_coverage is_absolute filename cfg records program =
     concat (map (\<lambda>(k, b).
       concat (map (\<lambda>f.
         if function_covered is_absolute filename records f then [FunctionUnderTest (fname f) k True]
         else if includeNotCovered cfg then [FunctionUnderTest (fname f) k False] else [])
         (function_list (ir b)))) (enumerate 0 program))"

definition all_functions :: "bitcode_file list \<Rightarrow> function_under_test list" where
  "all_functions program =
     concat (map (\<lambda>(k, b). map (\<lambda>f. FunctionUnderTest (fname f) k True) (function_list (ir b)))
       (enumerate 0 program))"

definition getFunctionsUnderTest ::
  "(string \<Rightarrow> bool) \<Rightarrow> (string \<Rightarrow> string) \<Rightarrow> (string \<Rightarrow> string \<Rightarrow> string + coverage_records) \<Rightarrow> Configuration \<Rightarrow>
     bitcode_file list \<Rightarrow> function_under_test list diag" where
  "getFunctionsUnderTest is_absolute filename load cfg program =
     diag_bind (loadCoverage load cfg) (\<lambda>coverage.
       case coverage of
         Some records \<Rightarrow> diag_return (functions_with_coverage is_absolute filename cfg records program)
       | None \<Rightarrow>
           diag_bind
             (if includeNotCovered cfg
              then diag_warning ''-include-not-covered is enabled, but there is no coverage info!''
              else diag_return ())
             (\<lambda>_. diag_return (all_functions program)))"

section \<open>Filters\<close>

text \<open>A filter of points answers with the point it keeps, as it leaves it; \<open>None\<close> skips the point.\<close>

record Filters =
  mutationFilters :: "(mutation_point \<Rightarrow> mutation_point option result) list"
  functionFilters :: "(ir_function \<Rightarrow> bool result) list"
  instructionFilters :: "(instruction \<Rightarrow> bool) list"

definition filterMutations :: "Configuration \<Rightarrow> Filters \<Rightarrow> mutation_point list \<Rightarrow> mutation_point list result" where
  "filterMutations cfg filters points =
     apply_in_turn (workers (parallelization cfg)) (mutationFilters filters) points"

definition getFunction :: "bitcode_file list \<Rightarrow> function_under_test \<Rightarrow> ir_function option" where
  "getFunction program fut =
     Option.bind (nth_opt program (fut_bitcode fut)) (\<lambda>b. get_function (ir b) (fut_function fut))"

definition skip_function_under_test ::
  "bitcode_file list \<Rightarrow> (ir_function \<Rightarrow> bool result) \<Rightarrow> function_under_test \<Rightarrow> bool result" where
  "skip_function_under_test program shouldSkip fut =
     (case getFunction program fut of
        None \<Rightarrow> Inl (AssertFailed ''functionUnderTest.getFunction()'')
      | Some f \<Rightarrow> shouldSkip f)"

definition filterFunctions ::
  "Configuration \<Rightarrow> Filters \<Rightarrow> bitcode_file list \<Rightarrow> function_under_test list \<Rightarrow>
     function_under_test list result" where
  "filterFunctions cfg filters program funs =
     filter_in_turn (workers (parallelization cfg))
       (map (skip_function_under_test program) (functionFilters filters)) funs"

definition module_of :: "bitcode_file list \<Rightarrow> function_under_test \<Rightarrow> ir_module" where
  "module_of program fut = ir (program ! fut_bitcode fut)"

definition select_all_instructions ::
  "Configuration \<Rightarrow> Filters \<Rightarrow> bitcode_file list \<Rightarrow> function_under_test list \<Rightarrow>
     function_under_test list result" where
  "select_all_instructions cfg filters program funs =
     update_tasks (workers (parallelization cfg))
       (\<lambda>fut. selectInstructions (module_of program fut) (instructionFilters filters) fut) funs"

section \<open>Finding mutation points\<close>

text \<open>\<open>SearchMutationPointsTask\<close> on one function.\<close>

definition search_points ::
  "(string \<Rightarrow> bool) \<Rightarrow> (irm_mutation \<Rightarrow> instruction \<Rightarrow> bool) \<Rightarrow> mutator list \<Rightarrow> bitcode_file list \<Rightarrow>
     function_under_test \<Rightarrow> mutation_point list" where
  "search_points is_absolute canMutate mutators program fut =
     concat (map (\<lambda>mutator.
       map (setCovered (fut_covered fut))
         (getMutations is_absolute canMutate (module_of program fut) mutator fut)) mutators)"

definition getMutationPoints ::
  "(string \<Rightarrow> bool) \<Rightarrow> (irm_mutation \<Rightarrow> instruction \<Rightarrow> bool) \<Rightarrow> mutator list \<Rightarrow> Configuration \<Rightarrow>
     bitcode_file list \<Rightarrow> function_under_test list \<Rightarrow> mutation_point list result" where
  "getMutationPoints is_absolute canMutate mutators cfg program funs =
     run_tasks (workers (parallelization cfg))
       (\<lambda>fut. map Inr (search_points is_absolute canMutate mutators program fut)) funs"

definition original_failed_message :: "ExecutionResult \<Rightarrow> string" where
  "original_failed_message r =
     ''Original test failed'' @ newline @
     ''test: '' @ ''main'' @ newline @
     ''status: '' @ executionStatusAsString (status r) @ newline @
     ''stdout: '' @ [CHR 0x27] @ stdoutOutput r @ [CHR 0x27] @ newline @
     ''stderr: '' @ [CHR 0x27] @ stderrOutput r @ [CHR 0x27] @ newline"

definition sanity_check_run :: "(process_request \<Rightarrow> process_outcome) \<Rightarrow> Configuration \<Rightarrow> unit diag" where
  "sanity_check_run exec cfg =
     (if \<not> skipSanityCheckRun cfg
      then diag_bind (runProgram exec (executable cfg) [] [] (timeout cfg) (captureTestOutput cfg) None)
        (\<lambda>r. if status r \<noteq> Passed then diag_warning (original_failed_message r) else diag_return ())
      else diag_return ())"

text \<open>What the driver is constructed with, and the libraries' functions it relies on.\<close>

record environment =
  absolute_path :: "string \<Rightarrow> bool"
  path_filename :: "string \<Rightarrow> string"
  coverage_load :: "string \<Rightarrow> string \<Rightarrow> string + coverage_records"
  can_mutate :: "irm_mutation \<Rightarrow> instruction \<Rightarrow> bool"
  mutate_instruction :: "irm_mutation \<Rightarrow> instruction \<Rightarrow> ir_function \<Rightarrow> ir_function"
  symbol_names :: name_supply
  verify_module :: "ir_module \<Rightarrow> string option"
  lookup_target :: "ir_module \<Rightarrow> string option"
  open_for_writing :: "string \<Rightarrow> string option"
  can_emit_object :: "ir_module \<Rightarrow> bool"
  temporary_for :: "ir_module \<Rightarrow> string \<Rightarrow> string \<Rightarrow> string + string"
  temporary_file :: "string \<Rightarrow> string \<Rightarrow> string + string"
  processes :: world

definition findMutationPoints ::
  "environment \<Rightarrow> Configuration \<Rightarrow> Filters \<Rightarrow> mutator list \<Rightarrow> bitcode_file list \<Rightarrow> mutation_point list diag" where
  "findMutationPoints env cfg filters mutators program =
     diag_bind (sanity_check_run (processes env 0) cfg) (\<lambda>_.
     diag_bind (getFunctionsUnderTest (absolute_path env) (path_filename env) (coverage_load env) cfg program)
       (\<lambda>functionsUnderTest.
     diag_lift
       (bind_result (filterFunctions cfg filters program functionsUnderTest) (\<lambda>filteredFunctions.
        bind_result (select_all_instructions cfg filters program filteredFunctions) (\<lambda>selected.
        getMutationPoints (absolute_path env) (can_mutate env) mutators cfg program selected)))))"

section \<open>Mutants\<close>

text \<open>
  The map from identifiers to points. The code iterates it in the order of a hash table; the mutants
  are sorted afterwards.
\<close>

definition group_points :: "mutation_point list \<Rightarrow> (string \<times> mutation_point list) list" where
  "group_points points = foldl (\<lambda>mapping p. push_back_at (userIdentifier p) p mapping) [] points"

fun any_covered :: "mutation_point list \<Rightarrow> bool" where
  "any_covered [] = False"
| "any_covered (p # ps) = (if covered p then True else any_covered ps)"

definition mutant_of_group :: "string \<times> mutation_point list \<Rightarrow> mutant" where
  "mutant_of_group pair =
     (let (identifier, ps) = pair;
          anyPoint = hd ps
      in setMutatorKind (mutatorKind (point_mutator anyPoint))
           (Mutant identifier (getUniqueIdentifier (point_mutator anyPoint)) (sourceLocation anyPoint)
              (endLocation anyPoint) (any_covered ps)))"

definition deduplicate_mutants :: "mutation_point list \<Rightarrow> mutant list" where
  "deduplicate_mutants points = sort_mutants (map mutant_of_group (group_points points))"

section \<open>Preparing the mutations\<close>

text \<open>
  \<open>addMutation\<close> for every point, then the three executors over the bitcode files and the sequential one
  over the points. A bitcode is handled by one worker, which changes its module and its points.
\<close>

definition add_mutations :: "point_store \<Rightarrow> bitcode_file list \<Rightarrow> bitcode_file list" where
  "add_mutations store program =
     foldl (\<lambda>bs i. bs[bitcode (store ! i) := addMutation store i (bs ! bitcode (store ! i))])
       program [0..<length store]"

fun clone_all :: "name_supply \<Rightarrow> bitcode_file list \<Rightarrow> point_store \<Rightarrow> bitcode_file list \<times> point_store" where
  "clone_all un [] store = ([], store)"
| "clone_all un (b # bs) store =
     (let (m, store1) = cloneFunctions un (mutationPoints b) (ir b, store);
          (bs', store2) = clone_all un bs store1
      in (b\<lparr>ir := m\<rparr> # bs', store2))"

definition delete_all :: "name_supply \<Rightarrow> point_store \<Rightarrow> bitcode_file list \<Rightarrow> bitcode_file list" where
  "delete_all un store bs = map (\<lambda>b. b\<lparr>ir := deleteFunctions un (mutationPoints b) store (ir b)\<rparr>) bs"

definition redirect_all :: "name_supply \<Rightarrow> point_store \<Rightarrow> bitcode_file list \<Rightarrow> bitcode_file list" where
  "redirect_all un store bs = map (\<lambda>b. b\<lparr>ir := insertTrampolines un (mutationPoints b) store (ir b)\<rparr>) bs"

text \<open>\<open>ApplyMutationTask\<close>, run by one worker.\<close>

fun apply_all :: "apply_mutation \<Rightarrow> mutation_point list \<Rightarrow> bitcode_file list \<Rightarrow> bitcode_file list result" where
  "apply_all applyM [] bs = Inr bs"
| "apply_all applyM (p # ps) bs =
     (let m1 = recordMutation p (ir (bs ! bitcode p))
      in bind_result (if covered p then applyMutation applyM p m1 else Inr m1)
           (\<lambda>m2. apply_all applyM ps (bs[bitcode p := (bs ! bitcode p)\<lparr>ir := m2\<rparr>])))"

text \<open>The number of workers comes from the command line through \<open>normalize\<close> and is not negative (a negative
  one would make the constructor of the vector of tasks throw, which is left out here).\<close>

definition prepareMutations ::
  "environment \<Rightarrow> Configuration \<Rightarrow> point_store \<Rightarrow> bitcode_file list \<Rightarrow>
     (bitcode_file list \<times> point_store) result" where
  "prepareMutations env cfg store program =
     (if dryRunEnabled cfg then Inr (program, store)
      else
        (let bs0 = add_mutations store program;
             n = workers (parallelization cfg);
             (bs1, store1) = (if n = 0 then (bs0, store) else clone_all (symbol_names env) bs0 store);
             bs2 = (if n = 0 then bs1 else delete_all (symbol_names env) store1 bs1);
             bs3 = (if n = 0 then bs2 else redirect_all (symbol_names env) store1 bs2)
         in bind_result (apply_all (mutator_applyMutation (mutate_instruction env)) store1 bs3)
              (\<lambda>bs. Inr (bs, store1))))"

section \<open>Compiling\<close>

text \<open>\<open>Compiler::compileBitcode\<close>: \<open>diagnostics.error\<close> ends the process.\<close>

definition tempFile :: "environment \<Rightarrow> ir_module \<Rightarrow> string \<Rightarrow> string result" where
  "tempFile env m extension =
     (case temporary_for env m ''mull'' extension of Inl err \<Rightarrow> Inl (Exited 1) | Inr path \<Rightarrow> Inr path)"

definition compileBitcode :: "environment \<Rightarrow> Configuration \<Rightarrow> bool \<Rightarrow> ir_module \<Rightarrow> string result" where
  "compileBitcode env cfg strict m =
     (if verify_module env m \<noteq> None then Inl (Exited 1)
      else if lookup_target env m \<noteq> None then Inl (Exited 1)
      else bind_result (tempFile env m ''o'') (\<lambda>object_file.
        if open_for_writing env object_file \<noteq> None then Inl (Exited 1)
        else if \<not> can_emit_object env m then Inl (Exited 1)
        else if debugEnabled cfg
        then bind_result (tempFile env m ''bc'') (\<lambda>bitcode_file.
          if open_for_writing env bitcode_file \<noteq> None
          then (if strict then Inl (Exited 1) else Inr [])
          else Inr object_file)
        else Inr object_file))"

section \<open>Running\<close>

datatype file_op = RemoveFile string | CopyFile string string

definition dry_run_mutant :: "mutant \<Rightarrow> MutationResult result list" where
  "dry_run_mutant m = [Inr \<lparr>execution_result = new_ExecutionResult\<lparr>status := DryRun\<rparr>, result_mutant = m\<rparr>]"

definition dryRunMutations :: "Configuration \<Rightarrow> mutant list \<Rightarrow> MutationResult list result" where
  "dryRunMutations cfg mutants =
     run_tasks (workers (parallelization cfg)) dry_run_mutant mutants"

definition compile_task :: "environment \<Rightarrow> Configuration \<Rightarrow> bool \<Rightarrow> bitcode_file \<Rightarrow> string result list" where
  "compile_task env cfg strict b = [compileBitcode env cfg strict (ir b)]"

text \<open>The linker runs at time 1, the runs of \<open>runMutants\<close> start at time 2.\<close>

definition normalRunMutations ::
  "environment \<Rightarrow> Configuration \<Rightarrow> bitcode_file list \<Rightarrow> mutant list \<Rightarrow> (MutationResult list \<times> file_op list) diag" where
  "normalRunMutations env cfg program mutants =
     diag_bind (\<lambda>d. (d, run_tasks (workers (parallelization cfg))
         (compile_task env cfg (strictModeEnabled d)) program)) (\<lambda>objectFiles.
     diag_bind (linkObjectFiles (processes env 1) (temporary_file env) cfg objectFiles) (\<lambda>mutated.
     diag_bind (diag_info (''Mutated executable: '' @ mutated)) (\<lambda>_.
     let removed = (if \<not> keepObjectFiles cfg then map RemoveFile objectFiles else [])
     in if mutateOnly cfg then diag_return ([], removed)
        else diag_bind (runMutants (\<lambda>k. processes env (2 + k)) cfg mutated [] mutants) (\<lambda>results.
          diag_return (results, removed @ (if \<not> keepExecutable cfg then [RemoveFile mutated] else []))))))"

definition runMutations ::
  "environment \<Rightarrow> Configuration \<Rightarrow> bitcode_file list \<Rightarrow> mutant list \<Rightarrow> (MutationResult list \<times> file_op list) diag" where
  "runMutations env cfg program mutants =
     (if mutants = []
      then diag_return ([], if keepExecutable cfg \<and> outputFile cfg \<noteq> []
                            then [CopyFile (executable cfg) (outputFile cfg)] else [])
      else if dryRunEnabled cfg
      then diag_bind (diag_lift (dryRunMutations cfg mutants)) (\<lambda>results. diag_return (results, []))
      else normalRunMutations env cfg program mutants)"

record run_result =
  run_mutants :: "mutant list"
  run_results :: "MutationResult list"
  run_program :: "bitcode_file list"
  run_files :: "file_op list"

definition run ::
  "environment \<Rightarrow> Configuration \<Rightarrow> Filters \<Rightarrow> mutator list \<Rightarrow> bitcode_file list \<Rightarrow> run_result diag" where
  "run env cfg filters mutators program =
     diag_bind (findMutationPoints env cfg filters mutators program) (\<lambda>mutationPoints.
     diag_bind (diag_lift (filterMutations cfg filters mutationPoints)) (\<lambda>filteredMutations.
     diag_bind (diag_lift (prepareMutations env cfg filteredMutations program)) (\<lambda>(program', store).
     let mutants = deduplicate_mutants store
     in diag_bind (runMutations env cfg program' mutants) (\<lambda>(results, files).
        diag_return \<lparr>run_mutants = mutants, run_results = results, run_program = program',
                     run_files = files\<rparr>))))"

section \<open>Deduplication\<close>

lemma any_covered_iff: "any_covered ps \<longleftrightarrow> (\<exists>p \<in> set ps. covered p)"
  by (induction ps) auto

text \<open>What the groups are: under its identifier, each has the points with that identifier, in order.\<close>

definition groups_ok :: "mutation_point list \<Rightarrow> (string \<times> mutation_point list) list \<Rightarrow> bool" where
  "groups_ok points mapping \<longleftrightarrow>
     distinct (map fst mapping) \<and> set (map fst mapping) = userIdentifier ` set points \<and>
     (\<forall>(k, ps) \<in> set mapping. ps = filter (\<lambda>p. userIdentifier p = k) points)"

lemma set_push_back_at:
  assumes "distinct (map fst m)"
  shows "set (push_back_at k v m) =
    {(l, vs) \<in> set m. l \<noteq> k} \<union> {(k, points_of m k @ [v])}"
  using assms
proof (induction m)
  case (Cons a m)
  obtain l vs where a: "a = (l, vs)" by (cases a)
  show ?case
  proof (cases "k = l")
    case True
    have "(k', vs') \<in> set m \<Longrightarrow> k' \<noteq> l" for k' vs' using Cons.prems a by force
    then show ?thesis using True by (auto simp: a points_of_def)
  next
    case False
    then show ?thesis using Cons by (auto simp: a points_of_def)
  qed
qed (simp add: points_of_def)

lemma groups_ok_step:
  assumes "groups_ok points mapping"
  shows "groups_ok (points @ [p]) (push_back_at (userIdentifier p) p mapping)"
proof -
  let ?k = "userIdentifier p"
  have d: "distinct (map fst mapping)" and ks: "set (map fst mapping) = userIdentifier ` set points"
    and g: "\<And>k ps. (k, ps) \<in> set mapping \<Longrightarrow> ps = filter (\<lambda>p. userIdentifier p = k) points"
    using assms by (auto simp: groups_ok_def)
  have pk: "points_of mapping ?k = filter (\<lambda>p. userIdentifier p = ?k) points"
  proof (cases "map_of mapping ?k")
    case None
    then have "?k \<notin> userIdentifier ` set points" using ks by (simp add: map_of_eq_None_iff)
    then have "filter (\<lambda>p. userIdentifier p = ?k) points = []"
      unfolding filter_empty_conv by (metis image_eqI)
    then show ?thesis by (simp add: points_of_def None)
  next
    case (Some ps)
    then show ?thesis using g [OF map_of_SomeD] by (simp add: points_of_def)
  qed
  have keys: "set (map fst (push_back_at ?k p mapping)) = userIdentifier ` set (points @ [p])"
    by (simp add: keys_push_back ks del: set_map)
  show ?thesis
    unfolding groups_ok_def keys
    using distinct_push_back [OF d] g pk by (auto simp: set_push_back_at [OF d])
qed

lemma group_points_ok: "groups_ok points (group_points points)"
proof (induction points rule: rev_induct)
  case Nil
  then show ?case by (simp add: groups_ok_def group_points_def)
next
  case (snoc p ps)
  then show ?case using groups_ok_step by (simp add: group_points_def)
qed

text \<open>The identifier the constructor of \<open>MutationPoint\<close> makes.\<close>

definition well_named :: "mutation_point \<Rightarrow> bool" where
  "well_named p \<longleftrightarrow>
     userIdentifier p = getUniqueIdentifier (point_mutator p) @ '':'' @ filePath (sourceLocation p) @ '':'' @
       string_of_int (line (sourceLocation p)) @ '':'' @ string_of_int (column (sourceLocation p))"

lemma well_named_MutationPoint [simp]: "well_named (MutationPoint ia mu low bc m p i)"
  by (simp add: well_named_def MutationPoint_def Let_def)

lemma mutant_of_group_fields [simp]:
  "mutant_identifier (mutant_of_group (k, ps)) = k"
  "mutant_covered (mutant_of_group (k, ps)) = any_covered ps"
  "mutant_location (mutant_of_group (k, ps)) = sourceLocation (hd ps)"
  "mutatorIdentifier (mutant_of_group (k, ps)) = getUniqueIdentifier (point_mutator (hd ps))"
  by (simp_all add: mutant_of_group_def Let_def setMutatorKind_def Mutant_def)

lemma group_hd:
  assumes "groups_ok points mapping" "(k, ps) \<in> set mapping"
  shows "hd ps \<in> set points \<and> userIdentifier (hd ps) = k"
proof -
  have "k \<in> set (map fst mapping)" using assms(2) by force
  then have "ps = filter (\<lambda>p. userIdentifier p = k) points" "k \<in> userIdentifier ` set points"
    using assms by (auto simp: groups_ok_def split: prod.splits)
  then have "ps \<noteq> []" "set ps \<subseteq> {p \<in> set points. userIdentifier p = k}" by (auto simp: filter_empty_conv)
  then show ?thesis using hd_in_set [of ps] by blast
qed

lemma group_keys_distinct:
  assumes "groups_ok points mapping" "\<forall>p \<in> set points. well_named p"
  shows "distinct (map mutant_key (map mutant_of_group mapping))"
proof -
  have key: "fst g = (let (f, l, c, m) = mutant_key (mutant_of_group g)
      in m @ '':'' @ f @ '':'' @ string_of_int l @ '':'' @ string_of_int c)" if "g \<in> set mapping" for g
    using group_hd [OF assms(1), of "fst g" "snd g"] that assms(2)
    by (cases g) (auto simp: mutant_key_def well_named_def)
  have "inj_on (mutant_key \<circ> mutant_of_group) (set mapping)"
  proof (rule inj_onI)
    fix g h assume gh: "g \<in> set mapping" "h \<in> set mapping"
      "(mutant_key \<circ> mutant_of_group) g = (mutant_key \<circ> mutant_of_group) h"
    then have "fst g = fst h" using key by (simp add: Let_def)
    moreover have "inj_on fst (set mapping)" using assms(1) by (simp add: groups_ok_def distinct_map)
    ultimately show "g = h" using gh by (auto dest: inj_onD)
  qed
  moreover have "distinct mapping" using assms(1) by (simp add: groups_ok_def distinct_map)
  ultimately show ?thesis by (simp add: distinct_map comp_inj_on_iff)
qed

lemma groups_ok_mset:
  assumes "groups_ok points mapping" "mset mapping' = mset mapping"
  shows "groups_ok points mapping'"
proof -
  have "set mapping' = set mapping" using assms(2) by (metis set_mset_mset)
  moreover have "distinct (map fst mapping')"
    using assms by (metis (no_types) groups_ok_def mset_eq_imp_distinct_iff mset_map)
  ultimately show ?thesis using assms(1) by (simp add: groups_ok_def)
qed

text \<open>C10. Whatever order the hash table has and however \<open>std::sort\<close> treats equal elements, deduplication
  gives the same list of mutants, as long as the points have the identifiers their constructor gives
  them: sorted by file, line, column and mutator, one mutant for every identifier that occurs, and a
  mutant is covered exactly when some point with its identifier is.\<close>

theorem deduplication_is_deterministic:
  assumes "\<forall>p \<in> set points. well_named p" "mset groups = mset (group_points points)"
    and "std_sort_result (map mutant_of_group groups) mutants"
  shows "mutants = deduplicate_mutants points \<and> distinct (map mutant_identifier mutants) \<and>
    sorted (map mutant_key mutants) \<and>
    set (map mutant_identifier mutants) = userIdentifier ` set points \<and>
    (\<forall>m \<in> set mutants. mutant_covered m \<longleftrightarrow> (\<exists>p \<in> set points. userIdentifier p = mutant_identifier m \<and> covered p))"
proof -
  have ok: "groups_ok points groups" by (rule groups_ok_mset [OF group_points_ok assms(2)])
  have ms: "mset mutants = mset (map mutant_of_group groups)"
    and so: "sorted (map mutant_key mutants)"
    using assms(3) by (simp_all add: std_sort_result_def MutantComparator_def not_less sorted_map)
  have "std_sort_result (map mutant_of_group (group_points points)) mutants"
    using assms(2,3) by (simp add: std_sort_result_def)
  then have eq: "mutants = deduplicate_mutants points"
    unfolding deduplicate_mutants_def
    by (rule std_sort_unique) (rule group_keys_distinct [OF group_points_ok assms(1)])
  have ids: "mset (map mutant_identifier mutants) = mset (map fst groups)"
  proof -
    have "mset (map mutant_identifier mutants) = mset (map mutant_identifier (map mutant_of_group groups))"
      using ms by (metis mset_map)
    also have "map mutant_identifier (map mutant_of_group groups) = map fst groups" by auto
    finally show ?thesis .
  qed
  have d: "distinct (map mutant_identifier mutants)"
    using ids ok by (metis groups_ok_def mset_eq_imp_distinct_iff)
  have s: "set (map mutant_identifier mutants) = userIdentifier ` set points"
    using ids ok by (metis groups_ok_def set_mset_mset)
  have "mutant_covered m \<longleftrightarrow> (\<exists>p \<in> set points. userIdentifier p = mutant_identifier m \<and> covered p)"
    if "m \<in> set mutants" for m
  proof -
    have "m \<in> set (map mutant_of_group groups)" using that ms by (metis set_mset_mset)
    then obtain k ps where g: "(k, ps) \<in> set groups" "m = mutant_of_group (k, ps)" by auto
    then have "ps = filter (\<lambda>p. userIdentifier p = k) points" using ok by (auto simp: groups_ok_def)
    with g show ?thesis by (auto simp: any_covered_iff)
  qed
  with eq d so s show ?thesis by blast
qed

definition twin_point :: mutation_point where
  "twin_point =
     MutationPoint (\<lambda>_. True) mk_AddToSub None 0 sample_module
       \<lparr>in_function = ''f'', in_block = ''entry'', at_inst = ''a''\<rparr>
       (sample_inst ''a'' (BinaryOp ''add'' (ArgRef 0) (ArgRef 1)) 7)"

lemma deduplication_is_deterministic_witness:
  "map mutant_covered (deduplicate_mutants [setCovered False twin_point, setCovered True twin_point]) = [True]"
proof -
  let ?points = "[setCovered False twin_point, setCovered True twin_point]"
  have same: "well_named (setCovered c p) = well_named p" "userIdentifier (setCovered c p) = userIdentifier p"
    "covered (setCovered c p) = c" for c p
    by (simp_all add: setCovered_def well_named_def)
  have g: "\<forall>p \<in> set ?points. well_named p"
    by (simp add: same twin_point_def)
  let ?ms = "deduplicate_mutants ?points"
  have r: "std_sort_result (map mutant_of_group (group_points ?points)) ?ms"
    unfolding deduplicate_mutants_def by (rule sort_mutants_result)
  note all = deduplication_is_deterministic [OF g refl r]
  have ids: "set (map mutant_identifier ?ms) = {userIdentifier twin_point}"
    using all by (simp add: same)
  moreover have "distinct (map mutant_identifier ?ms)" using all by blast
  ultimately have "length ?ms = 1"
    using distinct_card [of "map mutant_identifier ?ms"] by simp
  then obtain m where m: "?ms = [m]" by (auto simp: length_Suc_conv)
  have "mutant_covered m \<longleftrightarrow> (\<exists>p \<in> set ?points. userIdentifier p = userIdentifier twin_point \<and> covered p)"
    using all ids by (simp add: m)
  then show ?thesis by (simp add: same m)
qed

section \<open>Functions with coverage\<close>

text \<open>A record names a function of a file: by the bare name, or with the file name as scope.\<close>

definition record_covers :: "string \<Rightarrow> string \<Rightarrow> string \<times> nat \<Rightarrow> bool" where
  "record_covers file_name function_name r \<longleftrightarrow>
     0 < snd r \<and>
     (let (scope, name) = split_scope (fst r)
      in name = function_name \<and> (scope = [] \<or> scope = file_name))"

lemma coverage_sets_record_covers:
  "n \<in> set (snd (coverage_sets rs)) \<or> (sc, n) \<in> set (fst (coverage_sets rs)) \<longleftrightarrow>
     list_ex (record_covers sc n) rs"
proof (induction rs)
  case (Cons r rs)
  obtain name k where r: "r = (name, k)" by (cases r)
  obtain scoped unscoped where e: "coverage_sets rs = (scoped, unscoped)" by fastforce
  obtain s m where sp: "split_scope name = (s, m)" by fastforce
  show ?case
  proof (cases "k = 0")
    case True
    then show ?thesis using Cons.IH by (simp add: r record_covers_def)
  next
    case False
    then show ?thesis
      using Cons.IH by (cases "s = []") (auto simp: r e sp record_covers_def)
  qed
qed simp

text \<open>With coverage information a function counts as covered exactly when some record with a
  non-zero execution count names it.\<close>

lemma function_covered_iff_recorded:
  "function_covered ia filename records f \<longleftrightarrow>
     list_ex (record_covers (filename (unitFilePath (locationFromFunction ia f))) (fname f)) records"
  using coverage_sets_record_covers [of "fname f" records]
  by (auto simp: function_covered_def split_beta)

section \<open>The pipeline\<close>

text \<open>What the finder looks at and finds, without executors.\<close>

definition selected_functions ::
  "Filters \<Rightarrow> bitcode_file list \<Rightarrow> function_under_test list \<Rightarrow> function_under_test list" where
  "selected_functions filters program funs =
     map (\<lambda>fut. selectInstructions (module_of program fut) (instructionFilters filters) fut)
       (kept (map (skip_function_under_test program) (functionFilters filters)) funs)"

definition points_found ::
  "environment \<Rightarrow> Filters \<Rightarrow> mutator list \<Rightarrow> bitcode_file list \<Rightarrow> function_under_test list \<Rightarrow>
     mutation_point list" where
  "points_found env filters mutators program funs =
     concat (map (search_points (absolute_path env) (can_mutate env) mutators program)
       (selected_functions filters program funs))"

lemma update_tasks_eq:
  assumes "0 < n" "length xs < 2 ^ 31"
  shows "update_tasks n f xs = Inr (map f xs)"
  using assms by (simp add: update_tasks_def run_tasks_one_each)

lemma length_kept: "length (kept fs xs) \<le> length xs"
  by (simp add: kept_def)

lemma findMutationPoints_eq:
  assumes "0 < workers (parallelization cfg)"
    and "sanity_check_run (processes env 0) cfg d0 = (d1, Inr ())"
    and "getFunctionsUnderTest (absolute_path env) (path_filename env) (coverage_load env) cfg program d1 =
      (d, Inr funs)"
    and "length funs < 2 ^ 31"
    and "decided (map (skip_function_under_test program) (functionFilters filters)) funs"
  shows "findMutationPoints env cfg filters mutators program d0 =
    (d, Inr (points_found env filters mutators program funs))"
proof -
  let ?kept = "kept (map (skip_function_under_test program) (functionFilters filters)) funs"
  have l: "length ?kept < 2 ^ 31" using length_kept assms(4) by (rule le_less_trans)
  have f: "filterFunctions cfg filters program funs = Inr ?kept"
    unfolding filterFunctions_def by (rule filter_in_turn_eq) (fact assms)+
  have s: "select_all_instructions cfg filters program ?kept =
      Inr (selected_functions filters program funs)"
    unfolding select_all_instructions_def selected_functions_def
    by (rule update_tasks_eq) (fact assms(1) l)+
  have "length (selected_functions filters program funs) < 2 ^ 31"
    using l by (simp add: selected_functions_def)
  then have "getMutationPoints (absolute_path env) (can_mutate env) mutators cfg program
      (selected_functions filters program funs) = Inr (points_found env filters mutators program funs)"
    unfolding getMutationPoints_def points_found_def by (rule run_tasks_pure [OF assms(1)])
  with f s show ?thesis
    by (simp add: findMutationPoints_def st_bind_def assms(2,3) st_lift_def)
qed

lemma getMutations_well_named:
  "p \<in> set (getMutations ia cm m mu fut) \<Longrightarrow> well_named p"
  by (auto simp: getMutations_def trivial_getMutations_def unary_minus_getMutations_def
      AndToOr_getMutations_def OrToAnd_getMutations_def logical_getMutations_def
      split: mutator_class.splits option.splits if_splits)

lemma points_found_well_named: "list_all well_named (points_found env filters mutators program funs)"
  by (auto simp: list_all_iff points_found_def search_points_def setCovered_def well_named_def
      dest!: getMutations_well_named)

text \<open>The point belongs to a function's bitcode and is covered when the function is.\<close>

definition point_in :: "function_under_test list \<Rightarrow> mutation_point \<Rightarrow> bool" where
  "point_in funs p \<longleftrightarrow> list_ex (\<lambda>fut. bitcode p = fut_bitcode fut \<and> covered p = fut_covered fut) funs"

lemma getMutations_bitcode:
  "p \<in> set (getMutations ia cm m mu fut) \<Longrightarrow> bitcode p = fut_bitcode fut"
  by (auto simp: getMutations_def trivial_getMutations_def unary_minus_getMutations_def
      AndToOr_getMutations_def OrToAnd_getMutations_def logical_getMutations_def MutationPoint_def Let_def
      split: mutator_class.splits option.splits if_splits)

lemma selectInstructions_fields [simp]:
  "fut_bitcode (selectInstructions m fs fut) = fut_bitcode fut"
  "fut_covered (selectInstructions m fs fut) = fut_covered fut"
  by (simp_all add: selectInstructions_def split: option.split)

lemma points_found_in: "list_all (point_in funs) (points_found env filters mutators program funs)"
  unfolding list_all_iff
proof
  fix p assume "p \<in> set (points_found env filters mutators program funs)"
  then obtain fut mu q where fut: "fut \<in> set funs"
    and q: "q \<in> set (getMutations (absolute_path env) (can_mutate env)
        (module_of program (selectInstructions (module_of program fut) (instructionFilters filters) fut)) mu
        (selectInstructions (module_of program fut) (instructionFilters filters) fut))"
    and p: "p = setCovered (fut_covered fut) q"
    by (auto simp: points_found_def search_points_def selected_functions_def kept_def)
  have "bitcode p = fut_bitcode fut" "covered p = fut_covered fut"
    using getMutations_bitcode [OF q] by (simp_all add: p setCovered_def)
  with fut show "point_in funs p" by (auto simp: point_in_def list_ex_iff)
qed

text \<open>C11. With at least one worker and filters that decide on every function, the driver's search gives,
  whatever the number of workers, the points that each mutator finds in each function all function
  filters keep, on the instructions all instruction filters keep, in the order of the functions; every
  point lies in the bitcode of one of the functions and is covered when that function is, and has the
  identifier made of its mutator and its source location, on which deduplication relies.\<close>

theorem search_is_worker_independent:
  assumes "0 < workers (parallelization cfg)"
    and "sanity_check_run (processes env 0) cfg d0 = (d1, Inr ())"
    and "getFunctionsUnderTest (absolute_path env) (path_filename env) (coverage_load env) cfg program d1 =
      (d, Inr funs)"
    and "length funs < 2 ^ 31"
    and "decided (map (skip_function_under_test program) (functionFilters filters)) funs"
  shows "findMutationPoints env cfg filters mutators program d0 =
      (d, Inr (points_found env filters mutators program funs)) \<and>
    list_all well_named (points_found env filters mutators program funs) \<and>
    list_all (point_in funs) (points_found env filters mutators program funs)"
  using findMutationPoints_eq [OF assms] points_found_well_named points_found_in by blast

definition sample_environment :: environment where
  "sample_environment =
     \<lparr>absolute_path = (\<lambda>_. True), path_filename = (\<lambda>p. p), coverage_load = (\<lambda>_ _. Inr []),
      can_mutate = (\<lambda>low i. low = irm ''AddToSub'' [] \<and> is_binary_op (opcode i)), mutate_instruction = (\<lambda>low i f. f),
      symbol_names = suffix_name, verify_module = (\<lambda>_. None), lookup_target = (\<lambda>_. None),
      open_for_writing = (\<lambda>_. None), can_emit_object = (\<lambda>_. True),
      temporary_for = (\<lambda>m p e. Inr p), temporary_file = (\<lambda>p e. Inr p), processes = quick_world\<rparr>"

definition sample_configuration :: Configuration where
  "sample_configuration = new_Configuration\<lparr>dryRunEnabled := True, skipSanityCheckRun := True\<rparr>"

definition no_filters :: Filters where
  "no_filters = \<lparr>mutationFilters = [], functionFilters = [], instructionFilters = []\<rparr>"

definition sample_program :: "bitcode_file list" where
  "sample_program = [Bitcode (\<lambda>n. n) sample_module]"

lemmas sample_run_defs = sample_environment_def sample_configuration_def no_filters_def sample_program_def
  new_Configuration_def singleThreadParallelization_def

lemma sample_functions:
  "getFunctionsUnderTest (absolute_path sample_environment) (path_filename sample_environment)
     (coverage_load sample_environment) sample_configuration sample_program d =
   (d, Inr [FunctionUnderTest ''f'' 0 True])"
  by (simp add: getFunctionsUnderTest_def loadCoverage_def sample_run_defs all_functions_def Bitcode_def
      sample_module_def sample_function_def st_bind_def st_return_def)

lemma sample_points:
  "length (points_found sample_environment no_filters [mk_AddToSub] sample_program [FunctionUnderTest ''f'' 0 True]) = 1"
  by (simp add: points_found_def selected_functions_def kept_def sample_run_defs search_points_def
      getMutations_def trivial_getMutations_def selectInstructions_def module_of_def Bitcode_def
      FunctionUnderTest_def sample_defs get_function_def get_block_def get_inst_def deref_def instructions_def
      pointer_to_def is_binary_op_def mk_AddToSub_def TrivialCXXMutator_def getAddToSub_def)

lemma sample_found:
  obtains p where
    "findMutationPoints sample_environment sample_configuration no_filters [mk_AddToSub] sample_program
       new_diagnostics = (new_diagnostics, Inr [p])"
proof -
  have "sanity_check_run (processes sample_environment 0) sample_configuration new_diagnostics =
      (new_diagnostics, Inr ())"
    by (simp add: sanity_check_run_def sample_run_defs st_return_def)
  moreover have "decided (map (skip_function_under_test sample_program) (functionFilters no_filters))
      [FunctionUnderTest ''f'' 0 True]"
    by (simp add: no_filters_def decided_def)
  ultimately have "findMutationPoints sample_environment sample_configuration no_filters [mk_AddToSub]
       sample_program new_diagnostics = (new_diagnostics, Inr (points_found sample_environment no_filters
         [mk_AddToSub] sample_program [FunctionUnderTest ''f'' 0 True]))"
    using findMutationPoints_eq [OF _ _ sample_functions]
    by (simp add: sample_configuration_def new_Configuration_def singleThreadParallelization_def)
  moreover obtain p where "points_found sample_environment no_filters
         [mk_AddToSub] sample_program [FunctionUnderTest ''f'' 0 True] = [p]"
    using sample_points by (metis (no_types) One_nat_def length_0_conv length_Suc_conv)
  ultimately show thesis using that by simp
qed

lemma deduplicate_single: "deduplicate_mutants [p] = [mutant_of_group (userIdentifier p, [p])]"
  by (simp add: deduplicate_mutants_def group_points_def sort_mutants_def)

lemma sample_configuration_fields [simp]:
  "workers (parallelization sample_configuration) = 1" "dryRunEnabled sample_configuration"
  "mutantExecutionWorkers (parallelization sample_configuration) = 1"
  "outputFile sample_configuration = []" "keepExecutable sample_configuration = False"
  by (simp_all add: sample_configuration_def new_Configuration_def singleThreadParallelization_def)

lemma search_is_worker_independent_witness:
  "\<exists>points. findMutationPoints sample_environment sample_configuration no_filters [mk_AddToSub] sample_program
      new_diagnostics = (new_diagnostics, Inr points) \<and> length points = 1 \<and> list_all well_named points"
proof -
  have "sanity_check_run (processes sample_environment 0) sample_configuration new_diagnostics =
      (new_diagnostics, Inr ())"
    by (simp add: sanity_check_run_def sample_run_defs st_return_def)
  moreover have "decided (map (skip_function_under_test sample_program) (functionFilters no_filters))
      [FunctionUnderTest ''f'' 0 True]"
    by (simp add: no_filters_def decided_def)
  ultimately show ?thesis
    using search_is_worker_independent [OF _ _ sample_functions, of new_diagnostics new_diagnostics no_filters
        "[mk_AddToSub]"] sample_points
    by (simp add: sample_configuration_def new_Configuration_def singleThreadParallelization_def)
qed

text \<open>A dry run changes nothing: the program stays as it was, no file is touched (except that with
  nothing to mutate a kept executable is copied), and every mutant of the filtered points gets the
  result \<open>DryRun\<close>, in order.\<close>

lemma dry_run_executes_nothing:
  assumes "0 < workers (parallelization cfg)" "dryRunEnabled cfg"
    and "findMutationPoints env cfg filters mutators program d0 = (d, Inr points)"
    and "length points < 2 ^ 31" "decided_as (mutationFilters filters) points"
    and "mutants = deduplicate_mutants (kept_as (mutationFilters filters) points)"
    and "length mutants < 2 ^ 31"
  shows "run env cfg filters mutators program d0 =
    (d, Inr \<lparr>run_mutants = mutants,
             run_results = map (\<lambda>m. \<lparr>execution_result = new_ExecutionResult\<lparr>status := DryRun\<rparr>,
                                     result_mutant = m\<rparr>) mutants,
             run_program = program,
             run_files = (if mutants = [] \<and> keepExecutable cfg \<and> outputFile cfg \<noteq> []
                          then [CopyFile (executable cfg) (outputFile cfg)] else [])\<rparr>)"
proof -
  have f: "filterMutations cfg filters points = Inr (kept_as (mutationFilters filters) points)"
    unfolding filterMutations_def by (rule apply_in_turn_eq) (fact assms)+
  have p: "prepareMutations env cfg store program = Inr (program, store)" for store
    by (simp add: prepareMutations_def assms(2))
  have dry: "dryRunMutations cfg mutants =
     Inr (map (\<lambda>m. \<lparr>execution_result = new_ExecutionResult\<lparr>status := DryRun\<rparr>, result_mutant = m\<rparr>) mutants)"
    unfolding dryRunMutations_def dry_run_mutant_def [abs_def] by (rule run_tasks_one_each) (fact assms)+
  show ?thesis
    by (simp add: run_def st_bind_def assms(3) st_lift_def f p Let_def runMutations_def
        assms(2) dry st_return_def flip: assms(6))
qed

lemma dry_run_executes_nothing_witness:
  "\<exists>m. run sample_environment sample_configuration no_filters [mk_AddToSub] sample_program new_diagnostics =
     (new_diagnostics, Inr \<lparr>run_mutants = [m],
        run_results = [\<lparr>execution_result = new_ExecutionResult\<lparr>status := DryRun\<rparr>, result_mutant = m\<rparr>],
        run_program = sample_program, run_files = []\<rparr>)"
proof -
  obtain p where p: "findMutationPoints sample_environment sample_configuration no_filters [mk_AddToSub]
       sample_program new_diagnostics = (new_diagnostics, Inr [p])"
    by (rule sample_found)
  have k: "kept_as (mutationFilters no_filters) [p] = [p]" "decided_as (mutationFilters no_filters) [p]"
    by (simp_all add: no_filters_def kept_as_def decided_as_def List.map_filter_simps)
  show ?thesis
    using dry_run_executes_nothing [OF _ _ p _ k(2) refl] by (simp add: k(1) deduplicate_single)
qed

text \<open>The status a mutant's result may have in each mode.\<close>

definition possible_status :: "Configuration \<Rightarrow> mutant \<Rightarrow> ExecutionStatus \<Rightarrow> bool" where
  "possible_status cfg m st =
     (if dryRunEnabled cfg then st = DryRun
      else if mutant_covered m then st \<in> {Passed, Failed, Timedout} else st = NotCovered)"

lemma runProgram_in_task_status:
  assumes "runProgram_in_task exec prog args env t cap cwd = Inr r"
  shows "status r \<in> {Passed, Failed, Timedout}"
  using assms
  by (auto simp: runProgram_in_task_def run_process_def Let_def split: option.splits start_error.splits if_splits)

lemma run_mutant_status:
  assumes "run_mutant world cfg prog baseline args (k, m) = Inr r" "\<not> dryRunEnabled cfg"
  shows "result_mutant r = m \<and> possible_status cfg m (status (execution_result r))"
  using assms
  by (auto simp: run_mutant_def possible_status_def new_ExecutionResult_def split: if_splits
      dest: runProgram_in_task_status)

lemma runMutants_results:
  assumes "runMutants world cfg prog args mutants d = (d', Inr rs)" "\<not> dryRunEnabled cfg"
    and "0 < mutantExecutionWorkers (parallelization cfg)" "length mutants < 2 ^ 31"
  shows "list_all2 (\<lambda>m r. result_mutant r = m \<and> possible_status cfg m (status (execution_result r))) mutants rs"
proof -
  obtain b where "run_tasks (mutantExecutionWorkers (parallelization cfg))
         (\<lambda>km. [run_mutant world cfg prog b args km]) (enumerate 0 mutants) = Inr rs"
    using assms(1)
    by (auto simp: runMutants_def st_bind_def st_lift_def split: prod.splits sum.splits)
  then have "list_all2 (\<lambda>km r. run_mutant world cfg prog b args km = Inr r) (enumerate 0 mutants) rs"
    by (rule run_tasks_one_each_D) (use assms(3,4) in auto)
  then have "list_all2 (\<lambda>km r. result_mutant r = snd km \<and> possible_status cfg (snd km) (status (execution_result r)))
      (enumerate 0 mutants) rs"
    by (rule list_all2_mono) (use run_mutant_status assms(2) in force)
  then have "list_all2 (\<lambda>m r. result_mutant r = m \<and> possible_status cfg m (status (execution_result r)))
      (map snd (enumerate 0 mutants)) rs"
    unfolding list.rel_map .
  then show ?thesis by simp
qed

text \<open>Whether the mode runs the mutants at all.\<close>

definition executes_mutants :: "Configuration \<Rightarrow> bool" where
  "executes_mutants cfg = (dryRunEnabled cfg \<or> mutateOnly cfg = False)"

lemma runMutations_results:
  assumes "runMutations env cfg program mutants d = (d', Inr (rs, files))"
    and "0 < workers (parallelization cfg)" "0 < mutantExecutionWorkers (parallelization cfg)"
    and "length mutants < 2 ^ 31"
  shows "list_all2 (\<lambda>m r. result_mutant r = m \<and> possible_status cfg m (status (execution_result r)))
    (if executes_mutants cfg then mutants else []) rs"
proof (cases "mutants = []")
  case True
  then show ?thesis using assms(1) by (simp add: runMutations_def st_return_def)
next
  case False
  show ?thesis
  proof (cases "dryRunEnabled cfg")
    case True
    then have "dryRunMutations cfg mutants = Inr rs"
      using assms(1) False by (auto simp: runMutations_def st_bind_Inr st_lift_def st_return_def)
    then have "rs = map (\<lambda>m. \<lparr>execution_result = new_ExecutionResult\<lparr>status := DryRun\<rparr>, result_mutant = m\<rparr>) mutants"
      using run_tasks_one_each [OF assms(2,4), of "\<lambda>m. \<lparr>execution_result = new_ExecutionResult\<lparr>status := DryRun\<rparr>, result_mutant = m\<rparr>"]
      by (simp add: dryRunMutations_def dry_run_mutant_def [abs_def])
    then show ?thesis
      using True by (simp add: executes_mutants_def list.rel_map list_all2_same possible_status_def
          new_ExecutionResult_def)
  next
    case no_dry: False
    have normal: "normalRunMutations env cfg program mutants d = (d', Inr (rs, files))"
      using assms(1) False no_dry by (simp add: runMutations_def)
    show ?thesis
    proof (cases "mutateOnly cfg")
      case True
      then show ?thesis using normal no_dry
        by (auto simp: normalRunMutations_def st_bind_Inr st_return_def executes_mutants_def Let_def)
    next
      case mo: False
      then obtain wl prog d1 where "runMutants wl cfg prog [] mutants d1 = (d', Inr rs)"
        using normal
        by (auto simp: normalRunMutations_def st_bind_Inr st_return_def Let_def)
      from runMutants_results [OF this no_dry assms(3,4)] show ?thesis
        using mo by (simp add: executes_mutants_def)
    qed
  qed
qed

text \<open>C15. In every mode in which mutants are executed, the results of a run that ends normally are one per
  mutant, in the order of the mutants: \<open>DryRun\<close> in a dry run; otherwise passed, failed or timed out for
  a covered mutant and \<open>NotCovered\<close> for the others. A run that only mutates has no results.\<close>

theorem one_result_per_mutant:
  assumes "run env cfg filters mutators program d = (d', Inr r)"
    and "0 < workers (parallelization cfg)" "0 < mutantExecutionWorkers (parallelization cfg)"
    and "length (run_mutants r) < 2 ^ 31"
  shows "list_all2 (\<lambda>m res. result_mutant res = m \<and> possible_status cfg m (status (execution_result res)))
    (if executes_mutants cfg then run_mutants r else []) (run_results r)"
proof -
  obtain program' d1 files where "runMutations env cfg program' (run_mutants r) d1 = (d', Inr (run_results r, files))"
    using assms(1)
    by (auto simp: run_def st_bind_Inr st_return_def Let_def split: prod.splits)
  then show ?thesis by (rule runMutations_results) (fact assms)+
qed

lemma sample_run_value:
  "\<exists>m. run sample_environment sample_configuration no_filters [mk_AddToSub] sample_program new_diagnostics =
     (new_diagnostics, Inr \<lparr>run_mutants = [m],
        run_results = [\<lparr>execution_result = new_ExecutionResult\<lparr>status := DryRun\<rparr>, result_mutant = m\<rparr>],
        run_program = sample_program, run_files = []\<rparr>)"
proof -
  obtain p where p: "findMutationPoints sample_environment sample_configuration no_filters [mk_AddToSub]
       sample_program new_diagnostics = (new_diagnostics, Inr [p])"
    by (rule sample_found)
  have "filterMutations sample_configuration no_filters [p] = Inr [p]"
    by (simp add: filterMutations_def no_filters_def)
  moreover have "run_tasks 1 (\<lambda>m. [Inr (f m)]) [x] = Inr [f x]" for f :: "mutant \<Rightarrow> MutationResult" and x
    using run_tasks_one_each [of 1 "[x]" f] by simp
  ultimately show ?thesis
    by (simp add: run_def st_bind_def p st_lift_def prepareMutations_def Let_def deduplicate_single
        runMutations_def dryRunMutations_def dry_run_mutant_def [abs_def] st_return_def)
qed

lemma one_result_per_mutant_witness:
  "\<exists>r m res. run sample_environment sample_configuration no_filters [mk_AddToSub] sample_program
      new_diagnostics = (new_diagnostics, Inr r) \<and>
    run_mutants r = [m] \<and> run_results r = [res] \<and> result_mutant res = m \<and> status (execution_result res) = DryRun"
proof -
  obtain m r where r: "run sample_environment sample_configuration no_filters [mk_AddToSub] sample_program
      new_diagnostics = (new_diagnostics, Inr r)" and m: "run_mutants r = [m]"
    using sample_run_value by fastforce
  have "list_all2 (\<lambda>m res. result_mutant res = m \<and> possible_status sample_configuration m (status (execution_result res)))
    (if executes_mutants sample_configuration then run_mutants r else []) (run_results r)"
    by (rule one_result_per_mutant [OF r]) (simp_all add: m)
  then have "list_all2 (\<lambda>m res. result_mutant res = m \<and> status (execution_result res) = DryRun) [m] (run_results r)"
    by (simp add: executes_mutants_def m possible_status_def)
  then obtain res where "run_results r = [res]" "result_mutant res = m" "status (execution_result res) = DryRun"
    by (auto simp: list_all2_Cons1)
  with r m show ?thesis by blast
qed

end
