(* ===== verification/DriverRefinement.thy ===== *)
theory DriverRefinement
  imports Driver
begin

text \<open>
  What the preparation of a whole program amounts to. \<open>Driver::prepareMutations\<close> works in stages, each
  over all bitcode files, with the points of all files in one vector. The first part shows that no step
  touches the points of another file, so that the stages do to every file what the four steps of the
  theory \<open>Trampolines\<close> do to it alone; the second carries the theorem on trampolines over to the program.
\<close>

definition indices :: "(string \<times> nat list) list \<Rightarrow> nat set" where
  "indices pairs = (\<Union>(n, ps) \<in> set pairs. set ps)"

lemma indices_simps [simp]: "indices [] = {}" "indices ((n, ps) # pairs) = set ps \<union> indices pairs"
  by (auto simp: indices_def)

text \<open>Two stores that agree on some points.\<close>

definition agree :: "nat set \<Rightarrow> point_store \<Rightarrow> point_store \<Rightarrow> bool" where
  "agree I s t \<longleftrightarrow> length s = length t \<and> (\<forall>i \<in> I. s ! i = t ! i)"

lemma agree_refl [simp]: "agree I s s"
  by (simp add: agree_def)

lemma agree_sym: "agree I s t \<Longrightarrow> agree I t s"
  by (simp add: agree_def)

lemma agree_trans: "agree I s t \<Longrightarrow> agree I t u \<Longrightarrow> agree I s u"
  by (simp add: agree_def)

section \<open>Each step looks at the points of its own file only\<close>

lemma clone_for_point_agree:
  assumes "agree I s t" "i \<in> I"
  shows "fst (clone_for_point un n i (m, s)) = fst (clone_for_point un n i (m, t)) \<and>
    agree I (snd (clone_for_point un n i (m, s))) (snd (clone_for_point un n i (m, t)))"
proof -
  have i: "s ! i = t ! i" "length s = length t" using assms by (simp_all add: agree_def)
  have "agree I (s[i := x]) (t[i := x])" for x
    using assms(1) by (cases "i < length s") (auto simp: agree_def nth_list_update list_update_beyond not_less)
  then show ?thesis using assms(1) by (simp add: clone_for_point_def Let_def i(1) split: option.split)
qed

lemma clone_for_point_others:
  "length (snd (clone_for_point un n i (m, s))) = length s \<and>
   (\<forall>k. k \<noteq> i \<longrightarrow> snd (clone_for_point un n i (m, s)) ! k = s ! k) \<and>
   (\<forall>k. bitcode (snd (clone_for_point un n i (m, s)) ! k) = bitcode (s ! k))"
  by (cases "i < length s")
    (auto simp: clone_for_point_def Let_def nth_list_update list_update_beyond not_less split: option.split)

definition flat :: "(string \<times> nat list) list \<Rightarrow> (string \<times> nat) list" where
  "flat pairs = concat (map (\<lambda>(n, ps). map (Pair n) ps) pairs)"

lemma cloneFunctions_steps:
  "cloneFunctions un pairs s = foldl (\<lambda>s (n, i). clone_for_point un n i s) s (flat pairs)"
proof (induction pairs arbitrary: s)
  case (Cons a pairs)
  obtain n ps where a: "a = (n, ps)" by (cases a)
  have "foldl (\<lambda>s (n, i). clone_for_point un n i s) s (map (Pair n) ps) =
      foldl (\<lambda>s i. clone_for_point un n i s) s ps" for s
    by (induction ps arbitrary: s) auto
  with Cons show ?case by (simp add: a cloneFunctions_def flat_def)
qed (simp add: cloneFunctions_def flat_def)

lemma flat_indices: "snd ` set (flat pairs) = indices pairs"
  by (force simp: flat_def indices_def)

lemma clone_steps_agree:
  assumes "agree I s t" "snd ` set xs \<subseteq> I"
  shows "fst (foldl (\<lambda>s (n, i). clone_for_point un n i s) (m, s) xs) =
      fst (foldl (\<lambda>s (n, i). clone_for_point un n i s) (m, t) xs) \<and>
    agree I (snd (foldl (\<lambda>s (n, i). clone_for_point un n i s) (m, s) xs))
      (snd (foldl (\<lambda>s (n, i). clone_for_point un n i s) (m, t) xs))"
  using assms
proof (induction xs arbitrary: m s t)
  case (Cons a xs)
  obtain n i where a: "a = (n, i)" by (cases a)
  let ?x = "clone_for_point un n i (m, s)" and ?y = "clone_for_point un n i (m, t)"
  have st: "fst ?x = fst ?y" "agree I (snd ?x) (snd ?y)"
    using clone_for_point_agree [OF Cons.prems(1), of i] Cons.prems(2) by (auto simp: a)
  have x: "?x = (fst ?x, snd ?x)" "?y = (fst ?x, snd ?y)" using st(1) by (auto simp: prod_eq_iff)
  show ?case using Cons.IH [OF st(2), of "fst ?x"] Cons.prems(2) x by (simp add: a)
qed simp

lemma clone_steps_others:
  "length (snd (foldl (\<lambda>s (n, i). clone_for_point un n i s) (m, s) xs)) = length s \<and>
   (\<forall>k. k \<notin> snd ` set xs \<longrightarrow> snd (foldl (\<lambda>s (n, i). clone_for_point un n i s) (m, s) xs) ! k = s ! k) \<and>
   (\<forall>k. bitcode (snd (foldl (\<lambda>s (n, i). clone_for_point un n i s) (m, s) xs) ! k) = bitcode (s ! k))"
proof (induction xs arbitrary: m s)
  case (Cons a xs)
  obtain n i where a: "a = (n, i)" by (cases a)
  obtain m1 s1 where x: "clone_for_point un n i (m, s) = (m1, s1)" by fastforce
  show ?case using Cons.IH [of m1 s1] clone_for_point_others [of un n i m s] x by (auto simp: a)
qed simp

lemma clone_agree:
  assumes "agree I s t" "indices pairs \<subseteq> I"
  shows "fst (cloneFunctions un pairs (m, s)) = fst (cloneFunctions un pairs (m, t))"
    "agree I (snd (cloneFunctions un pairs (m, s))) (snd (cloneFunctions un pairs (m, t)))"
  using clone_steps_agree [OF assms(1), of "flat pairs"] assms(2)
  by (simp_all add: cloneFunctions_steps flat_indices)

lemma clone_others:
  assumes "indices pairs \<inter> I = {}"
  shows "agree I (snd (cloneFunctions un pairs (m, s))) s"
  using clone_steps_others [of un m s "flat pairs"] assms
  by (auto simp: cloneFunctions_steps flat_indices agree_def)

lemma clone_bitcodes:
  "length (snd (cloneFunctions un pairs (m, s))) = length s"
  "bitcode (snd (cloneFunctions un pairs (m, s)) ! k) = bitcode (s ! k)"
  using clone_steps_others [of un m s "flat pairs"] by (simp_all add: cloneFunctions_steps)

lemma first_covered_agree: "agree I s t \<Longrightarrow> set ps \<subseteq> I \<Longrightarrow> first_covered s ps = first_covered t ps"
  by (induction ps) (auto simp: agree_def)

lemma trampoline_checks_agree:
  "agree I s t \<Longrightarrow> set ps \<subseteq> I \<Longrightarrow> trampoline_checks un s call ps head used = trampoline_checks un t call ps head used"
  by (induction un s call ps head used rule: trampoline_checks.induct) (auto simp: agree_def Let_def)

lemma delete_agree:
  assumes "agree I s t" "indices pairs \<subseteq> I"
  shows "deleteFunctions un pairs s m = deleteFunctions un pairs t m"
  using assms(2)
proof (induction pairs arbitrary: m)
  case (Cons a pairs)
  obtain n ps where a: "a = (n, ps)" by (cases a)
  have ps: "set ps \<subseteq> I" using Cons.prems by (auto simp: a indices_def)
  have "delete_function un s m a = delete_function un t m a"
  proof (cases "first_covered s ps")
    case None
    then show ?thesis using first_covered_agree [OF assms(1) ps] by (simp add: a delete_function_def)
  next
    case (Some i)
    then have "i \<in> I" using first_covered_Some ps by blast
    then have "s ! i = t ! i" using assms(1) by (simp add: agree_def)
    then show ?thesis using Some first_covered_agree [OF assms(1) ps] by (simp add: a delete_function_def split: option.split)
  qed
  moreover have "indices pairs \<subseteq> I" using Cons.prems by (auto simp: indices_def)
  ultimately show ?case using Cons.IH by (simp add: deleteFunctions_def)
qed (simp add: deleteFunctions_def)

lemma insert_agree:
  assumes "agree I s t" "indices pairs \<subseteq> I"
  shows "insertTrampolines un pairs s m = insertTrampolines un pairs t m"
proof -
  have one: "insert_trampoline un s m (n, ps) = insert_trampoline un t m (n, ps)" if ps: "set ps \<subseteq> I" for n ps m
  proof (cases "first_covered s ps")
    case None
    then show ?thesis using first_covered_agree [OF assms(1) ps] by (simp add: insert_trampoline_def)
  next
    case (Some i)
    then have "hd ps \<in> I" using first_covered_Some ps by (cases ps) auto
    then have h: "s ! hd ps = t ! hd ps" using assms(1) by (simp add: agree_def)
    have "trampoline_blocks un s c ps f = trampoline_blocks un t c ps f" for c f
      using trampoline_checks_agree [OF assms(1) ps] by (simp add: trampoline_blocks_def)
    then show ?thesis using Some first_covered_agree [OF assms(1) ps] h
      by (simp add: insert_trampoline_def)
  qed
  have "foldl (insert_trampoline un s) m pairs = foldl (insert_trampoline un t) m pairs" for m
    using assms(2) by (induction pairs arbitrary: m) (auto simp: indices_def one)
  then show ?thesis by (simp add: insertTrampolines_def)
qed

section \<open>The files of a program\<close>

text \<open>The points of a bitcode file.\<close>

definition points_in :: "point_store \<Rightarrow> nat \<Rightarrow> nat set" where
  "points_in store j = {i. i < length store \<and> bitcode (store ! i) = j}"

lemma points_in_disjoint: "j \<noteq> k \<Longrightarrow> points_in store j \<inter> points_in store k = {}"
  by (auto simp: points_in_def)

text \<open>\<open>addMutation\<close> groups the points of a file by their functions.\<close>

definition push_point :: "point_store \<Rightarrow> (string \<times> nat list) list \<Rightarrow> nat \<Rightarrow> (string \<times> nat list) list" where
  "push_point store pairs i = push_back_at (originalFunction (store ! i)) i pairs"

lemma indices_push_back: "indices (push_back_at n i m) = insert i (indices m)"
  by (induction n i m rule: push_back_at.induct) auto

lemma indices_pushed: "indices (foldl (push_point store) pairs xs) = indices pairs \<union> set xs"
  by (induction xs arbitrary: pairs) (auto simp: push_point_def indices_push_back)

lemma points_of_pushed:
  "points_of (foldl (push_point store) pairs xs) n =
    points_of pairs n @ filter (\<lambda>i. originalFunction (store ! i) = n) xs"
  by (induction xs arbitrary: pairs) (auto simp: push_point_def points_of_push_back)

lemma keys_pushed:
  "set (map fst (foldl (push_point store) pairs xs)) =
    set (map fst pairs) \<union> (\<lambda>i. originalFunction (store ! i)) ` set xs"
proof (induction xs arbitrary: pairs)
  case (Cons x xs)
  have "set (map fst (push_point store pairs x)) = insert (originalFunction (store ! x)) (set (map fst pairs))"
    by (simp only: push_point_def keys_push_back)
  then show ?case using Cons.IH [of "push_point store pairs x"] by simp
qed simp

lemma distinct_pushed: "distinct (map fst pairs) \<Longrightarrow> distinct (map fst (foldl (push_point store) pairs xs))"
  by (induction xs arbitrary: pairs) (simp_all add: push_point_def distinct_push_back)

lemma map_of_points: "map_of m n = Some ps \<longleftrightarrow> n \<in> set (map fst m) \<and> points_of m n = ps"
proof (cases "map_of m n")
  case None
  then have "n \<notin> set (map fst m)" by (simp add: map_of_eq_None_iff)
  then show ?thesis using None by simp
next
  case (Some qs)
  then have "n \<in> set (map fst m)" by (metis map_of_eq_None_iff option.distinct(1) set_map)
  then show ?thesis using Some by (auto simp: points_of_def)
qed

lemma pushed_pair:
  "(n, ps) \<in> set (foldl (push_point store) [] xs) \<longleftrightarrow>
    ps \<noteq> [] \<and> ps = filter (\<lambda>i. originalFunction (store ! i) = n) xs"
proof -
  let ?m = "foldl (push_point store) [] xs"
  have "(n, ps) \<in> set ?m \<longleftrightarrow> map_of ?m n = Some ps" using distinct_pushed [of "[]"] by simp
  also have "\<dots> \<longleftrightarrow> n \<in> set (map fst ?m) \<and> points_of ?m n = ps"
    by (rule map_of_points)
  also have "\<dots> \<longleftrightarrow> ps \<noteq> [] \<and> ps = filter (\<lambda>i. originalFunction (store ! i) = n) xs"
    unfolding keys_pushed points_of_pushed by (auto simp: points_of_def filter_empty_conv)
  finally show ?thesis .
qed

definition add_step :: "point_store \<Rightarrow> bitcode_file list \<Rightarrow> nat \<Rightarrow> bitcode_file list" where
  "add_step store bs i = bs[bitcode (store ! i) := addMutation store i (bs ! bitcode (store ! i))]"

lemma length_add_step [simp]: "length (add_step store bs i) = length bs"
  by (simp add: add_step_def)

lemma nth_add_step:
  "j < length bs \<Longrightarrow>
    add_step store bs i ! j = (if bitcode (store ! i) = j then addMutation store i (bs ! j) else bs ! j)"
  by (auto simp: add_step_def nth_list_update)

lemma add_steps_fields:
  "length (foldl (add_step store) bs xs) = length bs \<and>
   (\<forall>j < length bs. ir (foldl (add_step store) bs xs ! j) = ir (bs ! j) \<and>
      mutationPoints (foldl (add_step store) bs xs ! j) =
        foldl (push_point store) (mutationPoints (bs ! j)) (filter (\<lambda>i. bitcode (store ! i) = j) xs))"
proof (induction xs arbitrary: bs)
  case (Cons x xs)
  then show ?case by (simp add: nth_add_step addMutation_def push_point_def)
qed simp

lemma add_mutations_fields:
  assumes "j < length program"
  shows "ir (add_mutations store program ! j) = ir (program ! j)"
    "mutationPoints (add_mutations store program ! j) =
      foldl (push_point store) (mutationPoints (program ! j)) (filter (\<lambda>i. bitcode (store ! i) = j) [0..<length store])"
  using add_steps_fields [of store program "[0..<length store]"] assms
  by (simp_all add: add_mutations_def add_step_def [abs_def])

lemma length_add_mutations [simp]: "length (add_mutations store program) = length program"
  using add_steps_fields [of store program "[0..<length store]"]
  by (simp add: add_mutations_def add_step_def [abs_def])

lemma clone_all_each:
  assumes "\<And>j. j < length bs \<Longrightarrow> indices (mutationPoints (bs ! j)) \<subseteq> I j"
    and "\<And>j k. j \<noteq> k \<Longrightarrow> I j \<inter> I k = {}"
    and "clone_all un bs s = (bs', s')"
  shows "length bs' = length bs \<and> length s' = length s \<and>
    (\<forall>j < length bs. mutationPoints (bs' ! j) = mutationPoints (bs ! j) \<and>
       ir (bs' ! j) = fst (cloneFunctions un (mutationPoints (bs ! j)) (ir (bs ! j), s)) \<and>
       agree (I j) (snd (cloneFunctions un (mutationPoints (bs ! j)) (ir (bs ! j), s))) s') \<and>
    (\<forall>K. (\<forall>j < length bs. K \<inter> I j = {}) \<longrightarrow> agree K s' s) \<and>
    (\<forall>k. bitcode (s' ! k) = bitcode (s ! k))"
  using assms
proof (induction bs arbitrary: I s bs' s')
  case (Cons b bs)
  let ?m = "fst (cloneFunctions un (mutationPoints b) (ir b, s))"
  let ?s = "snd (cloneFunctions un (mutationPoints b) (ir b, s))"
  obtain bs1 s1 where c: "clone_all un bs ?s = (bs1, s1)" by fastforce
  have out: "bs' = b\<lparr>ir := ?m\<rparr> # bs1" "s' = s1"
    using Cons.prems(3) c by (auto split: prod.splits)
  have IH: "length bs1 = length bs \<and> length s1 = length ?s \<and>
    (\<forall>j < length bs. mutationPoints (bs1 ! j) = mutationPoints (bs ! j) \<and>
       ir (bs1 ! j) = fst (cloneFunctions un (mutationPoints (bs ! j)) (ir (bs ! j), ?s)) \<and>
       agree (I (Suc j)) (snd (cloneFunctions un (mutationPoints (bs ! j)) (ir (bs ! j), ?s))) s1) \<and>
    (\<forall>K. (\<forall>j < length bs. K \<inter> I (Suc j) = {}) \<longrightarrow> agree K s1 ?s) \<and>
    (\<forall>k. bitcode (s1 ! k) = bitcode (?s ! k))"
  proof (rule Cons.IH)
    show "indices (mutationPoints (bs ! j)) \<subseteq> I (Suc j)" if "j < length bs" for j
      using Cons.prems(1) [of "Suc j"] that by simp
    show "I (Suc j) \<inter> I (Suc k) = {}" if "j \<noteq> k" for j k
      using Cons.prems(2) [of "Suc j" "Suc k"] that by simp
  qed (rule c)
  have b: "indices (mutationPoints b) \<subseteq> I 0" using Cons.prems(1) [of 0] by simp
  have rest: "ir (bs1 ! j) = fst (cloneFunctions un (mutationPoints (bs ! j)) (ir (bs ! j), s)) \<and>
      agree (I (Suc j)) (snd (cloneFunctions un (mutationPoints (bs ! j)) (ir (bs ! j), s))) s1"
    if j: "j < length bs" for j
  proof -
    have "I 0 \<inter> I (Suc j) = {}" using Cons.prems(2) [of 0 "Suc j"] by simp
    then have a: "agree (I (Suc j)) ?s s" using b by (intro clone_others) blast
    have i: "indices (mutationPoints (bs ! j)) \<subseteq> I (Suc j)" using Cons.prems(1) [of "Suc j"] j by simp
    have "ir (bs1 ! j) = fst (cloneFunctions un (mutationPoints (bs ! j)) (ir (bs ! j), ?s))"
      "agree (I (Suc j)) (snd (cloneFunctions un (mutationPoints (bs ! j)) (ir (bs ! j), ?s))) s1"
      using IH j by blast+
    then show ?thesis
      using clone_agree(1) [OF a i] agree_trans [OF agree_sym [OF clone_agree(2) [OF a i]]] by simp
  qed
  have first: "agree (I 0) ?s s1"
  proof -
    have "\<forall>j < length bs. I 0 \<inter> I (Suc j) = {}" using Cons.prems(2) [of 0 "Suc j" for j] by blast
    then have "agree (I 0) s1 ?s" using IH by blast
    then show ?thesis by (rule agree_sym)
  qed
  have "agree K s1 s" if K: "\<forall>j < length (b # bs). K \<inter> I j = {}" for K
  proof (rule agree_trans)
    have "\<forall>j < length bs. K \<inter> I (Suc j) = {}" using K by simp
    then show "agree K s1 ?s" using IH by blast
    have "K \<inter> I 0 = {}" using K by auto
    then show "agree K ?s s" using b by (intro clone_others) blast
  qed
  moreover have "mutationPoints (bs' ! j) = mutationPoints ((b # bs) ! j) \<and>
       ir (bs' ! j) = fst (cloneFunctions un (mutationPoints ((b # bs) ! j)) (ir ((b # bs) ! j), s)) \<and>
       agree (I j) (snd (cloneFunctions un (mutationPoints ((b # bs) ! j)) (ir ((b # bs) ! j), s))) s'"
    if "j < length (b # bs)" for j
  proof (cases j)
    case 0
    then show ?thesis using first by (simp add: out)
  next
    case (Suc k)
    then have k: "k < length bs" using that by simp
    then show ?thesis using IH rest [OF k] by (simp add: out Suc)
  qed
  moreover have "bitcode (s1 ! k) = bitcode (s ! k)" for k using IH by (simp add: clone_bitcodes)
  moreover have "length s1 = length s" "length bs' = length (b # bs)" using IH by (simp_all add: out clone_bitcodes)
  ultimately show ?case unfolding out(2) by blast
qed (auto simp: agree_def)

lemma apply_all_each:
  assumes "apply_all applyM ps bs = Inr bs'"
  shows "length bs' = length bs \<and> (\<forall>j < length bs.
    applyMutations applyM (filter (\<lambda>p. bitcode p = j) ps) (ir (bs ! j)) = Inr (ir (bs' ! j)))"
  using assms
proof (induction ps arbitrary: bs)
  case (Cons p ps)
  let ?m = "recordMutation p (ir (bs ! bitcode p))"
  obtain m2 where m2: "(if covered p then applyMutation applyM p ?m else Inr ?m) = Inr m2"
    "apply_all applyM ps (bs[bitcode p := (bs ! bitcode p)\<lparr>ir := m2\<rparr>]) = Inr bs'"
    using Cons.prems by (auto simp: Let_def)
  have IH: "length bs' = length bs \<and> (\<forall>j < length bs.
    applyMutations applyM (filter (\<lambda>p. bitcode p = j) ps)
      (ir (bs[bitcode p := (bs ! bitcode p)\<lparr>ir := m2\<rparr>] ! j)) = Inr (ir (bs' ! j)))"
    using Cons.IH [OF m2(2)] by simp
  show ?case
  proof (intro conjI allI impI)
    fix j assume j: "j < length bs"
    show "applyMutations applyM (filter (\<lambda>p. bitcode p = j) (p # ps)) (ir (bs ! j)) = Inr (ir (bs' ! j))"
    proof (cases "bitcode p = j")
      case True
      then have "applyMutations applyM (filter (\<lambda>p. bitcode p = j) ps) m2 = Inr (ir (bs' ! j))"
        using IH j by (metis bitcode_file.select_convs(1) bitcode_file.surjective bitcode_file.update_convs(1) nth_list_update_eq)
      then show ?thesis using m2(1) True by (auto simp: Let_def split: if_splits)
    next
      case False
      have "applyMutations applyM (filter (\<lambda>p. bitcode p = j) ps)
          (ir (bs[bitcode p := (bs ! bitcode p)\<lparr>ir := m2\<rparr>] ! j)) = Inr (ir (bs' ! j))"
        using IH j by blast
      then show ?thesis using False by simp
    qed
  qed (use IH in simp)
qed simp

lemma apply_all_succeeds:
  assumes "\<And>p. p \<in> set ps \<Longrightarrow> bitcode p < length bs"
    and "\<And>j. j < length bs \<Longrightarrow>
      \<exists>m. applyMutations applyM (filter (\<lambda>p. bitcode p = j) ps) (ir (bs ! j)) = Inr m"
  shows "\<exists>bs'. apply_all applyM ps bs = Inr bs'"
  using assms
proof (induction ps arbitrary: bs)
  case (Cons p ps)
  let ?m = "recordMutation p (ir (bs ! bitcode p))"
  have p: "bitcode p < length bs" using Cons.prems(1) by simp
  obtain m where "applyMutations applyM (filter (\<lambda>q. bitcode q = bitcode p) (p # ps)) (ir (bs ! bitcode p)) = Inr m"
    using Cons.prems(2) [OF p] by blast
  then obtain m2 where m2: "(if covered p then applyMutation applyM p ?m else Inr ?m) = Inr m2"
    "applyMutations applyM (filter (\<lambda>q. bitcode q = bitcode p) ps) m2 = Inr m"
    by (auto simp: Let_def split: if_splits)
  let ?bs = "bs[bitcode p := (bs ! bitcode p)\<lparr>ir := m2\<rparr>]"
  have "\<exists>bs'. apply_all applyM ps ?bs = Inr bs'"
  proof (rule Cons.IH)
    fix j assume j: "j < length ?bs"
    show "\<exists>m. applyMutations applyM (filter (\<lambda>p. bitcode p = j) ps) (ir (?bs ! j)) = Inr m"
    proof (cases "bitcode p = j")
      case True
      then show ?thesis using m2(2) p by auto
    next
      case False
      then show ?thesis using Cons.prems(2) [of j] j by simp
    qed
  qed (use Cons.prems(1) in auto)
  then show ?case using m2(1) by (simp add: Let_def)
qed simp

section \<open>The driver\<close>

text \<open>What the four steps do to one file alone.\<close>

definition prepare_alone ::
  "environment \<Rightarrow> point_store \<Rightarrow> bitcode_file list \<Rightarrow> nat \<Rightarrow> (ir_module \<times> point_store) result" where
  "prepare_alone env store program j =
     prepare_bitcode (symbol_names env) (mutator_applyMutation (mutate_instruction env))
       (mutationPoints (add_mutations store program ! j))
       (filter (\<lambda>i. bitcode (store ! i) = j) [0..<length store]) (ir (program ! j), store)"

text \<open>The program before the mutations are applied, and the points then.\<close>

definition redirected_program ::
  "environment \<Rightarrow> point_store \<Rightarrow> bitcode_file list \<Rightarrow> bitcode_file list \<times> point_store" where
  "redirected_program env store program =
     (let (bs, s) = clone_all (symbol_names env) (add_mutations store program) store
      in (redirect_all (symbol_names env) s (delete_all (symbol_names env) s bs), s))"

lemma prepareMutations_redirected:
  assumes "\<not> dryRunEnabled cfg" "workers (parallelization cfg) \<noteq> 0"
    and "redirected_program env store program = (bs, s)"
  shows "prepareMutations env cfg store program =
    bind_result (apply_all (mutator_applyMutation (mutate_instruction env)) s bs) (\<lambda>bs. Inr (bs, s))"
  using assms by (auto simp: prepareMutations_def redirected_program_def Let_def split: prod.splits)

lemma added_indices:
  assumes "\<forall>b \<in> set program. mutationPoints b = []" "k < length (add_mutations store program)"
  shows "indices (mutationPoints (add_mutations store program ! k)) \<subseteq> points_in store k"
proof -
  have "mutationPoints (program ! k) = []" using assms by simp
  then show ?thesis
    using add_mutations_fields(2) [of k program store] assms(2) by (auto simp: indices_pushed points_in_def)
qed

lemma clone_added:
  assumes "\<forall>b \<in> set program. mutationPoints b = []"
    and "clone_all un (add_mutations store program) store = (bs1, s)"
  shows "length bs1 = length program \<and> length s = length store \<and>
    (\<forall>j < length program.
       mutationPoints (bs1 ! j) = mutationPoints (add_mutations store program ! j) \<and>
       ir (bs1 ! j) = fst (cloneFunctions un (mutationPoints (add_mutations store program ! j)) (ir (program ! j), store)) \<and>
       agree (points_in store j)
         (snd (cloneFunctions un (mutationPoints (add_mutations store program ! j)) (ir (program ! j), store))) s) \<and>
    (\<forall>k. bitcode (s ! k) = bitcode (store ! k))"
  using clone_all_each [OF added_indices [OF assms(1)] points_in_disjoint assms(2)]
  by (simp add: add_mutations_fields(1))

lemma redirected_lengths:
  assumes "\<forall>b \<in> set program. mutationPoints b = []"
    and "redirected_program env store program = (bs, s)"
  shows "length bs = length program" "length s = length store" "bitcode (s ! k) = bitcode (store ! k)"
proof -
  obtain bs1 where c: "clone_all (symbol_names env) (add_mutations store program) store = (bs1, s)"
    "length bs = length bs1"
    using assms(2) by (auto simp: redirected_program_def redirect_all_def delete_all_def split: prod.splits)
  from clone_added [OF assms(1) c(1)] c(2)
  show "length bs = length program" "length s = length store" "bitcode (s ! k) = bitcode (store ! k)" by auto
qed

lemma redirected_each:
  assumes "\<forall>b \<in> set program. mutationPoints b = []"
    and "redirected_program env store program = (bs, s)" and "j < length program"
  shows "\<exists>t. agree (points_in store j) t s \<and> prepare_alone env store program j =
    bind_result (applyMutations (mutator_applyMutation (mutate_instruction env))
      (filter (\<lambda>p. bitcode p = j) s) (ir (bs ! j))) (\<lambda>m. Inr (m, t))"
proof -
  let ?un = "symbol_names env" and ?I = "points_in store" and ?bs = "add_mutations store program"
  let ?pairs = "mutationPoints (?bs ! j)"
  obtain bs1 where c: "clone_all ?un ?bs store = (bs1, s)"
    and bs: "bs = redirect_all ?un s (delete_all ?un s bs1)"
    using assms(2) by (auto simp: redirected_program_def split: prod.splits)
  note each = clone_added [OF assms(1) c] and idx = added_indices [OF assms(1)]
  have j: "j < length ?bs" "j < length bs1" using each assms(3) by simp_all
  obtain m1 t where mt: "cloneFunctions ?un ?pairs (ir (program ! j), store) = (m1, t)" by fastforce
  have one: "mutationPoints (bs1 ! j) = ?pairs" "ir (bs1 ! j) = m1" "agree (?I j) t s"
    using each assms(3) by (auto simp: mt)
  have dm: "deleteFunctions ?un ?pairs t m1 = deleteFunctions ?un ?pairs s m1"
    by (rule delete_agree [OF one(3) idx [OF j(1)]])
  have im: "insertTrampolines ?un ?pairs t m = insertTrampolines ?un ?pairs s m" for m
    by (rule insert_agree [OF one(3) idx [OF j(1)]])
  have irj: "ir (bs ! j) = insertTrampolines ?un ?pairs s (deleteFunctions ?un ?pairs s m1)"
    using j(2) one by (simp add: bs redirect_all_def delete_all_def)
  have len: "length s = length store" and bc: "bitcode (s ! k) = bitcode (store ! k)" for k
    using each by blast+
  have "filter (\<lambda>p. bitcode p = j) (map ((!) s) [0..<length store]) =
      map ((!) s) (filter (\<lambda>i. bitcode (store ! i) = j) [0..<length store])"
    by (simp add: filter_map comp_def bc)
  also have "\<dots> = map ((!) t) (filter (\<lambda>i. bitcode (store ! i) = j) [0..<length store])"
    using one(3) by (auto simp: agree_def points_in_def)
  finally have pts: "map ((!) t) (filter (\<lambda>i. bitcode (store ! i) = j) [0..<length store]) =
      filter (\<lambda>p. bitcode p = j) s"
    using map_nth [of s] by (simp add: len)
  show ?thesis
    using one(3) by (intro exI [of _ t]) (simp add: prepare_alone_def prepare_bitcode_def mt irj dm im pts)
qed

lemma prepareMutations_each:
  assumes "\<not> dryRunEnabled cfg" "workers (parallelization cfg) \<noteq> 0"
    and "\<forall>b \<in> set program. mutationPoints b = []"
    and "\<forall>p \<in> set store. bitcode p < length program"
  shows "case prepareMutations env cfg store program of
      Inl e \<Rightarrow> \<exists>j < length program. \<exists>e'. prepare_alone env store program j = Inl e'
    | Inr (bs', s') \<Rightarrow> length bs' = length program \<and>
        (\<forall>j < length program. \<exists>t. prepare_alone env store program j = Inr (ir (bs' ! j), t) \<and>
           (\<forall>i < length store. bitcode (store ! i) = j \<longrightarrow> t ! i = s' ! i))"
proof -
  let ?A = "mutator_applyMutation (mutate_instruction env)"
  obtain bs s where r: "redirected_program env store program = (bs, s)" by fastforce
  have alone: "\<exists>t. agree (points_in store j) t s \<and> prepare_alone env store program j =
      bind_result (applyMutations ?A (filter (\<lambda>p. bitcode p = j) s) (ir (bs ! j))) (\<lambda>m. Inr (m, t))"
    if "j < length program" for j
    by (rule redirected_each [OF assms(3) r that])
  note same = redirected_lengths [OF assms(3) r]
  have bc: "bitcode p < length bs" if "p \<in> set s" for p
    using that assms(4) same by (metis in_set_conv_nth nth_mem)
  note prep = prepareMutations_redirected [OF assms(1,2) r]
  show ?thesis
  proof (cases "apply_all ?A s bs")
    case (Inr bs')
    note whole = apply_all_each [OF Inr]
    have "\<exists>t. prepare_alone env store program j = Inr (ir (bs' ! j), t) \<and>
        (\<forall>i < length store. bitcode (store ! i) = j \<longrightarrow> t ! i = s ! i)" if j: "j < length program" for j
      using alone [OF j] whole j same(1) by (auto simp: agree_def points_in_def)
    then show ?thesis using whole same(1) by (simp add: prep Inr)
  next
    case (Inl e)
    have "\<exists>j < length program. \<exists>e'. prepare_alone env store program j = Inl e'"
    proof (rule ccontr)
      assume none: "\<not> ?thesis"
      have "\<exists>m. applyMutations ?A (filter (\<lambda>p. bitcode p = j) s) (ir (bs ! j)) = Inr m" if "j < length bs" for j
        using alone [of j] none that same(1)
        by (cases "applyMutations ?A (filter (\<lambda>p. bitcode p = j) s) (ir (bs ! j))") auto
      from apply_all_succeeds [OF bc this] show False using Inl by auto
    qed
    then show ?thesis by (simp add: prep Inl)
  qed
qed

text \<open>C13. Preparing a whole program, in stages over all files and with the points of all files in one vector,
  succeeds exactly when every file can be prepared alone, and gives every file the module and the
  points that this gives.\<close>

theorem driver_prepares_each_bitcode:
  assumes "\<not> dryRunEnabled cfg" "workers (parallelization cfg) \<noteq> 0"
    and "\<forall>b \<in> set program. mutationPoints b = []"
    and "\<forall>p \<in> set store. bitcode p < length program"
  shows "case prepareMutations env cfg store program of
      Inl e \<Rightarrow> \<exists>j < length program. \<exists>e'. prepare_alone env store program j = Inl e'
    | Inr (bs', s') \<Rightarrow> length bs' = length program \<and>
        (\<forall>j < length program. \<exists>t. prepare_alone env store program j = Inr (ir (bs' ! j), t) \<and>
           (\<forall>i < length store. bitcode (store ! i) = j \<longrightarrow> t ! i = s' ! i))"
  by (rule prepareMutations_each [OF assms])

section \<open>What a prepared program does\<close>

text \<open>The points of a function, in the order of the driver's vector.\<close>

definition points_at :: "point_store \<Rightarrow> nat \<Rightarrow> string \<Rightarrow> nat list" where
  "points_at store j n = filter (\<lambda>i. bitcode (store ! i) = j \<and> originalFunction (store ! i) = n) [0..<length store]"

text \<open>
  What the driver has found: points in functions of the program, not cloned yet, with mutations that can
  be applied; no name of the program or of a mutant begins with \<open>mull_\<close>.
\<close>

definition point_ready :: "environment \<Rightarrow> bitcode_file list \<Rightarrow> mutation_point \<Rightarrow> bool" where
  "point_ready env program p \<longleftrightarrow>
     bitcode p < length program \<and> mutatedFunction p = None \<and>
     5 \<le> length (userIdentifier p) \<and> \<not> reserved (userIdentifier p) \<and>
     (\<exists>f. get_function (ir (program ! bitcode p)) (originalFunction p) = Some f \<and>
        (\<forall>g. covered p \<and> blocks g = blocks f \<longrightarrow>
           \<not> isl (mutator_applyMutation (mutate_instruction env) (point_mutator p) (address p) (irMutator p) g)))"

definition program_ready :: "environment \<Rightarrow> point_store \<Rightarrow> bitcode_file list \<Rightarrow> bool" where
  "program_ready env store program \<longleftrightarrow>
     unique_names (symbol_names env) \<and> list_all (point_ready env program) store \<and>
     list_all (\<lambda>b. mutationPoints b = [] \<and> list_all (\<lambda>n. \<not> reserved n) (names (ir b))) program"

lemma distinct_concat_snd:
  assumes "distinct (map fst m)" "\<And>n ps. (n, ps) \<in> set m \<Longrightarrow> distinct ps \<and> (\<forall>i \<in> set ps. key i = n)"
  shows "distinct (concat (map snd m))"
  using assms
proof (induction m)
  case (Cons a m)
  obtain n ps where a: "a = (n, ps)" by (cases a)
  have ps: "distinct ps" "\<forall>i \<in> set ps. key i = n" using Cons.prems(2) [of n ps] by (simp_all add: a)
  have "set ps \<inter> set qs = {}" if q: "(n', qs) \<in> set m" for n' qs
  proof -
    have "n' \<noteq> n" using Cons.prems(1) q by (force simp: a)
    moreover have "\<forall>i \<in> set qs. key i = n'" using Cons.prems(2) [of n' qs] q by simp
    ultimately show ?thesis using ps(2) by auto
  qed
  moreover have "distinct (concat (map snd m))"
  proof (rule Cons.IH)
    show "distinct (map fst m)" using Cons.prems(1) by simp
    show "distinct ps \<and> (\<forall>i \<in> set ps. key i = n)" if "(n, ps) \<in> set m" for n ps
      using Cons.prems(2) [of n ps] that by simp
  qed
  ultimately have "distinct (ps @ concat (map snd m))" using ps(1) by force
  then show ?case by (simp add: a)
qed simp

text \<open>Each file of such a program can be prepared.\<close>

lemma alone_preparable:
  assumes "program_ready env store program" "j < length program"
  defines "pairs \<equiv> mutationPoints (add_mutations store program ! j)"
    and "order \<equiv> filter (\<lambda>i. bitcode (store ! i) = j) [0..<length store]"
  shows "preparable pairs order (ir (program ! j)) store"
    and "mutate_ok (mutator_applyMutation (mutate_instruction env)) pairs (ir (program ! j)) store"
    and "(n, ps) \<in> set pairs \<longleftrightarrow> ps \<noteq> [] \<and> ps = points_at store j n"
proof -
  have "program ! j \<in> set program" using assms(2) by simp
  then have b: "mutationPoints (program ! j) = []" "\<forall>n \<in> set (names (ir (program ! j))). \<not> reserved n"
    using assms(1) by (auto simp: program_ready_def list_all_iff)
  have pairs: "pairs = foldl (push_point store) [] order"
    using add_mutations_fields(2) [OF assms(2)] b(1) by (simp add: pairs_def order_def)
  have pt: "point_ready env program (store ! i) \<and> bitcode (store ! i) = j \<and> i < length store" if "i \<in> set order" for i
    using that assms(1) by (auto simp: order_def program_ready_def list_all_length)
  have mem: "(n, ps) \<in> set pairs \<longleftrightarrow> ps \<noteq> [] \<and> ps = points_at store j n" for n ps
    unfolding pairs pushed_pair points_at_def order_def by (auto simp: conj_commute)
  then show "(n, ps) \<in> set pairs \<longleftrightarrow> ps \<noteq> [] \<and> ps = points_at store j n" .
  have at: "i \<in> set (points_at store j n) \<longleftrightarrow> i \<in> set order \<and> originalFunction (store ! i) = n" for i n
    by (auto simp: points_at_def order_def)
  have name: "originalFunction (store ! i) \<in> set (names (ir (program ! j)))" if "i \<in> set order" for i
    using pt [OF that] get_function_None [of "ir (program ! j)" "originalFunction (store ! i)"]
    by (auto simp: point_ready_def)
  have dk: "distinct (map fst pairs)" unfolding pairs by (rule distinct_pushed) simp
  have "wf_pairs pairs (ir (program ! j)) store"
    unfolding wf_pairs_def
  proof (intro conjI ballI dk, clarify)
    fix n ps assume "(n, ps) \<in> set pairs"
    then have ps: "ps \<noteq> []" "ps = points_at store j n" using mem by blast+
    then obtain i where "i \<in> set (points_at store j n)" using hd_in_set by blast
    then have "n \<in> set (names (ir (program ! j)))" using name at by auto
    then show "n \<in> set (names (ir (program ! j))) \<and> ps \<noteq> [] \<and> (\<forall>i \<in> set ps. originalFunction (store ! i) = n)"
      using ps at by auto
  qed
  moreover have flat: "map snd (flat_points pairs) = concat (map snd pairs)"
    by (induction pairs) (auto simp: flat_points_def comp_def)
  have "distinct (map snd (flat_points pairs))"
    unfolding flat
    by (rule distinct_concat_snd [OF dk, where key = "\<lambda>i. originalFunction (store ! i)"])
      (auto simp: mem points_at_def)
  then have "clonable (flat_points pairs) (ir (program ! j), store)"
    using pt name by (auto simp: clonable_def in_flat_points mem at point_ready_def)
  moreover have "set order = snd ` set (flat_points pairs)"
  proof -
    have "snd ` set (flat_points pairs) = indices pairs" by (force simp: flat_points_def indices_def)
    then show ?thesis by (simp add: pairs indices_pushed)
  qed
  moreover have "distinct order" by (simp add: order_def)
  ultimately show "preparable pairs order (ir (program ! j)) store"
    using b(2) pt by (auto simp: preparable_def point_ready_def)
  show "mutate_ok (mutator_applyMutation (mutate_instruction env)) pairs (ir (program ! j)) store"
    unfolding mutate_ok_def
  proof (intro allI impI, elim conjE)
    fix n ps i f and g :: ir_function
    assume *: "(n, ps) \<in> set pairs" "i \<in> set ps" "covered (store ! i)"
      "get_function (ir (program ! j)) n = Some f" "blocks g = blocks f"
    then have i: "i \<in> set order" "originalFunction (store ! i) = n" using at by (auto simp: mem)
    then have "\<not> isl (mutator_applyMutation (mutate_instruction env) (point_mutator (store ! i)) (address (store ! i))
        (irMutator (store ! i)) g)"
      using pt [OF i(1)] *(3-5) by (auto simp: point_ready_def)
    then show "\<exists>h. mutator_applyMutation (mutate_instruction env) (point_mutator (store ! i)) (address (store ! i))
        (irMutator (store ! i)) g = Inr h"
      by (metis sum.collapse(2))
  qed
qed

lemma alone_dispatch:
  assumes "program_ready env store program" "j < length program"
  shows "\<exists>m t. prepare_alone env store program j = Inr (m, t) \<and>
      (\<forall>n f. get_function (ir (program ! j)) n = Some f \<longrightarrow>
        (if first_covered store (points_at store j n) = None then get_function m n = Some f
         else \<exists>f'. get_function m n = Some f' \<and>
           dispatches (mutator_applyMutation (mutate_instruction env)) m store (points_at store j n) f f'))"
proof -
  let ?A = "mutator_applyMutation (mutate_instruction env)"
  have un: "unique_names (symbol_names env)" using assms(1) by (simp add: program_ready_def)
  note ready = alone_preparable [OF assms]
  let ?pairs = "mutationPoints (add_mutations store program ! j)"
  obtain m t where mt: "prepare_alone env store program j = Inr (m, t)"
    and red: "\<And>n ps f. (n, ps) \<in> set ?pairs \<Longrightarrow> first_covered store ps \<noteq> None \<Longrightarrow>
      get_function (ir (program ! j)) n = Some f \<Longrightarrow>
      \<exists>f'. get_function m n = Some f' \<and> dispatches ?A m store ps f f'"
    and rest: "\<And>n. n \<in> set (names (ir (program ! j))) \<Longrightarrow> \<not> redirected store ?pairs n \<Longrightarrow>
      get_function m n = get_function (ir (program ! j)) n"
    using prepared_function_dispatch [OF un ready(1,2)] unfolding prepare_alone_def by blast
  have "if first_covered store (points_at store j n) = None then get_function m n = Some f
      else \<exists>f'. get_function m n = Some f' \<and> dispatches ?A m store (points_at store j n) f f'"
    if f: "get_function (ir (program ! j)) n = Some f" for n f
  proof (cases "first_covered store (points_at store j n)")
    case None
    then have "\<not> redirected store ?pairs n" by (auto simp: redirected_def ready(3))
    moreover have "n \<in> set (names (ir (program ! j)))" using f get_function_None [of "ir (program ! j)" n] by force
    ultimately show ?thesis using None rest f by simp
  next
    case (Some i)
    then have "(n, points_at store j n) \<in> set ?pairs" using ready(3) by force
    from red [OF this _ f] show ?thesis using Some by simp
  qed
  with mt show ?thesis by blast
qed

lemma prepareMutations_ready:
  assumes "program_ready env store program" "\<not> dryRunEnabled cfg" "workers (parallelization cfg) \<noteq> 0"
  shows "\<exists>bs s. prepareMutations env cfg store program = Inr (bs, s) \<and> length bs = length program \<and>
    (\<forall>j < length program. \<exists>t. prepare_alone env store program j = Inr (ir (bs ! j), t))"
proof -
  have bare: "\<forall>b \<in> set program. mutationPoints b = []"
    and within: "\<forall>p \<in> set store. bitcode p < length program"
    using assms(1) by (auto simp: program_ready_def list_all_iff point_ready_def)
  note whole = prepareMutations_each [OF assms(2,3) bare within, of env]
  show ?thesis
  proof (cases "prepareMutations env cfg store program")
    case (Inl e)
    then show ?thesis using whole alone_dispatch [OF assms(1)] by force
  next
    case (Inr r)
    then show ?thesis using whole by (cases r) auto
  qed
qed

lemma prepared_dispatch:
  assumes "program_ready env store program" "\<not> dryRunEnabled cfg" "workers (parallelization cfg) \<noteq> 0"
  shows "\<exists>bs s. prepareMutations env cfg store program = Inr (bs, s) \<and> length bs = length program \<and>
    (\<forall>j n f. j < length program \<longrightarrow> get_function (ir (program ! j)) n = Some f \<longrightarrow>
      (if first_covered store (points_at store j n) = None
       then get_function (ir (bs ! j)) n = Some f
       else \<exists>f'. get_function (ir (bs ! j)) n = Some f' \<and>
         dispatches (mutator_applyMutation (mutate_instruction env)) (ir (bs ! j)) store (points_at store j n) f f'))"
proof -
  obtain bs s where r: "prepareMutations env cfg store program = Inr (bs, s)" "length bs = length program"
    and same: "\<And>j. j < length program \<Longrightarrow> \<exists>t. prepare_alone env store program j = Inr (ir (bs ! j), t)"
    using prepareMutations_ready [OF assms] by blast
  have "if first_covered store (points_at store j n) = None then get_function (ir (bs ! j)) n = Some f
      else \<exists>f'. get_function (ir (bs ! j)) n = Some f' \<and>
        dispatches (mutator_applyMutation (mutate_instruction env)) (ir (bs ! j)) store (points_at store j n) f f'"
    if "j < length program" "get_function (ir (program ! j)) n = Some f" for j n f
    using alone_dispatch [OF assms(1) that(1)] same [OF that(1)] that(2) by auto
  then show ?thesis using r by (intro exI [of _ bs] exI [of _ s]) simp
qed

text \<open>C2. The driver prepares every program in which it has found points, on any number of workers, and
  every function of the program then does this. With covered points, it calls one of its copies with
  its own arguments and returns what that returns: when no environment variable named after one of
  these points is set, a copy with the original body; otherwise the clone of the last such point, whose
  body is the result of applying that mutation, once, to the original body. Functions without a
  covered point keep their definition.\<close>

theorem prepared_program_dispatch:
  assumes "program_ready env store program" "\<not> dryRunEnabled cfg" "workers (parallelization cfg) \<noteq> 0"
  shows "\<exists>bs s. prepareMutations env cfg store program = Inr (bs, s) \<and> length bs = length program \<and>
    (\<forall>j n f. j < length program \<longrightarrow> get_function (ir (program ! j)) n = Some f \<longrightarrow>
      (if first_covered store (points_at store j n) = None
       then get_function (ir (bs ! j)) n = Some f
       else \<exists>f'. get_function (ir (bs ! j)) n = Some f' \<and>
         dispatches (mutator_applyMutation (mutate_instruction env)) (ir (bs ! j)) store (points_at store j n) f f'))"
  by (rule prepared_dispatch [OF assms])

text \<open>Two points in the sample program; the mutation drops the first block of a function.\<close>

definition dropping_environment :: environment where
  "dropping_environment = sample_environment\<lparr>mutate_instruction := (\<lambda>low i f. f\<lparr>blocks := tl (blocks f)\<rparr>)\<rparr>"

definition running_configuration :: Configuration where
  "running_configuration = sample_configuration\<lparr>dryRunEnabled := False\<rparr>"

definition ready_mutation :: "string \<Rightarrow> mutation_point" where
  "ready_mutation ident = (sample_mutation ident)\<lparr>irMutator := Some (irm ''AddToSub'' [])\<rparr>"

lemma ready_mutation_fields [simp]:
  "covered (ready_mutation x)" "userIdentifier (ready_mutation x) = x" "bitcode (ready_mutation x) = 0"
  "originalFunction (ready_mutation x) = ''f''" "mutatedFunction (ready_mutation x) = None"
  "irMutator (ready_mutation x) = Some (irm ''AddToSub'' [])" "point_mutator (ready_mutation x) = mk_AddToSub"
  "address (ready_mutation x) = MutationPointAddress 0 0 0"
  by (simp_all add: ready_mutation_def sample_mutation_def MutationPoint_def Let_def addressFromInstruction_def
      sample_defs blocks_of_def insts_of_def get_function_def get_block_def int_of_size_small)

lemma sample_ready: "program_ready dropping_environment [ready_mutation ''first'', ready_mutation ''second''] sample_program"
proof -
  have f: "get_function sample_module ''f'' = Some sample_function"
    by (simp add: get_function_def sample_module_def sample_function_def)
  have ok: "\<not> isl (mutator_applyMutation (mutate_instruction dropping_environment) mk_AddToSub
      (MutationPointAddress 0 0 0) (Some (irm ''AddToSub'' [])) g)"
    if "blocks g = blocks sample_function" for g :: ir_function
    using that
    by (simp add: findInstruction_in_function_def MutationPointAddress_def sample_function_def at_next_def
        nth_opt_def mutator_applyMutation_def trivial_applyMutation_def mk_AddToSub_def TrivialCXXMutator_def
        split: option.split)
  have "point_ready dropping_environment sample_program (ready_mutation x)" if "5 \<le> length x" "\<not> reserved x" for x
    using that f ok by (simp add: point_ready_def sample_program_def Bitcode_def)
  then show ?thesis
    by (simp add: program_ready_def dropping_environment_def sample_environment_def unique_names_suffix
        sample_program_def Bitcode_def reserved_def names_def sample_module_def sample_function_def)
qed

lemma prepared_program_dispatch_witness:
  "\<exists>bs s f' t g k. prepareMutations dropping_environment running_configuration
      [ready_mutation ''first'', ready_mutation ''second''] sample_program = Inr (bs, s) \<and>
    get_function (ir (bs ! 0)) ''f'' = Some f' \<and> get_function (ir (bs ! 0)) t = Some g \<and>
    run_function (\<lambda>v. v = ''first'') k f' = Some (trampoline_result sample_function t) \<and>
    blocks g = tl (blocks sample_function)"
proof -
  let ?store = "[ready_mutation ''first'', ready_mutation ''second'']"
  have at: "points_at ?store 0 ''f'' = [0, 1]" by (simp add: points_at_def)
  have f: "get_function (ir (sample_program ! 0)) ''f'' = Some sample_function"
    by (simp add: sample_program_def Bitcode_def get_function_def sample_module_def sample_function_def)
  have sel: "selected_point (\<lambda>v. v = ''first'') ?store [0, 1] = Some 0"
    by (simp add: selected_point_def)
  have "\<not> dryRunEnabled running_configuration" "workers (parallelization running_configuration) \<noteq> 0"
    by (simp_all add: running_configuration_def)
  from prepared_program_dispatch [OF sample_ready this] obtain bs s where
    bs: "prepareMutations dropping_environment running_configuration ?store sample_program = Inr (bs, s)"
    "\<And>j n f. j < length sample_program \<Longrightarrow> get_function (ir (sample_program ! j)) n = Some f \<Longrightarrow>
      first_covered ?store (points_at ?store j n) \<noteq> None \<Longrightarrow>
      \<exists>f'. get_function (ir (bs ! j)) n = Some f' \<and>
         dispatches (mutator_applyMutation (mutate_instruction dropping_environment)) (ir (bs ! j)) ?store
           (points_at ?store j n) f f'"
    by auto
  have "0 < length sample_program" by (simp add: sample_program_def)
  from bs(2) [OF this f] obtain f' where f': "get_function (ir (bs ! 0)) ''f'' = Some f'"
    and d: "dispatches (mutator_applyMutation (mutate_instruction dropping_environment)) (ir (bs ! 0)) ?store
       [0, 1] sample_function f'"
    by (auto simp: at)
  have drop: "blocks h = tl (blocks g)"
    if "mutator_applyMutation (mutate_instruction dropping_environment) mk_AddToSub a (Some l) g = Inr h" for a l g h
    using that by (auto simp: mutator_applyMutation_def trivial_applyMutation_def mk_AddToSub_def
        TrivialCXXMutator_def dropping_environment_def split: option.splits)
  from d [unfolded dispatches_def, rule_format, of "\<lambda>v. v = ''first''"] obtain t g n0 where
    "get_function (ir (bs ! 0)) t = Some g" "blocks g = tl (blocks sample_function)"
    "run_function (\<lambda>v. v = ''first'') n0 f' = Some (trampoline_result sample_function t)"
    by (auto simp: sel [unfolded One_nat_def] CloneFunction_def dest!: drop)
  with bs(1) f' show ?thesis by blast
qed

lemma driver_prepares_each_bitcode_witness:
  "\<exists>t. prepare_alone dropping_environment [setCovered False (ready_mutation ''first'')] sample_program 0 =
     Inr (recordMutation (setCovered False (ready_mutation ''first''))
       (getOrInsertFunction ''getenv'' 1 False sample_module), t)"
proof -
  let ?p = "setCovered False (ready_mutation ''first'')"
  have p: "bitcode ?p = 0" "covered ?p = False" "originalFunction ?p = ''f''" by (simp_all add: setCovered_def)
  have prep: "prepareMutations dropping_environment running_configuration [?p] sample_program =
      Inr ([(addMutation [?p] 0 (Bitcode (\<lambda>n. n) sample_module))\<lparr>ir :=
        recordMutation ?p (getOrInsertFunction ''getenv'' 1 False sample_module)\<rparr>], [?p])"
    by (simp add: prepareMutations_def running_configuration_def Let_def add_mutations_def p sample_program_def
        addMutation_def Bitcode_def cloneFunctions_def clone_for_point_def delete_all_def deleteFunctions_def
        delete_function_def redirect_all_def insertTrampolines_def insert_trampoline_def)
  have "\<not> dryRunEnabled running_configuration" "workers (parallelization running_configuration) \<noteq> 0"
    by (simp_all add: running_configuration_def)
  from driver_prepares_each_bitcode [OF this, of sample_program "[?p]" dropping_environment] show ?thesis
    by (simp add: prep p) (auto simp: sample_program_def Bitcode_def)
qed

end
