(* ===== verification/SourceManager.thy ===== *)
theory SourceManager
  imports Caches SourceLocations Diagnostics
begin

text \<open>
  \<open>lib/Reporters/SourceManager.cpp\<close> and \<open>lib/Reporters/SourceCodeReader.cpp\<close>: reading the lines of source
  files for the reports. A file system gives the contents of the files that can be opened; files are
  not changed while reports are written. Offsets are \<open>uint32_t\<close>.
\<close>

type_synonym file_system = "string \<Rightarrow> string option"

definition nl :: char where
  "nl = CHR 0x0A"

lemma nl_not_zero [simp]: "CHR 0x00 \<noteq> nl" "nl \<noteq> CHR 0x00"
  by (simp_all add: nl_def)

section \<open>Line offsets\<close>

text \<open>The loop over the characters: \<open>c\<close> is the current one, \<open>rest\<close> is what is still to be read.\<close>

fun offsets_loop :: "char \<Rightarrow> string \<Rightarrow> 32 word \<Rightarrow> 32 word list" where
  "offsets_loop c rest offset =
     (if c = nl then [offset] else []) @
     (case rest of [] \<Rightarrow> [offset + 1] | d # ds \<Rightarrow> offsets_loop d ds (offset + 1))"

declare offsets_loop.simps [simp del]

text \<open>The manager caches the offsets of the files it has opened.\<close>

type_synonym source_manager = "(string \<times> 32 word list) list"

definition getLineOffset ::
  "file_system \<Rightarrow> SourceLocation \<Rightarrow> source_manager \<Rightarrow> source_manager \<times> 32 word list result" where
  "getLineOffset fs loc sm =
     (case map_of sm (filePath loc) of
        Some offsets \<Rightarrow> (sm, Inr offsets)
      | None \<Rightarrow>
          (case fs (filePath loc) of
             None \<Rightarrow> (sm, Inl (NullPointer ''fgetc''))
           | Some content \<Rightarrow>
               (let offsets = offsets_loop nl content 0
                in ((filePath loc, offsets) # sm, Inr offsets))))"

text \<open>
  \<open>getLine\<close> reads the bytes between two offsets into a fresh buffer. Where the file has fewer bytes the
  rest of the buffer keeps what the memory holds, \<open>garbage\<close>. An index before the first offset is
  undefined behaviour.
\<close>

definition getLine ::
  "file_system \<Rightarrow> char \<Rightarrow> SourceLocation \<Rightarrow> source_manager \<Rightarrow> source_manager \<times> string result" where
  "getLine fs garbage loc sm =
     (case getLineOffset fs loc sm of
        (sm1, Inl e) \<Rightarrow> (sm1, Inl e)
      | (sm1, Inr offsets) \<Rightarrow>
          (if \<not> (0 \<le> line loc \<and> line loc < int (length offsets))
           then (sm1, Inl (AssertFailed ''location.line < lineOffset.offsets.size()''))
           else if line loc = 0 then (sm1, Inl (OutOfRange ''lineOffset.offsets''))
           else
             (let lineBegin = offsets ! nat (line loc - 1);
                  lineEnd = offsets ! nat (line loc);
                  lineLength = unat (lineEnd - lineBegin);
                  content = (case fs (filePath loc) of Some c \<Rightarrow> c | None \<Rightarrow> []);
                  read = take lineLength (drop (unat lineBegin) content);
                  buffer = read @ replicate (lineLength - length read) garbage
              in (sm1, Inr (takeWhile (\<lambda>c. c \<noteq> CHR 0x00) buffer)))))"

definition getNumberOfLines ::
  "file_system \<Rightarrow> SourceLocation \<Rightarrow> source_manager \<Rightarrow> source_manager \<times> nat result" where
  "getNumberOfLines fs loc sm =
     (case getLineOffset fs loc sm of
        (sm1, Inl e) \<Rightarrow> (sm1, Inl e)
      | (sm1, Inr offsets) \<Rightarrow>
          (if length offsets > 0 then (sm1, Inr (length offsets - 1))
           else (sm1, Inl (AssertFailed ''lineOffset.offsets.size() > 0''))))"

section \<open>Source code\<close>

text \<open>The caret line: tabs are kept, so that the caret stands below the column.\<close>

definition caret_line :: "int \<Rightarrow> string \<Rightarrow> string result" where
  "caret_line col text =
     (if \<not> (0 \<le> col \<and> col < int (length text))
      then Inl (AssertFailed ''sourceLocation.column < line.size()'')
      else if col = 0 then Inl (OutOfRange ''caret'')
      else
        (let caret = map (\<lambda>i. if text ! i = CHR 0x09 then CHR 0x09 else CHR '' '') [0..<nat col]
         in Inr (caret[nat (col - 1) := CHR ''^''])))"

definition getSourceLineWithCaret ::
  "file_system \<Rightarrow> char \<Rightarrow> SourceLocation \<Rightarrow> source_manager \<Rightarrow> source_manager \<times> string result" where
  "getSourceLineWithCaret fs garbage loc =
     st_bind (getLine fs garbage loc) (\<lambda>text sm.
       (sm, bind_result (caret_line (column loc) text) (\<lambda>caret. Inr (text @ caret @ [nl]))))"

definition setw :: "nat \<Rightarrow> string \<Rightarrow> string" where
  "setw n s = replicate (n - length s) CHR '' '' @ s"

text \<open>\<open>getContext\<close>; \<open>log10(n) + 1\<close>, truncated, is the number of digits of \<open>n\<close>.\<close>

definition getContext ::
  "file_system \<Rightarrow> char \<Rightarrow> SourceLocation \<Rightarrow> source_manager \<Rightarrow> source_manager \<times> string result" where
  "getContext fs garbage loc =
     (if isNull loc \<or> line loc = 0 \<or> column loc = 0 \<or> filePath loc = []
      then st_return ''Source code information is unavailable. Possibly a junk mutation.''
      else if fs (filePath loc) = None then st_return (''File does not exist: '' @ filePath loc)
      else
        st_bind (getNumberOfLines fs loc) (\<lambda>totalLines.
        let maxLineNumber = min totalLines (nat (line loc + 1));
            maxDigits = (if maxLineNumber = 0 then 1 else length (string_of_nat maxLineNumber))
        in st_bind (getLine fs garbage loc) (\<lambda>text.
           st_bind (\<lambda>sm. (sm, caret_line (column loc) text)) (\<lambda>caret.
           st_bind
             (if line loc > 1
              then st_bind (getLine fs garbage (loc\<lparr>line := line loc - 1\<rparr>))
                (\<lambda>previous. st_return (setw maxDigits (string_of_int (line loc - 1)) @ '':'' @ previous))
              else st_return [])
             (\<lambda>before.
           st_bind
             (if line loc < int totalLines
              then st_bind (getLine fs garbage (loc\<lparr>line := line loc + 1\<rparr>))
                (\<lambda>following. st_return (setw maxDigits (string_of_int (line loc + 1)) @ '':'' @ following))
              else st_return [])
             (\<lambda>after. st_return
                (before @ setw maxDigits (string_of_int (line loc)) @ '':'' @ text @
                 replicate (maxDigits + 1) CHR '' '' @ caret @ [nl] @ after)))))))"

section \<open>What a line is\<close>

lemma offsets_loop_segment:
  assumes "nl \<notin> set seg"
  shows "offsets_loop c (seg @ nl # rest) off =
    (if c = nl then [off] else []) @ offsets_loop nl rest (off + of_nat (length seg) + 1)"
  using assms
proof (induction seg arbitrary: c off)
  case Nil
  then show ?case by (subst offsets_loop.simps) simp
next
  case (Cons d seg)
  then have "d \<noteq> nl" by auto
  with Cons show ?case by (subst offsets_loop.simps) (simp add: add.assoc add.commute add.left_commute)
qed

lemma offsets_loop_last:
  assumes "nl \<notin> set seg"
  shows "offsets_loop c seg off = (if c = nl then [off] else []) @ [off + of_nat (length seg) + 1]"
  using assms
proof (induction seg arbitrary: c off)
  case Nil
  then show ?case by (subst offsets_loop.simps) simp
next
  case (Cons d seg)
  then have "d \<noteq> nl" by auto
  with Cons show ?case by (subst offsets_loop.simps) (simp add: add.assoc add.commute add.left_commute)
qed

definition terminated :: "string list \<Rightarrow> string" where
  "terminated ls = concat (map (\<lambda>l. l @ [nl]) ls)"

lemma terminated_simps [simp]: "terminated [] = []" "terminated (l # ls) = l @ nl # terminated ls"
  by (simp_all add: terminated_def)

text \<open>The offsets of a text: where each line starts, and one past the end of the text.\<close>

fun starts_from :: "nat \<Rightarrow> string list \<Rightarrow> nat list" where
  "starts_from k [] = [k]"
| "starts_from k (l # ls) = k # starts_from (k + length l + 1) ls"

lemma offsets_of_text:
  assumes "\<forall>l \<in> set ls. nl \<notin> set l" "nl \<notin> set rest"
  shows "offsets_loop nl (terminated ls @ rest) (of_nat k) =
    map of_nat (starts_from k ls @ [k + length (terminated ls @ rest) + 1])"
  using assms
proof (induction ls arbitrary: k)
  case Nil
  then show ?case by (simp add: offsets_loop_last)
next
  case (Cons l ls)
  have "offsets_loop nl (terminated (l # ls) @ rest) (of_nat k) =
    of_nat k # offsets_loop nl (terminated ls @ rest) (of_nat (k + length l + 1))"
    using Cons.prems offsets_loop_segment [of l nl "terminated ls @ rest" "of_nat k"] by (simp add: ac_simps)
  also have "\<dots> = of_nat k # map of_nat (starts_from (k + length l + 1) ls @
      [k + length l + 1 + length (terminated ls @ rest) + 1])"
    using Cons.IH [of "k + length l + 1"] Cons.prems by simp
  finally show ?case by (simp add: ac_simps)
qed

lemma length_starts_from [simp]: "length (starts_from k ls) = Suc (length ls)"
  by (induction ls arbitrary: k) auto

lemma starts_from_line:
  assumes "i < length ls"
  shows "starts_from (length before) ls ! Suc i = starts_from (length before) ls ! i + length (ls ! i) + 1 \<and>
    take (length (ls ! i) + 1) (drop (starts_from (length before) ls ! i) (before @ terminated ls @ rest)) =
      ls ! i @ [nl] \<and>
    starts_from (length before) ls ! Suc i \<le> length (before @ terminated ls)"
  using assms
proof (induction ls arbitrary: before i)
  case (Cons l ls)
  show ?case
  proof (cases i)
    case 0
    then show ?thesis by (cases ls) auto
  next
    case (Suc j)
    then show ?thesis
      using Cons.IH [of j "before @ l @ [nl]"] Cons.prems by simp
  qed
qed simp

lemma starts_from_end: "starts_from k ls ! length ls = k + length (terminated ls)"
  by (induction ls arbitrary: k) auto

text \<open>The cache holds offsets of the files as they are.\<close>

definition cache_current :: "file_system \<Rightarrow> source_manager \<Rightarrow> bool" where
  "cache_current fs sm \<longleftrightarrow>
     list_all (\<lambda>(path, offsets). map_option (\<lambda>c. offsets_loop nl c 0) (fs path) = Some offsets) sm"

interpretation offsets_cache: cached_lookup "getLineOffset fs" "cache_current fs" "\<lambda>sm. ()"
    "\<lambda>loc u. case fs (filePath loc) of None \<Rightarrow> Inl (NullPointer ''fgetc'')
       | Some content \<Rightarrow> Inr (offsets_loop nl content 0)"
  for fs
proof (unfold_locales, rule steadyI)
  fix loc sm assume c: "cache_current fs sm"
  show "\<exists>sm'. getLineOffset fs loc sm = (sm', case fs (filePath loc) of None \<Rightarrow> Inl (NullPointer ''fgetc'')
       | Some content \<Rightarrow> Inr (offsets_loop nl content 0)) \<and> cache_current fs sm' \<and> () = ()"
  proof (cases "map_of sm (filePath loc)")
    case None
    then show ?thesis using c by (auto simp: getLineOffset_def Let_def cache_current_def split: option.split)
  next
    case (Some offsets)
    then have "(filePath loc, offsets) \<in> set sm" by (rule map_of_SomeD)
    then show ?thesis
      using Some c by (auto simp: getLineOffset_def cache_current_def list_all_iff split: option.split)
  qed
qed

lemma getLineOffset_current:
  assumes "cache_current fs sm" "fs (filePath loc) = Some content"
  shows "\<exists>sm1. getLineOffset fs loc sm = (sm1, Inr (offsets_loop nl content 0)) \<and> cache_current fs sm1"
  using offsets_cache.ask_answer(1,2) [OF assms(1), of loc] assms(2) by (metis option.case(2) prod.collapse)

definition has_lines :: "string \<Rightarrow> string list \<Rightarrow> string \<Rightarrow> bool" where
  "has_lines content ls rest \<longleftrightarrow>
     content = terminated ls @ rest \<and> list_all (\<lambda>l. nl \<notin> set l \<and> CHR 0x00 \<notin> set l) (rest # ls) \<and>
     length content + 1 < 2 ^ 32"

lemma getLine_read:
  assumes "cache_current fs sm" "fs (filePath loc) = Some content" "has_lines content ls rest"
    and "1 \<le> line loc" "line loc \<le> int (length ls) + 1"
  shows "\<exists>sm1. cache_current fs sm1 \<and>
    getLine fs g loc sm = (sm1, Inr (takeWhile (\<lambda>c. c \<noteq> CHR 0x00)
      (if line loc \<le> int (length ls) then ls ! nat (line loc - 1) @ [nl] else rest @ [g])))"
proof -
  obtain sm1 where sm1: "getLineOffset fs loc sm = (sm1, Inr (offsets_loop nl content 0))" "cache_current fs sm1"
    using getLineOffset_current [OF assms(1,2)] by blast
  let ?N = "length content + 1"
  define bounds where "bounds = starts_from 0 ls @ [?N]"
  have off: "offsets_loop nl content 0 = map of_nat bounds"
    using offsets_of_text [of ls rest 0] assms(3)
    by (auto simp: has_lines_def bounds_def list_all_iff)
  have len: "length bounds = length ls + 2" by (simp add: bounds_def)
  define i where "i = nat (line loc - 1)"
  have i: "i \<le> length ls" "nat (line loc) = Suc i" using assms(4,5) by (simp_all add: i_def)
  have cont: "content = terminated ls @ rest" using assms(3) by (simp add: has_lines_def)
  define n where "n = (if i < length ls then length (ls ! i) + 1 else length rest + 1)"
  have step: "bounds ! Suc i = bounds ! i + n \<and> bounds ! Suc i \<le> ?N \<and>
    take n (drop (bounds ! i) content) = (if i < length ls then ls ! i @ [nl] else rest)"
  proof (cases "i < length ls")
    case True
    have b: "bounds ! i = starts_from 0 ls ! i" "bounds ! Suc i = starts_from 0 ls ! Suc i"
      using True by (simp_all add: bounds_def nth_append)
    have s: "starts_from 0 ls ! Suc i = starts_from 0 ls ! i + length (ls ! i) + 1"
      "take (length (ls ! i) + 1) (drop (starts_from 0 ls ! i) (terminated ls @ rest)) = ls ! i @ [nl]"
      "starts_from 0 ls ! Suc i \<le> length (terminated ls)"
      using starts_from_line [OF True, of "[]" rest] by auto
    have "starts_from 0 ls ! Suc i \<le> ?N" using s(3) cont by simp
    then show ?thesis using True by (simp only: b n_def cont s if_True simp_thms add.assoc)
  next
    case False
    then have "i = length ls" using i(1) by simp
    then show ?thesis
      using starts_from_end [of 0 ls] by (simp add: bounds_def nth_append n_def cont)
  qed
  have N: "?N < 2 ^ 32" using assms(3) unfolding has_lines_def by blast
  then have small: "bounds ! i + n < 2 ^ 32" using step by linarith
  have w: "unat (of_nat (bounds ! i) :: 32 word) = bounds ! i"
    "unat (of_nat (bounds ! i + n) - of_nat (bounds ! i) :: 32 word) = n"
    using small by (simp_all add: unat_of_nat)
  have nth: "map of_nat bounds ! i = (of_nat (bounds ! i) :: 32 word)"
    "map of_nat bounds ! Suc i = (of_nat (bounds ! i + n) :: 32 word)"
    using i len step by simp_all
  have lr: "length (take n (drop (bounds ! i) content)) = (if i < length ls then n else n - 1)"
    using step by (simp add: n_def)
  have cond: "0 \<le> line loc \<and> line loc < int (length (map of_nat bounds :: 32 word list))" "line loc \<noteq> 0"
    using assms(4,5) len by auto
  have c: "line loc \<le> int (length ls) \<longleftrightarrow> i < length ls" using assms(4) by (auto simp: i_def)
  have "getLine fs g loc sm = (sm1, Inr (takeWhile (\<lambda>c. c \<noteq> CHR 0x00)
      (take n (drop (bounds ! i) content) @ replicate (n - length (take n (drop (bounds ! i) content))) g)))"
    unfolding getLine_def sm1(1) off prod.case sum.case Let_def
    using cond by (simp only: i(2) i_def [symmetric] nth w assms(2) option.case simp_thms if_False)
  also have "take n (drop (bounds ! i) content) @ replicate (n - length (take n (drop (bounds ! i) content))) g =
      (if line loc \<le> int (length ls) then ls ! nat (line loc - 1) @ [nl] else rest @ [g])"
    unfolding lr c i_def [symmetric] using step by (simp add: n_def)
  finally show ?thesis using sm1(2) by blast
qed

text \<open>For every line that ends in a newline, \<open>getLine\<close> gives that line with its newline, from the cache
  or from the file, and keeps the cache up to date.\<close>

lemma getLine_gives_line:
  assumes "cache_current fs sm" "fs (filePath loc) = Some content" "has_lines content ls rest"
    and "1 \<le> line loc" "line loc \<le> int (length ls)"
  shows "\<exists>sm1. getLine fs g loc sm = (sm1, Inr (ls ! nat (line loc - 1) @ [nl])) \<and> cache_current fs sm1"
proof -
  have "CHR 0x00 \<notin> set (ls ! nat (line loc - 1) @ [nl])"
    using assms(3,4,5) by (auto simp: has_lines_def list_all_iff nat_less_iff)
  then have "takeWhile (\<lambda>c. c \<noteq> CHR 0x00) (ls ! nat (line loc - 1) @ [nl]) = ls ! nat (line loc - 1) @ [nl]"
    unfolding takeWhile_eq_all_conv by blast
  then show ?thesis
    using getLine_read [OF assms(1-4), of g] assms(5) by auto
qed

lemma getLine_gives_line_witness:
  "snd (getLine (\<lambda>p. if p = ''a.c'' then Some [CHR ''a'', nl, CHR ''b'', nl] else None) CHR ''?''
     (nullSourceLocation\<lparr>filePath := ''a.c'', line := 2\<rparr>) []) = Inr [CHR ''b'', nl]"
proof -
  let ?fs = "\<lambda>p. if p = ''a.c'' then Some [CHR ''a'', nl, CHR ''b'', nl] else None"
  have "\<exists>sm1. getLine ?fs CHR ''?'' (nullSourceLocation\<lparr>filePath := ''a.c'', line := 2\<rparr>) [] =
      (sm1, Inr ([''a'', ''b''] ! nat (line (nullSourceLocation\<lparr>filePath := ''a.c'', line := 2\<rparr>) - 1) @ [nl])) \<and>
      cache_current ?fs sm1"
    by (rule getLine_gives_line [where content = "[CHR ''a'', nl, CHR ''b'', nl]" and rest = "[]"])
      (simp_all add: cache_current_def has_lines_def nl_def)
  then show ?thesis by auto
qed

text \<open>Asked for the text after the last newline, \<open>getLine\<close> reads one byte more than the file has: what
  the fresh buffer happens to hold there becomes part of the line.\<close>

lemma last_line_reads_past_end:
  assumes "cache_current fs sm" "fs (filePath loc) = Some content" "has_lines content ls rest"
    and "line loc = int (length ls) + 1" "g \<noteq> CHR 0x00"
  shows "snd (getLine fs g loc sm) = Inr (rest @ [g])"
proof -
  have "CHR 0x00 \<notin> set (rest @ [g])" using assms(3,5) by (auto simp: has_lines_def)
  then have "takeWhile (\<lambda>c. c \<noteq> CHR 0x00) (rest @ [g]) = rest @ [g]"
    unfolding takeWhile_eq_all_conv by blast
  moreover obtain sm1 where "getLine fs g loc sm = (sm1, Inr (takeWhile (\<lambda>c. c \<noteq> CHR 0x00) (rest @ [g])))"
    using getLine_read [OF assms(1-3), of g] assms(4) by auto
  ultimately show ?thesis by simp
qed

lemma last_line_reads_past_end_witness:
  "snd (getLine (\<lambda>p. if p = ''a.c'' then Some [CHR ''a'', nl, CHR ''b''] else None) CHR ''?''
     (nullSourceLocation\<lparr>filePath := ''a.c'', line := 2\<rparr>) []) = Inr ''b?''"
proof -
  have "snd (getLine (\<lambda>p. if p = ''a.c'' then Some [CHR ''a'', nl, CHR ''b''] else None) CHR ''?''
     (nullSourceLocation\<lparr>filePath := ''a.c'', line := 2\<rparr>) []) = Inr (''b'' @ [CHR ''?''])"
    by (rule last_line_reads_past_end [where content = "[CHR ''a'', nl, CHR ''b'']" and ls = "[''a'']"])
      (simp_all add: cache_current_def has_lines_def nl_def)
  then show ?thesis by simp
qed

section \<open>The context of a place\<close>

lemma st_bind_step: "m s = (s', Inr x) \<Longrightarrow> st_bind m f s = f x s'"
  by (simp add: st_bind_def)

definition numbered_line :: "nat \<Rightarrow> int \<Rightarrow> string \<Rightarrow> string" where
  "numbered_line digits n text =
     replicate (digits - length (string_of_int n)) CHR '' '' @ string_of_int n @ '':'' @ text"

lemma setw_numbers: "setw digits (string_of_int n) @ '':'' @ text = numbered_line digits n text"
  by (simp add: setw_def numbered_line_def)

text \<open>The caret stands below the column: what is before it is as wide as the text.\<close>

lemma caret_line_below:
  assumes "1 \<le> col" "col < int (length text)"
  shows "caret_line col text =
    Inr (map (\<lambda>c. if c = CHR 0x09 then CHR 0x09 else CHR '' '') (take (nat (col - 1)) text) @ ''^'')"
proof -
  define k where "k = nat (col - 1)"
  have k: "nat col = Suc k" "k < length text" "0 \<le> col" "col \<noteq> 0" "nat (col - 1) = k"
    using assms by (simp_all add: k_def nat_less_iff)
  have "(map (\<lambda>i. if text ! i = CHR 0x09 then CHR 0x09 else CHR '' '') [0..<Suc k])[k := CHR ''^''] =
      map (\<lambda>i. if text ! i = CHR 0x09 then CHR 0x09 else CHR '' '') [0..<k] @ ''^''"
    by (simp add: list_update_append)
  also have "map (\<lambda>i. if text ! i = CHR 0x09 then CHR 0x09 else CHR '' '') [0..<k] =
      map (\<lambda>c. if c = CHR 0x09 then CHR 0x09 else CHR '' '') (take k text)"
    using k(2) by (intro nth_equalityI) simp_all
  finally show ?thesis using assms(2) k by (simp only: caret_line_def Let_def) simp
qed

lemma getNumberOfLines_read:
  assumes "cache_current fs sm" "fs (filePath loc) = Some content" "has_lines content ls rest"
  shows "\<exists>sm1. getNumberOfLines fs loc sm = (sm1, Inr (length ls + 1)) \<and> cache_current fs sm1"
proof -
  have "length (offsets_loop nl content 0) = length ls + 2"
    using offsets_of_text [of ls rest 0] assms(3) by (auto simp: has_lines_def list_all_iff)
  then show ?thesis
    using getLineOffset_current [OF assms(1,2)] by (auto simp: getNumberOfLines_def)
qed

lemma context_lines:
  assumes "cache_current fs sm" "fs (filePath loc) = Some content" "has_lines content ls rest"
    and "1 \<le> line loc" "line loc \<le> int (length ls)"
    and "1 \<le> column loc" "column loc \<le> int (length (ls ! nat (line loc - 1)))"
    and "\<not> isNull loc" "filePath loc \<noteq> []"
  defines "digits \<equiv> length (string_of_nat (nat (line loc + 1)))"
    and "text \<equiv> ls ! nat (line loc - 1)"
  shows "snd (getContext fs g loc sm) = Inr (
    (if line loc > 1 then numbered_line digits (line loc - 1) (ls ! nat (line loc - 2) @ [nl]) else []) @
    numbered_line digits (line loc) (text @ [nl]) @
    replicate (digits + 1) CHR '' '' @
    map (\<lambda>c. if c = CHR 0x09 then CHR 0x09 else CHR '' '') (take (nat (column loc - 1)) text) @ ''^'' @ [nl] @
    numbered_line digits (line loc + 1)
      (if line loc < int (length ls) then ls ! nat (line loc) @ [nl] else takeWhile (\<lambda>c. c \<noteq> CHR 0x00) (rest @ [g])))"
proof -
  obtain sm1 where n: "getNumberOfLines fs loc sm = (sm1, Inr (length ls + 1))" "cache_current fs sm1"
    using getNumberOfLines_read [OF assms(1-3)] by blast
  obtain sm2 where l: "getLine fs g loc sm1 = (sm2, Inr (text @ [nl]))" "cache_current fs sm2"
    using getLine_gives_line [OF n(2) assms(2-5)] by (auto simp: text_def)
  have "\<exists>sm3. (if line loc > 1
      then st_bind (getLine fs g (loc\<lparr>line := line loc - 1\<rparr>))
        (\<lambda>previous. st_return (setw digits (string_of_int (line loc - 1)) @ '':'' @ previous))
      else st_return []) sm2 = (sm3, Inr (if line loc > 1
        then numbered_line digits (line loc - 1) (ls ! nat (line loc - 2) @ [nl]) else [])) \<and> cache_current fs sm3"
  proof (cases "line loc > 1")
    case True
    with getLine_gives_line [OF l(2), of "loc\<lparr>line := line loc - 1\<rparr>" content ls rest g] assms(2,3,5) show ?thesis
      by (auto simp: st_bind_def st_return_def numbered_line_def setw_def)
  qed (use l(2) in \<open>simp add: st_return_def\<close>)
  then obtain sm3 where b: "(if line loc > 1
      then st_bind (getLine fs g (loc\<lparr>line := line loc - 1\<rparr>))
        (\<lambda>previous. st_return (setw digits (string_of_int (line loc - 1)) @ '':'' @ previous))
      else st_return []) sm2 = (sm3, Inr (if line loc > 1
        then numbered_line digits (line loc - 1) (ls ! nat (line loc - 2) @ [nl]) else []))" "cache_current fs sm3"
    by blast
  obtain sm4 where a: "getLine fs g (loc\<lparr>line := line loc + 1\<rparr>) sm3 = (sm4, Inr
      (if line loc < int (length ls) then ls ! nat (line loc) @ [nl] else takeWhile (\<lambda>c. c \<noteq> CHR 0x00) (rest @ [g])))"
    using getLine_gives_line [OF b(2), of "loc\<lparr>line := line loc + 1\<rparr>" content ls rest g]
      getLine_read [OF b(2), of "loc\<lparr>line := line loc + 1\<rparr>" content ls rest g] assms(2-5)
    by (cases "line loc < int (length ls)") auto
  have cl: "caret_line (column loc) (text @ [nl]) =
      Inr (map (\<lambda>c. if c = CHR 0x09 then CHR 0x09 else CHR '' '') (take (nat (column loc - 1)) text) @ ''^'')"
    using caret_line_below [of "column loc" "text @ [nl]"] assms(6,7) by (simp add: text_def)
  have d: "min (length ls + 1) (nat (line loc + 1)) = nat (line loc + 1)" "nat (line loc + 1) \<noteq> 0"
    using assms(4,5) by simp_all
  have c: "\<not> (isNull loc \<or> line loc = 0 \<or> column loc = 0 \<or> filePath loc = [])" "fs (filePath loc) \<noteq> None"
    "line loc < int (length ls + 1)"
    using assms(2,4-9) by auto
  show ?thesis
    unfolding getContext_def if_not_P [OF c(1)] if_not_P [OF c(2)]
    by (subst st_bind_step, rule n(1), unfold Let_def d(1) if_not_P [OF d(2)] digits_def [symmetric],
        subst st_bind_step, rule l(1), subst st_bind_step, subst cl, rule refl, subst st_bind_step, rule b(1))
      (use c(3) in \<open>simp add: st_bind_def a st_return_def numbered_line_def setw_def\<close>)
qed

text \<open>C35. The context shown for a place at a column of a line that ends in a newline is the line before it, when
  there is one, the line with a caret below the column, and the line after it, each after its number and
  a colon, with the numbers aligned to the width of the last one; the characters before the caret are
  blanks, or tabs where the line has tabs. After the last line there is always one line more: what follows the last newline, read
  with the uninitialised byte beyond the end of the file. What was read of the files before does not matter.\<close>

theorem context_shows_lines:
  assumes "cache_current fs sm" "fs (filePath loc) = Some content" "has_lines content ls rest"
    and "1 \<le> line loc" "line loc \<le> int (length ls)"
    and "1 \<le> column loc" "column loc \<le> int (length (ls ! nat (line loc - 1)))"
    and "filePath loc \<noteq> []"
  shows "let digits = length (string_of_nat (nat (line loc + 1))); text = ls ! nat (line loc - 1)
    in snd (getContext fs g loc sm) = Inr (
      (if line loc > 1 then numbered_line digits (line loc - 1) (ls ! nat (line loc - 2) @ [nl]) else []) @
      numbered_line digits (line loc) (text @ [nl]) @
      replicate (digits + 1) CHR '' '' @
      map (\<lambda>c. if c = CHR 0x09 then CHR 0x09 else CHR '' '') (take (nat (column loc - 1)) text) @ ''^'' @ [nl] @
      numbered_line digits (line loc + 1)
        (if line loc < int (length ls) then ls ! nat (line loc) @ [nl] else takeWhile (\<lambda>c. c \<noteq> CHR 0x00) (rest @ [g])))"
proof -
  have "\<not> isNull loc" using assms(4) by (simp add: isNull_iff)
  from context_lines [OF assms(1-7) this assms(8)] show ?thesis by (simp only: Let_def)
qed

lemma context_shows_lines_witness:
  "snd (getContext (\<lambda>p. Some (''int a;'' @ [nl, CHR 0x09] @ ''a = 1;'' @ [nl])) CHR ''?''
     (nullSourceLocation\<lparr>filePath := ''a.c'', line := 2, column := 4\<rparr>) []) =
   Inr (''1:int a;'' @ [nl] @ ''2:'' @ [CHR 0x09] @ ''a = 1;'' @ [nl] @ ''  '' @ [CHR 0x09] @ ''  ^'' @ [nl] @ ''3:?'')"
proof -
  let ?content = "''int a;'' @ [nl, CHR 0x09] @ ''a = 1;'' @ [nl]"
  let ?loc = "nullSourceLocation\<lparr>filePath := ''a.c'', line := 2, column := 4\<rparr>"
  have ls: "has_lines ?content [''int a;'', CHR 0x09 # ''a = 1;''] []"
    by (simp add: has_lines_def terminated_def nl_def)
  have n: "string_of_int 1 = ''1''" "string_of_int 2 = ''2''" "string_of_int 3 = ''3''" "string_of_nat 3 = ''3''"
    by code_simp+
  have t: "take 3 (CHR 0x09 # ''a = 1;'') = CHR 0x09 # ''a ''" by (simp add: eval_nat_numeral)
  show ?thesis
    using context_shows_lines [of "\<lambda>p. Some ?content" "[]" ?loc ?content "[''int a;'', CHR 0x09 # ''a = 1;'']" "[]" "CHR ''?''", OF _ _ ls]
    by (simp add: cache_current_def numbered_line_def n t numeral_2_eq_2 [symmetric])
qed

end
