(* ===== verification/MutationScore.thy ===== *)
theory MutationScore
  imports Prelude
begin

text \<open>
  The mutation score that \<open>lib/Reporters/IDEReporter.cpp\<close> and
  \<open>lib/Reporters/MutationTestingElementsReporter.cpp\<close> print, \<open>uint(double(killed) / double(all) * 100)\<close>.
  A \<open>double\<close> has 53 significant bits and operations round to the nearest value, ties to even; the
  numbers of mutants are exact in it. A positive \<open>double\<close> is \<open>m / 2 ^ s\<close> here.
\<close>

text \<open>\<open>a / b\<close> rounded to an integer.\<close>

definition round_half_even :: "nat \<Rightarrow> nat \<Rightarrow> nat" where
  "round_half_even a b =
     (let q = a div b; r = a mod b
      in if 2 * r < b then q else if b < 2 * r then q + 1 else if even q then q else q + 1)"

text \<open>The number of doublings after which \<open>a / b\<close> has 53 bits before the point.\<close>

function find_shift :: "nat \<Rightarrow> nat \<Rightarrow> nat \<Rightarrow> nat" where
  "find_shift a b s = (if a = 0 \<or> 2 ^ 52 * b \<le> a then s else find_shift (2 * a) b (s + 1))"
  by pat_completeness auto
termination
  by (relation "measure (\<lambda>(a, b, s). 2 ^ 52 * b - a)") auto

declare find_shift.simps [simp del]

text \<open>The number of bits a product has too many.\<close>

function find_drop :: "nat \<Rightarrow> nat \<Rightarrow> nat" where
  "find_drop p t = (if p < 2 ^ (53 + t) then t else find_drop p (t + 1))"
  by pat_completeness auto
termination
proof (relation "measure (\<lambda>(p, t). p - t)")
  fix p t :: nat assume "\<not> p < 2 ^ (53 + t)"
  moreover have "t < 2 ^ t" by simp
  moreover have "(2 :: nat) ^ t \<le> 2 ^ (53 + t)" by (rule power_increasing) auto
  ultimately have "t < p" by linarith
  then show "((p, t + 1), p, t) \<in> measure (\<lambda>(p, t). p - t)" by simp
qed simp

declare find_drop.simps [simp del]

definition mutation_score :: "nat \<Rightarrow> nat \<Rightarrow> nat" where
  "mutation_score killed all_mutants =
     (if killed = 0 then 0
      else
        (let s = find_shift killed all_mutants 0;
             m = round_half_even (killed * 2 ^ s) all_mutants;
             t = find_drop (100 * m) 0;
             p = round_half_even (100 * m) (2 ^ t)
         in p * 2 ^ t div 2 ^ s))"

section \<open>How exact the score is\<close>

lemma round_half_even_error:
  assumes "0 < b"
  shows "2 * (round_half_even a b * b) \<le> 2 * a + b" "2 * a \<le> 2 * (round_half_even a b * b) + b"
proof -
  define x where "x = (a div b) * b"
  have r: "round_half_even a b * b = x \<and> 2 * (a mod b) \<le> b \<or>
      round_half_even a b * b = x + b \<and> b \<le> 2 * (a mod b)"
    by (auto simp: round_half_even_def Let_def x_def)
  have "a = x + a mod b" "a mod b < b" using assms by (simp_all add: x_def)
  with r show "2 * (round_half_even a b * b) \<le> 2 * a + b" "2 * a \<le> 2 * (round_half_even a b * b) + b"
    by linarith+
qed

lemma find_shift_range:
  assumes "0 < a" "a < 2 ^ 53 * b"
  shows "s \<le> find_shift a b s \<and> 2 ^ 52 * b \<le> a * 2 ^ (find_shift a b s - s) \<and>
    a * 2 ^ (find_shift a b s - s) < 2 ^ 53 * b"
  using assms
proof (induction a b s rule: find_shift.induct)
  case (1 a b s)
  show ?case
  proof (cases "2 ^ 52 * b \<le> a")
    case True
    then show ?thesis using "1.prems" by (simp add: find_shift.simps [of a b s])
  next
    case False
    then have e: "find_shift a b s = find_shift (2 * a) b (s + 1)"
      using "1.prems" by (simp add: find_shift.simps [of a b s])
    have ih: "s + 1 \<le> find_shift (2 * a) b (s + 1) \<and>
        2 ^ 52 * b \<le> 2 * a * 2 ^ (find_shift (2 * a) b (s + 1) - (s + 1)) \<and>
        2 * a * 2 ^ (find_shift (2 * a) b (s + 1) - (s + 1)) < 2 ^ 53 * b"
      by (rule "1.IH") (use False "1.prems" in auto)
    then obtain k where k: "find_shift (2 * a) b (s + 1) = s + 1 + k" by (metis le_iff_add)
    have d: "find_shift (2 * a) b (s + 1) - (s + 1) = k" "find_shift a b s - s = Suc k" "s \<le> find_shift a b s"
      using k e by simp_all
    have "2 * a * 2 ^ k = a * 2 ^ Suc k" by simp
    with ih show ?thesis unfolding d(1) d(2) using d(3) by simp
  qed
qed

lemma find_drop_le: "p < 2 ^ (53 + u) \<Longrightarrow> t \<le> u \<Longrightarrow> find_drop p t \<le> u"
proof (induction p t rule: find_drop.induct)
  case (1 p t)
  show ?case
  proof (cases "p < 2 ^ (53 + t)")
    case True
    then show ?thesis using "1.prems" by (simp add: find_drop.simps [of p t])
  next
    case False
    then have "t \<noteq> u" using "1.prems" by auto
    then show ?thesis using 1 False by (simp add: find_drop.simps [of p t])
  qed
qed

lemma score_parts:
  assumes "0 < k" "k \<le> n" "n < 2 ^ 31"
  obtains p t s where "mutation_score k n = p * 2 ^ t div 2 ^ s" "52 \<le> s"
    "p * 2 ^ t * n \<le> 100 * k * 2 ^ s + 114 * n" "100 * k * 2 ^ s \<le> p * 2 ^ t * n + 114 * n"
proof -
  define s where "s = find_shift k n 0"
  define m where "m = round_half_even (k * 2 ^ s) n"
  define t where "t = find_drop (100 * m) 0"
  define p where "p = round_half_even (100 * m) (2 ^ t)"
  have n: "0 < n" using assms by simp
  have range: "2 ^ 52 * n \<le> k * 2 ^ s" "k * 2 ^ s < 2 ^ 53 * n"
    using find_shift_range [of k n 0] assms by (auto simp: s_def)
  have "2 ^ 52 * n \<le> n * 2 ^ s"
    using range(1) mult_right_mono [OF assms(2), of "2 ^ s"] by linarith
  then have "(2 :: nat) ^ 52 \<le> 2 ^ s" using n by simp
  then have s: "52 \<le> s" by (rule power_le_imp_le_exp [rotated]) simp
  have m: "2 * (m * n) \<le> 2 * (k * 2 ^ s) + n" "2 * (k * 2 ^ s) \<le> 2 * (m * n) + n"
    unfolding m_def using round_half_even_error [OF n] by blast+
  have "k * 2 ^ s < 9007199254740992 * n" using range(2) by simp
  then have "m * n < 9007199254740993 * n" using m(1) by linarith
  then have "100 * m < 2 ^ (53 + 7)" by simp
  then have "t \<le> 7" unfolding t_def by (rule find_drop_le) simp
  then have "(2 :: nat) ^ t \<le> 2 ^ 7" by (rule power_increasing) simp
  then have t: "(2 :: nat) ^ t \<le> 128" by simp
  have p: "2 * (p * 2 ^ t) \<le> 2 * (100 * m) + 2 ^ t" "2 * (100 * m) \<le> 2 * (p * 2 ^ t) + 2 ^ t"
    unfolding p_def using round_half_even_error [of "2 ^ t" "100 * m"] by auto
  have le: "p * 2 ^ t \<le> 100 * m + 64" "100 * m \<le> p * 2 ^ t + 64" using p t by linarith+
  have "p * 2 ^ t * n \<le> (100 * m + 64) * n" "100 * m * n \<le> (p * 2 ^ t + 64) * n"
    using le by (simp_all only: mult_le_mono1)
  moreover have "(100 * m + 64) * n = 100 * (m * n) + 64 * n" "100 * m * n = 100 * (m * n)"
    "(p * 2 ^ t + 64) * n = p * 2 ^ t * n + 64 * n"
    by (simp_all add: algebra_simps)
  ultimately have "p * 2 ^ t * n \<le> 100 * (k * 2 ^ s) + 114 * n" "100 * (k * 2 ^ s) \<le> p * 2 ^ t * n + 114 * n"
    using m by linarith+
  moreover have "mutation_score k n = p * 2 ^ t div 2 ^ s"
    using assms(1) by (simp add: mutation_score_def Let_def s_def m_def t_def p_def)
  ultimately show thesis using that [of p t s] s by (simp only: mult.assoc)
qed

lemma div_close:
  fixes A B n q r :: nat
  assumes "A * n \<le> (q * n + r) * B + e" "(q * n + r) * B \<le> A * n + e" "r < n" "e < B"
  shows "A div B = q \<or> r = 0 \<and> A div B + 1 = q"
proof -
  have B: "0 < B" and n: "0 < n" using assms by auto
  have "(q * n + r + 1) * B \<le> (q + 1) * n * B"
    by (rule mult_right_mono) (use assms(3) in \<open>simp_all add: algebra_simps\<close>)
  then have "A * n < (q + 1) * B * n" using assms(1,4) by (simp add: algebra_simps)
  then have up: "A < (q + 1) * B" by simp
  show ?thesis
  proof (cases "r = 0")
    case False
    then have "q * n * B + B \<le> (q * n + r) * B" by (simp add: algebra_simps)
    then have "q * n * B \<le> A * n" using assms(2,4) by linarith
    then have "q * B * n \<le> A * n" by (simp add: mult_ac)
    then have "q * B \<le> A" using n by simp
    then have "A div B = q" using up B by (intro div_nat_eqI) (simp_all add: algebra_simps)
    then show ?thesis ..
  next
    case True
    show ?thesis
    proof (cases "q * B \<le> A")
      case True
      then have "A div B = q" using up B by (intro div_nat_eqI) (simp_all add: algebra_simps)
      then show ?thesis ..
    next
      case below: False
      then obtain q' where q: "q = Suc q'" by (cases q) auto
      have "q' * B * n + B \<le> q' * B * n + n * B" using n by simp
      moreover have "(q * n + r) * B = q' * B * n + n * B" using q True by (simp add: algebra_simps)
      ultimately have "q' * B * n \<le> A * n" using assms(2,4) by linarith
      then have "q' * B \<le> A" using n by simp
      then have "A div B = q'" using below q B by (intro div_nat_eqI) (simp_all add: algebra_simps)
      with True q show ?thesis by simp
    qed
  qed
qed

text \<open>The printed score is the percentage of killed mutants rounded down, or, when that percentage is a
  whole number, possibly one less.\<close>

lemma score_is_floor_or_one_less:
  assumes "killed \<le> n" "0 < n" "n < 2 ^ 31"
  shows "mutation_score killed n \<in>
    (if n dvd 100 * killed then {100 * killed div n, 100 * killed div n - 1} else {100 * killed div n})"
proof (cases "killed = 0")
  case True
  then show ?thesis by (simp add: mutation_score_def)
next
  case False
  then obtain p t s where score: "mutation_score killed n = p * 2 ^ t div 2 ^ s" "52 \<le> s"
    "p * 2 ^ t * n \<le> 100 * killed * 2 ^ s + 114 * n" "100 * killed * 2 ^ s \<le> p * 2 ^ t * n + 114 * n"
    using score_parts [of killed n] assms by blast
  have "(2 :: nat) ^ 52 \<le> 2 ^ s" using score(2) by (rule power_increasing) simp
  then have B: "114 * n < 2 ^ s" using assms(3) by simp
  have e: "100 * killed = 100 * killed div n * n + 100 * killed mod n" by simp
  have "p * 2 ^ t div 2 ^ s = 100 * killed div n \<or>
      100 * killed mod n = 0 \<and> p * 2 ^ t div 2 ^ s + 1 = 100 * killed div n"
    by (rule div_close [where n = n and e = "114 * n"]) (use score(3,4) assms(2) B in \<open>simp_all flip: e\<close>)
  then show ?thesis unfolding score(1) by (auto simp: dvd_eq_mod_eq_0)
qed

lemma score_is_floor_or_one_less_witness: "mutation_score 1 3 = 33"
  using score_is_floor_or_one_less [of 1 3] by simp

text \<open>Killing 29 of 100 mutants is reported as 28 percent.\<close>

lemma score_of_29_in_100: "mutation_score 29 100 = 28"
proof -
  have "find_shift 29 100 0 = 54" by (simp add: find_shift.simps)
  moreover have "round_half_even (29 * 2 ^ 54) 100 = 5224175567749775"
    by (simp add: round_half_even_def)
  moreover have "find_drop (100 * 5224175567749775) 0 = 6" by (simp add: find_drop.simps)
  moreover have "round_half_even (100 * 5224175567749775) (2 ^ 6) = 8162774324609023"
    by (simp add: round_half_even_def)
  ultimately show ?thesis by (simp add: mutation_score_def)
qed

end
