(* ===== verification/Reporters.thy ===== *)
theory Reporters
  imports MutantRunner MutatorsFactory SourceManager MutationScore
begin

text \<open>
  The reporters: \<open>lib/Reporters/IDEReporter.cpp\<close>, \<open>MutationTestingElementsReporter.cpp\<close> and
  \<open>SQLiteReporter.cpp\<close>. Reports go to the log, to standard output, to files and to a database; the state
  of a reporter collects them. JSON texts (json11) and the database (sqlite) are not part of the
  repository: the model ends at the JSON value and at the calls of sqlite.
\<close>

section \<open>Results and state\<close>

text \<open>A result points to its mutant: the position of the mutant in the vector.\<close>

record Result =
  getMutants :: "mutant list"
  getMutationResults :: "(ExecutionResult \<times> nat) list"

text \<open>The driver and the mutant runner make one result per mutant, in order.\<close>

definition make_Result :: "mutant list \<Rightarrow> MutationResult list \<Rightarrow> Result" where
  "make_Result mutants results =
     \<lparr>getMutants = mutants,
      getMutationResults = zip (map execution_result results) [0..<length results]\<rparr>"

datatype sqlite_value = SqlText string | SqlInt int

datatype sqlite_call =
    SqlExec string
  | SqlInsertExecutionResult "sqlite_value list"
  | SqlInsertMutant "sqlite_value list"

record reporter_state =
  rep_log :: diagnostics
  rep_stdout :: string
  rep_sources :: source_manager
  rep_factory :: factory
  rep_files :: "(string \<times> string) list"
  rep_sqlite :: "sqlite_call list"

type_synonym 'a reporter = "reporter_state \<Rightarrow> reporter_state \<times> 'a result"

definition with_log :: "'a diag \<Rightarrow> 'a reporter" where
  "with_log m s = (case m (rep_log s) of (d, r) \<Rightarrow> (s\<lparr>rep_log := d\<rparr>, r))"

definition with_sources :: "(source_manager \<Rightarrow> source_manager \<times> 'a result) \<Rightarrow> 'a reporter" where
  "with_sources m s = (case m (rep_sources s) of (sm, r) \<Rightarrow> (s\<lparr>rep_sources := sm\<rparr>, r))"

definition find_mutator :: "string \<Rightarrow> mutator reporter" where
  "find_mutator mutatorId s =
     (case getMutator mutatorId (rep_factory s) of
        (m, f) \<Rightarrow>
          (s\<lparr>rep_factory := f\<rparr>, case m of None \<Rightarrow> Inl (NullPointer ''mutator'') | Some mu \<Rightarrow> Inr mu))"

text \<open>A C string ends at the first zero byte.\<close>

definition c_str :: "string \<Rightarrow> string" where
  "c_str = takeWhile (\<lambda>c. c \<noteq> CHR 0x00)"

definition print_stdout :: "string \<Rightarrow> unit reporter" where
  "print_stdout text s = (s\<lparr>rep_stdout := rep_stdout s @ c_str text\<rparr>, Inr ())"

definition write_file :: "string \<Rightarrow> string \<Rightarrow> unit reporter" where
  "write_file path text s = (s\<lparr>rep_files := rep_files s @ [(path, text)]\<rparr>, Inr ())"

fun for_each :: "('a \<Rightarrow> unit reporter) \<Rightarrow> 'a list \<Rightarrow> unit reporter" where
  "for_each f [] = st_return ()"
| "for_each f (x # xs) = st_bind (f x) (\<lambda>_. for_each f xs)"

section \<open>IDE reporter\<close>

definition mutantSurvived :: "ExecutionStatus \<Rightarrow> bool" where
  "mutantSurvived st \<longleftrightarrow> st = Passed"

definition mutantNotCovered :: "ExecutionStatus \<Rightarrow> bool" where
  "mutantNotCovered st \<longleftrightarrow> st = NotCovered"

definition mutant_message :: "mutant \<Rightarrow> string \<Rightarrow> mutator \<Rightarrow> string \<Rightarrow> string" where
  "mutant_message m st mu source =
     filePath (mutant_location m) @ '':'' @ string_of_int (line (mutant_location m)) @ '':'' @
     string_of_int (column (mutant_location m)) @ '': warning: '' @ st @ '': '' @
     getDiagnostics mu @ '' ['' @ mutatorIdentifier m @ '']'' @ newline @ source"

definition printMutant :: "file_system \<Rightarrow> char \<Rightarrow> string \<Rightarrow> mutant \<Rightarrow> unit reporter" where
  "printMutant fs garbage st m =
     st_bind (st_lift (cxx_assert ''Debug information is missing?'' (\<not> isNull (mutant_location m)))) (\<lambda>_.
     st_bind (find_mutator (mutatorIdentifier m)) (\<lambda>mu.
     st_bind (with_sources (getSourceLineWithCaret fs garbage (mutant_location m))) (\<lambda>source.
     print_stdout (mutant_message m st mu source))))"

definition count_line :: "string \<Rightarrow> nat \<Rightarrow> nat \<Rightarrow> string" where
  "count_line st k n = st @ '' mutants ('' @ string_of_nat k @ ''/'' @ string_of_nat n @ ''):''"

definition printMutants :: "file_system \<Rightarrow> char \<Rightarrow> mutant list \<Rightarrow> nat \<Rightarrow> string \<Rightarrow> unit reporter" where
  "printMutants fs garbage mutants totalSize st =
     (if mutants = [] then st_return ()
      else st_bind (with_log (diag_info (count_line st (length mutants) totalSize))) (\<lambda>_.
        for_each (printMutant fs garbage st) mutants))"

text \<open>The loop over the results; its state are the killed, survived and not covered mutants.\<close>

definition classify_result ::
  "mutant list \<Rightarrow> mutant list \<times> mutant list \<times> mutant list \<Rightarrow> ExecutionResult \<times> nat \<Rightarrow>
     mutant list \<times> mutant list \<times> mutant list" where
  "classify_result mutants acc r =
     (let (killed, survived, notCovered) = acc; m = mutants ! snd r
      in if mutantSurvived (status (fst r)) then (killed, survived @ [m], notCovered)
         else if mutantNotCovered (status (fst r)) then (killed, survived, notCovered @ [m])
         else (killed @ [m], survived, notCovered))"

definition IDE_reportResults :: "file_system \<Rightarrow> char \<Rightarrow> bool \<Rightarrow> Result \<Rightarrow> unit reporter" where
  "IDE_reportResults fs garbage showKilled res =
     (if getMutants res = []
      then with_log (diag_info ''No mutants found. Mutation score: infinitely high'')
      else
        (let (killed, survived, notCovered) =
               foldl (classify_result (getMutants res)) ([], [], []) (getMutationResults res);
             n = length (getMutants res)
         in st_bind (st_lift (cxx_assert ''killed + survived + notCovered == results''
              (length killed + length survived + length notCovered = length (getMutationResults res)))) (\<lambda>_.
            st_bind (\<lambda>s. (s\<lparr>rep_factory := factory_init new_factory\<rparr>, Inr ())) (\<lambda>_.
            st_bind (if showKilled then printMutants fs garbage killed n ''Killed'' else st_return ()) (\<lambda>_.
            st_bind (printMutants fs garbage survived n ''Survived'') (\<lambda>_.
            st_bind (printMutants fs garbage notCovered n ''Not Covered'') (\<lambda>_.
            st_bind
              (if survived = [] \<and> notCovered = []
               then with_log (diag_info ''All mutations have been killed'') else st_return ()) (\<lambda>_.
            with_log (diag_info (''Mutation score: '' @ string_of_nat (mutation_score (length killed) n) @ ''%''))
            ))))))))"

section \<open>Mutation testing elements\<close>

datatype json =
    JString string
  | JInt int
  | JArray "json list"
  | JObject "(string \<times> json) list"

text \<open>An object keeps its members ordered by key.\<close>

definition json_object :: "(string \<times> json) list \<Rightarrow> json" where
  "json_object members = JObject (map_inserts members [])"

definition position :: "SourceLocation \<Rightarrow> json" where
  "position loc = json_object [(''line'', JInt (line loc)), (''column'', JInt (column loc))]"

definition mutant_status :: "nat list \<Rightarrow> nat list \<Rightarrow> nat \<Rightarrow> string" where
  "mutant_status killed notCovered p =
     (if p \<in> set killed then ''Killed'' else if p \<in> set notCovered then ''NoCoverage'' else ''Survived'')"

definition mutant_entry :: "mutant \<Rightarrow> mutator \<Rightarrow> string \<Rightarrow> json" where
  "mutant_entry m mu st =
     json_object
       [(''id'', JString (mutatorIdentifier m)), (''mutatorName'', JString (getDiagnostics mu)),
        (''replacement'', JString (getReplacement mu)),
        (''location'', json_object [(''start'', position (mutant_location m)), (''end'', position (mutant_endLocation m))]),
        (''status'', JString st)]"

text \<open>Step 1: the map from files to mutants, with the check that the columns lie in the lines.\<close>

fun mutants_per_file ::
  "file_system \<Rightarrow> char \<Rightarrow> (mutant \<times> nat) list \<Rightarrow> (string \<times> nat list) list \<Rightarrow> (string \<times> nat list) list reporter" where
  "mutants_per_file fs garbage [] files = st_return files"
| "mutants_per_file fs garbage ((m, p) # ms) files =
     (let loc = mutant_location m; old = map_of files (filePath loc)
      in st_bind (with_sources (getLine fs garbage loc)) (\<lambda>text.
         st_bind (st_lift (cxx_assert ''sourceLocation.column < sourceCodeLine.size()''
           (0 \<le> column loc \<and> column loc < int (length text)))) (\<lambda>_.
         mutants_per_file fs garbage ms
           (map_insert (filePath loc) ((case old of None \<Rightarrow> [] | Some ps \<Rightarrow> ps) @ [p]) files))))"

text \<open>Step 2: the entries of one file.\<close>

fun file_entries :: "mutant list \<Rightarrow> nat list \<Rightarrow> nat list \<Rightarrow> nat list \<Rightarrow> json list \<Rightarrow> json list reporter" where
  "file_entries mutants killed notCovered [] entries = st_return entries"
| "file_entries mutants killed notCovered (p # ps) entries =
     st_bind (find_mutator (mutatorIdentifier (mutants ! p))) (\<lambda>mu.
     file_entries mutants killed notCovered ps
       (entries @ [mutant_entry (mutants ! p) mu (mutant_status killed notCovered p)]))"

fun file_objects ::
  "file_system \<Rightarrow> mutant list \<Rightarrow> nat list \<Rightarrow> nat list \<Rightarrow> (string \<times> nat list) list \<Rightarrow> (string \<times> json) list \<Rightarrow>
     (string \<times> json) list reporter" where
  "file_objects fs mutants killed notCovered [] files = st_return files"
| "file_objects fs mutants killed notCovered ((path, ps) # rest) files =
     st_bind (file_entries mutants killed notCovered ps []) (\<lambda>entries.
     let object = json_object
           [(''language'', JString ''cpp''),
            (''source'', JString (case fs path of None \<Rightarrow> [] | Some c \<Rightarrow> c)),
            (''mutants'', JArray entries)]
     in file_objects fs mutants killed notCovered rest (map_insert path object files))"

definition createFiles ::
  "file_system \<Rightarrow> char \<Rightarrow> Result \<Rightarrow> nat list \<Rightarrow> nat list \<Rightarrow> json reporter" where
  "createFiles fs garbage res killed notCovered =
     st_bind (\<lambda>s. (s\<lparr>rep_sources := []\<rparr>, Inr ())) (\<lambda>_.
     st_bind (mutants_per_file fs garbage (zip (getMutants res) [0..<length (getMutants res)]) []) (\<lambda>per_file.
     st_bind (\<lambda>s. (s\<lparr>rep_factory := factory_init new_factory\<rparr>, Inr ())) (\<lambda>_.
     st_bind (file_objects fs (getMutants res) killed notCovered per_file []) (\<lambda>files.
     st_return (JObject files)))))"

text \<open>An empty name stands for the time, in seconds; an empty directory for the current one.\<close>

definition getFilename :: "nat \<Rightarrow> string \<Rightarrow> string" where
  "getFilename now name = (if name = [] then string_of_nat now else name)"

definition getReportDir :: "string \<Rightarrow> string" where
  "getReportDir dir = (if dir = [] then ''.'' else dir)"

record elements_reporter =
  elements_filename :: string
  htmlPath :: string
  jsonPath :: string

definition MutationTestingElementsReporter :: "nat \<Rightarrow> string \<Rightarrow> string \<Rightarrow> elements_reporter" where
  "MutationTestingElementsReporter now reportDir reportName =
     \<lparr>elements_filename = getFilename now reportName,
      htmlPath = getReportDir reportDir @ ''/'' @ getFilename now reportName @ ''.html'',
      jsonPath = getReportDir reportDir @ ''/'' @ getFilename now reportName @ ''.json''\<rparr>"

definition quote :: string where
  "quote = [CHR 0x22]"

definition generateHTMLFile :: "elements_reporter \<Rightarrow> unit reporter" where
  "generateHTMLFile r =
     write_file (htmlPath r)
       (''<!DOCTYPE html>'' @ newline @ ''<head>'' @ newline @
        ''  <title>Mutation Testing Elements</title>'' @ newline @
        ''  <script defer src='' @ quote @ ''https://www.unpkg.com/mutation-testing-elements'' @ quote @
        ''></script>'' @ ''</head>'' @ newline @ ''<body>'' @ newline @
        ''  <mutation-test-report-app src='' @ quote @ elements_filename r @ ''.json'' @ quote @ ''>'' @
        ''</mutation-test-report-app>'' @ newline @ ''</body>'' @ newline @ ''</html>'')"

text \<open>The sets of mutants that were killed and that were not covered, as pointers.\<close>

definition killed_pointers :: "Result \<Rightarrow> nat list" where
  "killed_pointers res = remdups (map snd (filter (\<lambda>(r, p).
     status r \<noteq> NotCovered \<and> \<not> mutantSurvived (status r)) (getMutationResults res)))"

definition notCovered_pointers :: "Result \<Rightarrow> nat list" where
  "notCovered_pointers res = remdups (map snd (filter (\<lambda>(r, p). status r = NotCovered) (getMutationResults res)))"

definition Elements_reportResults ::
  "file_system \<Rightarrow> char \<Rightarrow> (json \<Rightarrow> string) \<Rightarrow> elements_reporter \<Rightarrow> Result \<Rightarrow> unit reporter" where
  "Elements_reportResults fs garbage dump_json r res =
     (if getMutants res = []
      then with_log (diag_info ''No mutants found. Mutation score: infinitely high'')
      else
        st_bind (generateHTMLFile r) (\<lambda>_.
        let killed = killed_pointers res;
            notCovered = notCovered_pointers res;
            score = mutation_score (length killed) (length (getMutants res))
        in st_bind (createFiles fs garbage res killed notCovered) (\<lambda>files.
           let report = json_object
                 [(''mutationScore'', JInt (int score)),
                  (''thresholds'', json_object [(''high'', JInt 80), (''low'', JInt 60)]),
                  (''files'', files), (''schemaVersion'', JString ''1.1.1'')]
           in st_bind (with_log (diag_info
                (''Mutation Testing Elements reporter: generating report to '' @ jsonPath r))) (\<lambda>_.
              write_file (jsonPath r) (dump_json report)))))"

section \<open>SQLite reporter\<close>

fun status_number :: "ExecutionStatus \<Rightarrow> int" where
  "status_number Invalid = 0"
| "status_number Failed = 1"
| "status_number Passed = 2"
| "status_number Timedout = 3"
| "status_number Crashed = 4"
| "status_number AbnormalExit = 5"
| "status_number DryRun = 6"
| "status_number FailFast = 7"
| "status_number NotCovered = 8"

definition getReportName :: "nat \<Rightarrow> string \<Rightarrow> string" where
  "getReportName now name = (if name = [] then string_of_nat now else name) @ ''.sqlite''"

definition SQLiteReporter :: "nat \<Rightarrow> string \<Rightarrow> string \<Rightarrow> string" where
  "SQLiteReporter now reportDir reportName = getReportDir reportDir @ ''/'' @ getReportName now reportName"

definition sqlite_does :: "sqlite_call \<Rightarrow> unit reporter" where
  "sqlite_does c s = (s\<lparr>rep_sqlite := rep_sqlite s @ [c]\<rparr>, Inr ())"

text \<open>\<open>exec_error\<close> is the error message of \<open>sqlite3_exec\<close>; what \<open>sqlite3_step\<close> returns is ignored.\<close>

definition sqlite_exec :: "(string \<Rightarrow> string option) \<Rightarrow> string \<Rightarrow> unit reporter" where
  "sqlite_exec exec_error sql =
     st_bind (sqlite_does (SqlExec sql)) (\<lambda>_.
       (case exec_error sql of
          None \<Rightarrow> st_return ()
        | Some message \<Rightarrow>
            with_log (diag_error (''Cannot execute '' @ sql @ newline @ ''Reason: '' @ [CHR 0x27] @ message @
              [CHR 0x27] @ newline))))"

text \<open>The reporter has a step that looks at what \<open>sqlite3_step\<close> returns, but never uses it.\<close>

definition sqlite_step :: "string option \<Rightarrow> unit reporter" where
  "sqlite_step step_error =
     (case step_error of
        None \<Rightarrow> st_return ()
      | Some message \<Rightarrow>
          with_log (diag_error (''Error inserting data: '' @ newline @ ''Reason: '' @ [CHR 0x27] @ message @
            [CHR 0x27] @ newline)))"

definition CreateTables :: string where
  "CreateTables =
     newline @ ''CREATE TABLE execution_result ('' @ newline @ ''  mutation_point_id TEXT,'' @
     newline @ ''  status INT,'' @ newline @ ''  duration INT,'' @ newline @ ''  stdout TEXT,'' @
     newline @ ''  stderr TEXT'' @ newline @ '');'' @ newline @ newline @ ''CREATE TABLE mutant ('' @
     newline @ ''  mutator TEXT,'' @ newline @ ''  filename TEXT,'' @ newline @
     ''  directory TEXT,'' @ newline @ ''  line_number INT,'' @ newline @ ''  column_number INT,'' @
     newline @ ''  unique_id TEXT'' @ newline @ '');'' @ newline"

definition createTables :: "(string \<Rightarrow> string option) \<Rightarrow> unit reporter" where
  "createTables exec_error = sqlite_exec exec_error CreateTables"

definition execution_row :: "mutant list \<Rightarrow> ExecutionResult \<times> nat \<Rightarrow> sqlite_value list" where
  "execution_row mutants r =
     [SqlText (c_str (mutant_identifier (mutants ! snd r))), SqlInt (status_number (status (fst r))),
      SqlInt (runningTime (fst r)), SqlText (c_str (stdoutOutput (fst r))),
      SqlText (c_str (stderrOutput (fst r)))]"

definition mutant_row :: "mutant \<Rightarrow> sqlite_value list" where
  "mutant_row m =
     [SqlText (c_str (mutatorIdentifier m)), SqlText (c_str (filePath (mutant_location m))),
      SqlText (c_str (directory (mutant_location m))), SqlInt (line (mutant_location m)),
      SqlInt (column (mutant_location m)), SqlText (c_str (mutant_identifier m))]"

definition SQLite_reportResults :: "(string \<Rightarrow> string option) \<Rightarrow> string \<Rightarrow> Result \<Rightarrow> unit reporter" where
  "SQLite_reportResults exec_error databasePath res =
     st_bind (createTables exec_error) (\<lambda>_.
     st_bind (sqlite_exec exec_error ''BEGIN TRANSACTION'') (\<lambda>_.
     st_bind (for_each (\<lambda>r. sqlite_does (SqlInsertExecutionResult (execution_row (getMutants res) r)))
       (getMutationResults res)) (\<lambda>_.
     st_bind (for_each (\<lambda>m. sqlite_does (SqlInsertMutant (mutant_row m))) (getMutants res)) (\<lambda>_.
     st_bind (sqlite_exec exec_error ''END TRANSACTION'') (\<lambda>_.
     with_log (diag_info (''Results can be found at '' @ [CHR 0x27] @ databasePath @ [CHR 0x27])))))))"

section \<open>Properties of the SQLite report\<close>

lemma for_each_does:
  "for_each (\<lambda>x. sqlite_does (c x)) xs s = (s\<lparr>rep_sqlite := rep_sqlite s @ map c xs\<rparr>, Inr ())"
  by (induction xs arbitrary: s) (auto simp: st_return_def st_bind_def sqlite_does_def)

text \<open>The rows, column by column: a text is stored up to its first zero, a status as its place in the
  enumeration.\<close>

definition stored_text :: "string \<Rightarrow> sqlite_value" where
  "stored_text t = SqlText (takeWhile (\<lambda>c. c \<noteq> CHR 0x00) t)"

definition stored_status :: "ExecutionStatus \<Rightarrow> sqlite_value" where
  "stored_status st = SqlInt (int (length (takeWhile (\<lambda>x. x \<noteq> st)
     [Invalid, Failed, Passed, Timedout, Crashed, AbnormalExit, DryRun, FailFast, NotCovered])))"

definition result_insert :: "mutant list \<Rightarrow> ExecutionResult \<times> nat \<Rightarrow> sqlite_call" where
  "result_insert mutants r = SqlInsertExecutionResult
     [stored_text (mutant_identifier (mutants ! snd r)), stored_status (status (fst r)), SqlInt (runningTime (fst r)),
      stored_text (stdoutOutput (fst r)), stored_text (stderrOutput (fst r))]"

definition mutant_insert :: "mutant \<Rightarrow> sqlite_call" where
  "mutant_insert m = SqlInsertMutant
     [stored_text (mutatorIdentifier m), stored_text (filePath (mutant_location m)),
      stored_text (directory (mutant_location m)), SqlInt (line (mutant_location m)),
      SqlInt (column (mutant_location m)), stored_text (mutant_identifier m)]"

lemma status_stored: "SqlInt (status_number st) = stored_status st"
  by (cases st) (simp_all add: stored_status_def)

lemma rows_inserted:
  "SqlInsertExecutionResult (execution_row mutants r) = result_insert mutants r"
  "SqlInsertMutant (mutant_row m) = mutant_insert m"
  by (simp_all add: execution_row_def result_insert_def mutant_row_def mutant_insert_def stored_text_def c_str_def
      status_stored)

definition report_statements :: "string list" where
  "report_statements = [CreateTables, ''BEGIN TRANSACTION'', ''END TRANSACTION'']"

text \<open>C27. The SQLite report executes the statements that create the tables and begin and end the transaction. When
  one of the three fails it reports the reason as an error and ends the process there. Otherwise it steps,
  between the beginning and the end of the transaction, through one insertion per result, in the order of
  the results, with the mutant's identifier, the status as its place in the enumeration, the running time
  and both outputs, and then through one per mutant, in the order of the mutants, with its mutator, file,
  directory, line, column and identifier, and leaves the report's path in the log. What a step of an
  insertion answers is not looked at: a row the database refuses changes neither.\<close>

theorem sqlite_report_rows:
  "(case SQLite_reportResults exec_error path res s of
      (s', Inr u) \<Rightarrow>
        rep_sqlite s' = rep_sqlite s @ [SqlExec CreateTables, SqlExec ''BEGIN TRANSACTION''] @
          map (result_insert (getMutants res)) (getMutationResults res) @
          map mutant_insert (getMutants res) @ [SqlExec ''END TRANSACTION''] \<and>
        last (log_output (rep_log s')) = LogInfo (''Results can be found at '' @ [CHR 0x27] @ path @ [CHR 0x27]) \<and>
        (\<forall>sql \<in> set report_statements. exec_error sql = None)
    | (s', Inl e) \<Rightarrow>
        e = Exited 1 \<and>
        (\<exists>sql message. sql \<in> set report_statements \<and> exec_error sql = Some message \<and>
           last (rep_sqlite s') = SqlExec sql \<and>
           (\<exists>before. log_output (rep_log s') = before @
             [LogError (''Cannot execute '' @ sql @ newline @ ''Reason: '' @ [CHR 0x27] @ message @ [CHR 0x27] @ newline),
              LogError ''Error messages are treated as fatal errors. Exiting now.''])))"
proof -
  have ok: "sqlite_exec exec_error sql s = (s\<lparr>rep_sqlite := rep_sqlite s @ [SqlExec sql]\<rparr>, Inr ())"
    if "exec_error sql = None" for sql s
    using that by (simp add: sqlite_exec_def st_bind_def sqlite_does_def st_return_def)
  have bad: "\<exists>s'. sqlite_exec exec_error sql s = (s', Inl (Exited 1)) \<and> last (rep_sqlite s') = SqlExec sql \<and>
      (\<exists>before. log_output (rep_log s') = before @
        [LogError (''Cannot execute '' @ sql @ newline @ ''Reason: '' @ [CHR 0x27] @ message @ [CHR 0x27] @ newline),
         LogError ''Error messages are treated as fatal errors. Exiting now.''])"
    if "exec_error sql = Some message" for sql s message
    using that by (simp add: sqlite_exec_def st_bind_def sqlite_does_def with_log_def diag_error_def emit_def)
  have tables: "createTables exec_error = sqlite_exec exec_error CreateTables"
    by (simp add: createTables_def)
  show ?thesis
  proof (cases "exec_error CreateTables")
    case (Some m)
    with bad [OF Some, of s] show ?thesis
      by (fastforce simp: SQLite_reportResults_def tables st_bind_def report_statements_def)
  next
    case c: None
    show ?thesis
    proof (cases "exec_error ''BEGIN TRANSACTION''")
      case (Some m)
      with bad [OF Some, of "s\<lparr>rep_sqlite := rep_sqlite s @ [SqlExec CreateTables]\<rparr>"] show ?thesis
        by (fastforce simp: SQLite_reportResults_def tables ok [OF c] st_bind_def report_statements_def)
    next
      case b: None
      let ?s = "s\<lparr>rep_sqlite := rep_sqlite s @ [SqlExec CreateTables, SqlExec ''BEGIN TRANSACTION''] @
          map (result_insert (getMutants res)) (getMutationResults res) @ map mutant_insert (getMutants res)\<rparr>"
      show ?thesis
      proof (cases "exec_error ''END TRANSACTION''")
        case (Some m)
        with bad [OF Some, of ?s] show ?thesis
          by (fastforce simp: SQLite_reportResults_def tables ok [OF c] ok [OF b] st_bind_def for_each_does
              rows_inserted report_statements_def)
      next
        case None
        with c b show ?thesis
          by (simp add: SQLite_reportResults_def tables ok st_bind_def for_each_does with_log_def diag_info_def
              rows_inserted report_statements_def)
      qed
    qed
  qed
qed

lemma sqlite_report_rows_witness:
  "let m = Mutant ''id'' ''cxx_add_to_sub'' (nullSourceLocation\<lparr>filePath := ''a.c'', line := 3, column := 7\<rparr>)
         nullSourceLocation True;
       res = \<lparr>getMutants = [m], getMutationResults = [(new_ExecutionResult\<lparr>status := Crashed, runningTime := 5\<rparr>, 0)]\<rparr>;
       s = \<lparr>rep_log = new_diagnostics, rep_stdout = [], rep_sources = [], rep_factory = new_factory, rep_files = [],
           rep_sqlite = []\<rparr>
   in (\<forall>s' u. SQLite_reportResults (\<lambda>sql. None) ''r.sqlite'' res s = (s', Inr u) \<longrightarrow>
         rep_sqlite s' =
           [SqlExec CreateTables, SqlExec ''BEGIN TRANSACTION'',
            SqlInsertExecutionResult [SqlText ''id'', SqlInt 4, SqlInt 5, SqlText [], SqlText []],
            SqlInsertMutant [SqlText ''cxx_add_to_sub'', SqlText ''a.c'', SqlText [], SqlInt 3, SqlInt 7, SqlText ''id''],
            SqlExec ''END TRANSACTION'']) \<and>
      \<not> isl (snd (SQLite_reportResults (\<lambda>sql. None) ''r.sqlite'' res s)) \<and>
      snd (SQLite_reportResults (\<lambda>sql. Some ''disk full'') ''r.sqlite'' res s) = Inl (Exited 1)"
proof -
  define m where "m = Mutant ''id'' ''cxx_add_to_sub'' (nullSourceLocation\<lparr>filePath := ''a.c'', line := 3, column := 7\<rparr>)
         nullSourceLocation True"
  define res where "res = \<lparr>getMutants = [m], getMutationResults = [(new_ExecutionResult\<lparr>status := Crashed, runningTime := 5\<rparr>, 0)]\<rparr>"
  define s where "s = \<lparr>rep_log = new_diagnostics, rep_stdout = [], rep_sources = [], rep_factory = new_factory, rep_files = [],
           rep_sqlite = []\<rparr>"
  have r: "map (result_insert (getMutants res)) (getMutationResults res) =
      [SqlInsertExecutionResult [SqlText ''id'', SqlInt 4, SqlInt 5, SqlText [], SqlText []]]"
    "map mutant_insert (getMutants res) = [SqlInsertMutant [SqlText ''cxx_add_to_sub'', SqlText ''a.c'', SqlText [],
      SqlInt 3, SqlInt 7, SqlText ''id'']]"
    by (simp_all add: res_def m_def Mutant_def result_insert_def mutant_insert_def stored_text_def stored_status_def
        new_ExecutionResult_def nullSourceLocation_def)
  have e: "rep_sqlite s = []" by (simp add: s_def)
  show ?thesis
    unfolding Let_def m_def [symmetric] res_def [symmetric] s_def [symmetric]
    using sqlite_report_rows [where exec_error = "\<lambda>sql. None" and path = "''r.sqlite''" and res = res and s = s,
        unfolded r e]
      sqlite_report_rows [where exec_error = "\<lambda>sql. Some ''disk full''" and path = "''r.sqlite''" and res = res and s = s]
    by (auto split: prod.splits sum.splits simp: report_statements_def)
qed

section \<open>Properties of the IDE report\<close>

definition infos :: "diagnostics \<Rightarrow> string list" where
  "infos d = concat (map (\<lambda>e. case e of LogInfo m \<Rightarrow> [m] | _ \<Rightarrow> []) (log_output d))"

lemma infos_diag_info: "diag_info m d = (d', r) \<Longrightarrow> infos d' = infos d @ [m] \<and> r = Inr ()"
  by (auto simp: diag_info_def infos_def diag_prepare_def emit_def)

text \<open>A mutant of a registered mutator at a column of a newline-terminated line of a source file.\<close>

definition printable :: "file_system \<Rightarrow> mutant \<Rightarrow> bool" where
  "printable fs m \<longleftrightarrow>
     registered (mutatorIdentifier m) \<noteq> None \<and>
     (\<exists>content ls rest. fs (filePath (mutant_location m)) = Some content \<and> has_lines content ls rest \<and>
        1 \<le> line (mutant_location m) \<and> line (mutant_location m) \<le> int (length ls) \<and>
        1 \<le> column (mutant_location m) \<and>
        column (mutant_location m) \<le> int (length (ls ! nat (line (mutant_location m) - 1))))"

lemma has_lines_no_zero:
  assumes "has_lines content ls rest" "1 \<le> i" "i \<le> int (length ls)"
  shows "takeWhile (\<lambda>c. c \<noteq> CHR 0x00) (ls ! nat (i - 1) @ [nl]) = ls ! nat (i - 1) @ [nl]"
proof -
  have "CHR 0x00 \<notin> set (ls ! nat (i - 1) @ [nl])"
    using assms by (auto simp: has_lines_def list_all_iff nat_less_iff)
  then show ?thesis unfolding takeWhile_eq_all_conv by blast
qed

lemma printable_line:
  assumes "printable fs m" "cache_current fs sm"
  shows "\<exists>sm1 text. getSourceLineWithCaret fs g (mutant_location m) sm = (sm1, Inr text) \<and> cache_current fs sm1"
proof -
  let ?loc = "mutant_location m"
  obtain content ls rest where f: "fs (filePath ?loc) = Some content" "has_lines content ls rest"
    "1 \<le> line ?loc" "line ?loc \<le> int (length ls)"
    and c: "1 \<le> column ?loc" "column ?loc \<le> int (length (ls ! nat (line ?loc - 1)))"
    using assms(1) by (auto simp: printable_def)
  let ?l = "ls ! nat (line ?loc - 1) @ [nl]"
  obtain sm1 where sm1: "getLine fs g ?loc sm = (sm1, Inr ?l)" "cache_current fs sm1"
    using getLine_read [OF assms(2) f(1,2,3), of g] f(4) has_lines_no_zero [OF f(2,3,4)] by auto
  have "\<exists>caret. caret_line (column ?loc) ?l = Inr caret"
    using c by (simp add: caret_line_def Let_def)
  with sm1 show ?thesis by (auto simp: getSourceLineWithCaret_def st_bind_def)
qed

definition ready :: "file_system \<Rightarrow> reporter_state \<Rightarrow> bool" where
  "ready fs s \<longleftrightarrow> cache_current fs (rep_sources s) \<and> rep_factory s = factory_init new_factory"

lemma find_mutator_registered:
  assumes "registered i = Some mu" "rep_factory s = factory_init new_factory"
  shows "find_mutator i s = (s, Inr mu)"
  using assms factory_init_map_of [OF wf_new_factory, of i]
  by (simp add: find_mutator_def getMutator_def)

lemma printMutant_ok:
  assumes "printable fs m" "ready fs s"
  shows "\<exists>s'. printMutant fs g st m s = (s', Inr ()) \<and> ready fs s' \<and> rep_log s' = rep_log s"
proof -
  obtain mu where mu: "registered (mutatorIdentifier m) = Some mu"
    using assms(1) by (auto simp: printable_def)
  have nn: "\<not> isNull (mutant_location m)" using assms(1) by (auto simp: printable_def isNull_def)
  obtain sm1 src where sm1: "getSourceLineWithCaret fs g (mutant_location m) (rep_sources s) = (sm1, Inr src)"
    "cache_current fs sm1"
    using printable_line [OF assms(1)] assms(2) unfolding ready_def by blast
  show ?thesis
    using assms(2) sm1 find_mutator_registered [OF mu, of s]
    by (simp add: printMutant_def st_bind_def st_lift_def nn with_sources_def print_stdout_def ready_def)
qed

lemma for_each_printMutant_ok:
  assumes "list_all (printable fs) ms" "ready fs s"
  shows "\<exists>s'. for_each (printMutant fs g st) ms s = (s', Inr ()) \<and> ready fs s' \<and> rep_log s' = rep_log s"
  using assms
proof (induction ms arbitrary: s)
  case Nil
  then show ?case by (simp add: st_return_def)
next
  case (Cons m ms)
  obtain s1 where s1: "printMutant fs g st m s = (s1, Inr ())" "ready fs s1" "rep_log s1 = rep_log s"
    using printMutant_ok [of fs m s g st] Cons.prems by auto
  obtain s2 where "for_each (printMutant fs g st) ms s1 = (s2, Inr ())" "ready fs s2" "rep_log s2 = rep_log s1"
    using Cons.IH [OF _ s1(2)] Cons.prems by auto
  with s1 show ?case by (simp add: st_bind_def)
qed

lemma printMutants_ok:
  assumes "list_all (printable fs) ms" "ready fs s"
  shows "\<exists>s'. printMutants fs g ms n st s = (s', Inr ()) \<and> ready fs s' \<and>
    infos (rep_log s') = infos (rep_log s) @ (if ms = [] then [] else [count_line st (length ms) n])"
proof (cases "ms = []")
  case True
  then show ?thesis using assms(2) by (simp add: printMutants_def st_return_def)
next
  case False
  obtain d r where d: "diag_info (count_line st (length ms) n) (rep_log s) = (d, r)" by fastforce
  note i = infos_diag_info [OF d]
  let ?s1 = "s\<lparr>rep_log := d\<rparr>"
  have "ready fs ?s1" using assms(2) by (simp add: ready_def)
  then obtain s' where "for_each (printMutant fs g st) ms ?s1 = (s', Inr ())" "ready fs s'" "rep_log s' = d"
    using for_each_printMutant_ok [OF assms(1), of ?s1 g st] by auto
  then show ?thesis using False i by (simp add: printMutants_def st_bind_def with_log_def d)
qed

definition result_killed :: "ExecutionResult \<times> nat \<Rightarrow> bool" where
  "result_killed r \<longleftrightarrow> status (fst r) \<noteq> Passed \<and> status (fst r) \<noteq> NotCovered"

lemma classify_results:
  "foldl (classify_result mutants) (k, sv, nc) rs =
    (k @ map (\<lambda>r. mutants ! snd r) (filter result_killed rs),
     sv @ map (\<lambda>r. mutants ! snd r) (filter (\<lambda>r. status (fst r) = Passed) rs),
     nc @ map (\<lambda>r. mutants ! snd r) (filter (\<lambda>r. status (fst r) = NotCovered) rs))"
  by (induction rs arbitrary: k sv nc)
    (auto simp: classify_result_def mutantSurvived_def mutantNotCovered_def result_killed_def Let_def)

lemma classified_lengths:
  "length (filter result_killed rs) + length (filter (\<lambda>r. status (fst r) = Passed) rs) +
   length (filter (\<lambda>r. status (fst r) = NotCovered) rs) = length rs"
  by (induction rs) (auto simp: result_killed_def)

text \<open>What the report says, from the numbers of results of each kind.\<close>

definition ide_summary :: "bool \<Rightarrow> nat \<Rightarrow> nat \<Rightarrow> nat \<Rightarrow> nat \<Rightarrow> string list" where
  "ide_summary showKilled killed survived notCovered n =
     (if showKilled \<and> 0 < killed
      then [''Killed mutants ('' @ string_of_nat killed @ ''/'' @ string_of_nat n @ ''):''] else []) @
     (if 0 < survived
      then [''Survived mutants ('' @ string_of_nat survived @ ''/'' @ string_of_nat n @ ''):''] else []) @
     (if 0 < notCovered
      then [''Not Covered mutants ('' @ string_of_nat notCovered @ ''/'' @ string_of_nat n @ ''):''] else []) @
     (if survived + notCovered = 0 then [''All mutations have been killed''] else []) @
     [''Mutation score: '' @ string_of_nat (mutation_score killed n) @ ''%'']"

lemma logged_info:
  "\<exists>s'. with_log (diag_info m) s = (s', Inr ()) \<and> infos (rep_log s') = infos (rep_log s) @ [m]"
  using infos_diag_info [of m "rep_log s"] by (cases "diag_info m (rep_log s)") (auto simp: with_log_def)

lemma logged_info_if:
  "\<exists>s'. (if P then with_log (diag_info m) else st_return ()) s = (s', Inr ()) \<and>
     infos (rep_log s') = infos (rep_log s) @ (if P then [m] else [])"
  using logged_info [of m s] by (cases P) (auto simp: st_return_def)

text \<open>C26. When the mutants are of registered mutators and lie at columns of source lines that end in a newline,
  the IDE report ends: its assertion that every result is counted once holds, no mutator is missing, and
  the log gets one line with the number of mutants and their total for each class of mutants that is not
  empty (the killed ones only on request), a line when every mutant was killed, and the score. The score is
  the percentage of the killed mutants among all, rounded down, or where that is exact possibly one less,
  when there are not more results than mutants and fewer than \<open>2 ^ 31\<close> mutants.\<close>

theorem ide_report_summary:
  assumes "getMutants res \<noteq> []" "cache_current fs (rep_sources s)"
    and "list_all (\<lambda>(r, p). printable fs (getMutants res ! p)) (getMutationResults res)"
  shows "\<exists>s'. IDE_reportResults fs g showKilled res s = (s', Inr ()) \<and>
    infos (rep_log s') = infos (rep_log s) @
      ide_summary showKilled (length (filter result_killed (getMutationResults res)))
        (length (filter (\<lambda>r. status (fst r) = Passed) (getMutationResults res)))
        (length (filter (\<lambda>r. status (fst r) = NotCovered) (getMutationResults res)))
        (length (getMutants res)) \<and>
    (length (getMutationResults res) \<le> length (getMutants res) \<and> length (getMutants res) < 2 ^ 31 \<longrightarrow>
      (let n = length (getMutants res); percent = 100 * length (filter result_killed (getMutationResults res))
       in mutation_score (length (filter result_killed (getMutationResults res))) n \<in>
            (if n dvd percent then {percent div n, percent div n - 1} else {percent div n})))"
proof -
  let ?rs = "getMutationResults res" and ?ms = "getMutants res"
  define killed where "killed = map (\<lambda>r. ?ms ! snd r) (filter result_killed ?rs)"
  define survived where "survived = map (\<lambda>r. ?ms ! snd r) (filter (\<lambda>r. status (fst r) = Passed) ?rs)"
  define missed where "missed = map (\<lambda>r. ?ms ! snd r) (filter (\<lambda>r. status (fst r) = NotCovered) ?rs)"
  have cl: "foldl (classify_result ?ms) ([], [], []) ?rs = (killed, survived, missed)"
    by (simp add: classify_results killed_def survived_def missed_def)
  have len: "length killed + length survived + length missed = length ?rs"
    using classified_lengths [of ?rs] by (simp add: killed_def survived_def missed_def)
  have pr: "list_all (printable fs) killed" "list_all (printable fs) survived" "list_all (printable fs) missed"
    using assms(3) by (auto simp: list_all_iff killed_def survived_def missed_def)
  define s0 where "s0 = s\<lparr>rep_factory := factory_init new_factory\<rparr>"
  have r0: "ready fs s0" "rep_log s0 = rep_log s" using assms(2) by (simp_all add: s0_def ready_def)
  obtain s1 where s1: "(if showKilled then printMutants fs g killed (length ?ms) ''Killed'' else st_return ()) s0 = (s1, Inr ())"
    "ready fs s1"
    "infos (rep_log s1) = infos (rep_log s) @ (if showKilled \<and> killed \<noteq> [] then [count_line ''Killed'' (length killed) (length ?ms)] else [])"
    using printMutants_ok [OF pr(1) r0(1), of g "length ?ms" "''Killed''"] r0
    by (cases showKilled; cases "killed = []") (auto simp: st_return_def)
  obtain s2 where s2: "printMutants fs g survived (length ?ms) ''Survived'' s1 = (s2, Inr ())" "ready fs s2"
    "infos (rep_log s2) = infos (rep_log s1) @ (if survived = [] then [] else [count_line ''Survived'' (length survived) (length ?ms)])"
    using printMutants_ok [OF pr(2) s1(2)] by blast
  obtain s3 where s3: "printMutants fs g missed (length ?ms) ''Not Covered'' s2 = (s3, Inr ())" "ready fs s3"
    "infos (rep_log s3) = infos (rep_log s2) @ (if missed = [] then [] else [count_line ''Not Covered'' (length missed) (length ?ms)])"
    using printMutants_ok [OF pr(3) s2(2)] by blast
  obtain s4 where s4: "(if survived = [] \<and> missed = [] then with_log (diag_info ''All mutations have been killed'')
      else st_return ()) s3 = (s4, Inr ())"
    "infos (rep_log s4) = infos (rep_log s3) @ (if survived = [] \<and> missed = [] then [''All mutations have been killed''] else [])"
    using logged_info_if [of "survived = [] \<and> missed = []" "''All mutations have been killed''" s3] by blast
  let ?score = "''Mutation score: '' @ string_of_nat (mutation_score (length killed) (length ?ms)) @ ''%''"
  obtain s5 where s5: "with_log (diag_info ?score) s4 = (s5, Inr ())" "infos (rep_log s5) = infos (rep_log s4) @ [?score]"
    using logged_info [of ?score s4] by blast
  have a: "st_bind (st_lift (cxx_assert msg (length killed + length survived + length missed = length ?rs))) k s = k () s"
    for msg k s
    by (simp add: len st_lift_def st_bind_def)
  have f: "st_bind (\<lambda>s. (s\<lparr>rep_factory := factory_init new_factory\<rparr>, Inr ())) k s = k () s0" for k
    by (simp add: s0_def st_bind_def)
  have "IDE_reportResults fs g showKilled res s = (s5, Inr ())"
    unfolding IDE_reportResults_def if_not_P [OF assms(1)] cl Let_def prod.case
    by (simp only: a f) (simp only: st_bind_def s1(1) s2(1) s3(1) s4(1) s5(1) prod.case sum.case)
  moreover have "infos (rep_log s5) = infos (rep_log s) @
      ide_summary showKilled (length killed) (length survived) (length missed) (length ?ms)"
    by (simp only: s5(2) s4(2) s3(3) s2(3) s1(3) ide_summary_def count_line_def append_assoc length_greater_0_conv
        add_eq_0_iff_both_eq_0 length_0_conv if_not_P not_False_eq_True) (simp only: split: if_split; simp)
  moreover have "mutation_score (length killed) (length ?ms) \<in>
      (if length ?ms dvd 100 * length killed
       then {100 * length killed div length ?ms, 100 * length killed div length ?ms - 1}
       else {100 * length killed div length ?ms})"
    if "length ?rs \<le> length ?ms" "length ?ms < 2 ^ 31"
    by (rule score_is_floor_or_one_less) (use that len assms(1) in simp_all)
  ultimately show ?thesis unfolding killed_def survived_def missed_def Let_def length_map by blast
qed

lemma ide_report_summary_witness:
  "let m = Mutant ''m'' ''cxx_add_to_sub'' (nullSourceLocation\<lparr>filePath := ''a.c'', line := 1, column := 1\<rparr>)
         nullSourceLocation True;
       res = \<lparr>getMutants = [m], getMutationResults = [(new_ExecutionResult\<lparr>status := Passed\<rparr>, 0)]\<rparr>
   in \<exists>s'. IDE_reportResults (\<lambda>p. Some [CHR ''a'', nl]) CHR ''?'' False res
          \<lparr>rep_log = new_diagnostics, rep_stdout = [], rep_sources = [], rep_factory = new_factory, rep_files = [],
           rep_sqlite = []\<rparr> = (s', Inr ()) \<and>
        infos (rep_log s') = infos new_diagnostics @ ide_summary False 0 1 0 1"
proof -
  let ?m = "Mutant ''m'' ''cxx_add_to_sub'' (nullSourceLocation\<lparr>filePath := ''a.c'', line := 1, column := 1\<rparr>)
         nullSourceLocation True"
  let ?res = "\<lparr>getMutants = [?m], getMutationResults = [(new_ExecutionResult\<lparr>status := Passed\<rparr>, 0)]\<rparr>"
  let ?s = "\<lparr>rep_log = new_diagnostics, rep_stdout = [], rep_sources = [], rep_factory = new_factory, rep_files = [],
           rep_sqlite = []\<rparr> :: reporter_state"
  have "has_lines [CHR ''a'', nl] [''a''] []" by (simp add: has_lines_def nl_def)
  then have "printable (\<lambda>p. Some [CHR ''a'', nl]) ?m"
    by (auto simp: printable_def Mutant_def registered_def registered_mutators_def mutator_ID_defs
        intro!: exI [of _ "[''a'']"] exI [of _ "[] :: string"])
  then have p: "list_all (\<lambda>(r, p). printable (\<lambda>p. Some [CHR ''a'', nl]) (getMutants ?res ! p)) (getMutationResults ?res)"
    by simp
  have "\<exists>s'. IDE_reportResults (\<lambda>p. Some [CHR ''a'', nl]) CHR ''?'' False ?res ?s = (s', Inr ()) \<and>
      infos (rep_log s') = infos (rep_log ?s) @
        ide_summary False (length (filter result_killed (getMutationResults ?res)))
          (length (filter (\<lambda>r. status (fst r) = Passed) (getMutationResults ?res)))
          (length (filter (\<lambda>r. status (fst r) = NotCovered) (getMutationResults ?res))) (length (getMutants ?res))"
    using ide_report_summary [OF _ _ p, of ?s "CHR ''?''" False] by (auto simp: cache_current_def)
  then show ?thesis by (simp add: Let_def result_killed_def)
qed

end
