(* ===== verification/ElementsReport.thy ===== *)
theory ElementsReport
  imports Reporters
begin

text \<open>
  What the mutation testing elements report (\<open>lib/Reporters/MutationTestingElementsReporter.cpp\<close>) holds:
  the JSON value the code builds in two loops over a cache of source lines and a factory equals a value
  given directly, file by file, by the mutants that lie in the file.
\<close>

text \<open>The mutants of a file, by their positions, in the order of the report.\<close>

definition mutants_at :: "string \<Rightarrow> (mutant \<times> nat) list \<Rightarrow> nat list" where
  "mutants_at path ms = map snd (filter (\<lambda>(m, p). filePath (mutant_location m) = path) ms)"

lemma mutants_at_simps [simp]:
  "mutants_at path [] = []"
  "mutants_at path ((m, p) # ms) =
     (if filePath (mutant_location m) = path then p # mutants_at path ms else mutants_at path ms)"
  by (simp_all add: mutants_at_def)

definition joined :: "nat list option \<Rightarrow> nat list \<Rightarrow> nat list option" where
  "joined old ps = (case old of None \<Rightarrow> if ps = [] then None else Some ps | Some qs \<Rightarrow> Some (qs @ ps))"

lemma printable_getLine:
  assumes "printable fs m" "cache_current fs sm"
  shows "\<exists>sm1 src. getLine fs g (mutant_location m) sm = (sm1, Inr src) \<and> cache_current fs sm1 \<and>
    0 \<le> column (mutant_location m) \<and> column (mutant_location m) < int (length src)"
proof -
  let ?loc = "mutant_location m"
  obtain content ls rest where f: "fs (filePath ?loc) = Some content" "has_lines content ls rest"
    "1 \<le> line ?loc" "line ?loc \<le> int (length ls)"
    and c: "1 \<le> column ?loc" "column ?loc \<le> int (length (ls ! nat (line ?loc - 1)))"
    using assms(1) by (auto simp: printable_def)
  obtain sm1 where "getLine fs g ?loc sm = (sm1, Inr (ls ! nat (line ?loc - 1) @ [nl]))" "cache_current fs sm1"
    using getLine_read [OF assms(2) f(1,2,3), of g] f(4) has_lines_no_zero [OF f(2,3,4)] by auto
  with c show ?thesis by auto
qed

lemma mutants_per_file_ok:
  assumes "list_all (\<lambda>(m, p). printable fs m) ms" "cache_current fs (rep_sources s)" "ordered_map files"
  shows "\<exists>s' files'. mutants_per_file fs g ms files s = (s', Inr files') \<and>
    rep_log s' = rep_log s \<and> rep_files s' = rep_files s \<and> ordered_map files' \<and>
    map_of files' = (\<lambda>path. joined (map_of files path) (mutants_at path ms))"
  using assms
proof (induction ms arbitrary: s files)
  case Nil
  then show ?case by (auto simp: st_return_def joined_def fun_eq_iff split: option.split)
next
  case (Cons a ms)
  obtain m p where a: "a = (m, p)" by (cases a)
  let ?loc = "mutant_location m"
  obtain sm1 src where sm1: "getLine fs g ?loc (rep_sources s) = (sm1, Inr src)" "cache_current fs sm1"
    "0 \<le> column ?loc" "column ?loc < int (length src)"
    using printable_getLine [of fs m "rep_sources s" g] Cons.prems(1,2) by (auto simp: a)
  let ?s = "s\<lparr>rep_sources := sm1\<rparr>"
  let ?files = "map_insert (filePath ?loc)
      ((case map_of files (filePath ?loc) of None \<Rightarrow> [] | Some ps \<Rightarrow> ps) @ [p]) files"
  have step: "mutants_per_file fs g (a # ms) files s = mutants_per_file fs g ms ?files ?s"
    using sm1 by (simp add: a Let_def st_bind_def st_lift_def with_sources_def)
  have "ordered_map ?files" by (rule ordered_map_insert [OF Cons.prems(3)])
  then obtain s' files' where r: "mutants_per_file fs g ms ?files ?s = (s', Inr files')"
    "rep_log s' = rep_log ?s" "rep_files s' = rep_files ?s" "ordered_map files'"
    "map_of files' = (\<lambda>path. joined (map_of ?files path) (mutants_at path ms))"
    using Cons.IH [of ?s ?files] Cons.prems(1) sm1(2) by (auto simp: a)
  have "map_of files' = (\<lambda>path. joined (map_of files path) (mutants_at path (a # ms)))"
    unfolding r(5) map_of_map_insert [OF Cons.prems(3)]
    by (auto simp: a joined_def fun_eq_iff split: option.split)
  with r step show ?case by simp
qed

text \<open>What the report says of a mutant and of a file, spelt out: the members of every object are in the order of
  their keys, and the status is read off the results.\<close>

definition was_killed :: "Result \<Rightarrow> nat \<Rightarrow> bool" where
  "was_killed res p \<longleftrightarrow>
     (\<exists>r \<in> set (getMutationResults res). snd r = p \<and> status (fst r) \<notin> {Passed, NotCovered})"

definition was_not_covered :: "Result \<Rightarrow> nat \<Rightarrow> bool" where
  "was_not_covered res p \<longleftrightarrow> (\<exists>r \<in> set (getMutationResults res). snd r = p \<and> status (fst r) = NotCovered)"

definition described_place :: "SourceLocation \<Rightarrow> json" where
  "described_place loc = JObject [(''column'', JInt (column loc)), (''line'', JInt (line loc))]"

definition described_mutant :: "Result \<Rightarrow> nat \<Rightarrow> json" where
  "described_mutant res p =
     (let m = getMutants res ! p; mu = the (registered (mutatorIdentifier m))
      in JObject
        [(''id'', JString (mutatorIdentifier m)),
         (''location'', JObject [(''end'', described_place (mutant_endLocation m)),
            (''start'', described_place (mutant_location m))]),
         (''mutatorName'', JString (getDiagnostics mu)),
         (''replacement'', JString (getReplacement mu)),
         (''status'', JString (if was_killed res p then ''Killed''
            else if was_not_covered res p then ''NoCoverage'' else ''Survived''))])"

definition described_file :: "file_system \<Rightarrow> Result \<Rightarrow> string \<Rightarrow> nat list \<Rightarrow> json" where
  "described_file fs res path ps = JObject
     [(''language'', JString ''cpp''), (''mutants'', JArray (map (described_mutant res) ps)),
      (''source'', JString (case fs path of None \<Rightarrow> [] | Some c \<Rightarrow> c))]"

lemma killed_pointers_set: "p \<in> set (killed_pointers res) \<longleftrightarrow> was_killed res p"
  by (force simp: killed_pointers_def was_killed_def mutantSurvived_def)

lemma killed_pointers_card: "length (killed_pointers res) = card {p. was_killed res p}"
proof -
  have "distinct (killed_pointers res)" by (simp add: killed_pointers_def)
  from distinct_card [OF this] show ?thesis by (simp add: killed_pointers_set [symmetric])
qed

lemma killed_pointers_at_most: "length (killed_pointers res) \<le> length (getMutationResults res)"
  unfolding killed_pointers_def
  by (rule order_trans [OF length_remdups_leq]) simp

lemma notCovered_pointers_set: "p \<in> set (notCovered_pointers res) \<longleftrightarrow> was_not_covered res p"
  by (force simp: notCovered_pointers_def was_not_covered_def)

text \<open>The values the code builds.\<close>

definition entry_of :: "mutant list \<Rightarrow> nat list \<Rightarrow> nat list \<Rightarrow> nat \<Rightarrow> json" where
  "entry_of mutants killed notCovered p =
     mutant_entry (mutants ! p) (the (registered (mutatorIdentifier (mutants ! p))))
       (mutant_status killed notCovered p)"

definition file_object :: "file_system \<Rightarrow> mutant list \<Rightarrow> nat list \<Rightarrow> nat list \<Rightarrow> string \<Rightarrow> nat list \<Rightarrow> json" where
  "file_object fs mutants killed notCovered path ps =
     json_object
       [(''language'', JString ''cpp''), (''source'', JString (case fs path of None \<Rightarrow> [] | Some c \<Rightarrow> c)),
        (''mutants'', JArray (map (entry_of mutants killed notCovered) ps))]"

lemma position_described: "position loc = described_place loc"
  by (simp add: position_def described_place_def json_object_def)

lemma entry_described:
  "entry_of (getMutants res) (killed_pointers res) (notCovered_pointers res) p = described_mutant res p"
  by (simp add: entry_of_def mutant_entry_def mutant_status_def described_mutant_def Let_def json_object_def
      position_described killed_pointers_set notCovered_pointers_set)

lemma file_described:
  "file_object fs (getMutants res) (killed_pointers res) (notCovered_pointers res) path ps =
     described_file fs res path ps"
proof -
  have "entry_of (getMutants res) (killed_pointers res) (notCovered_pointers res) = described_mutant res"
    by (rule ext) (rule entry_described)
  then show ?thesis by (simp add: file_object_def described_file_def json_object_def)
qed

lemma file_entries_ok:
  assumes "list_all (\<lambda>p. registered (mutatorIdentifier (mutants ! p)) \<noteq> None) ps"
    and "rep_factory s = factory_init new_factory"
  shows "file_entries mutants killed notCovered ps entries s =
    (s, Inr (entries @ map (entry_of mutants killed notCovered) ps))"
  using assms
proof (induction ps arbitrary: entries)
  case Nil
  then show ?case by (simp add: st_return_def)
next
  case (Cons p ps)
  then obtain mu where mu: "registered (mutatorIdentifier (mutants ! p)) = Some mu" by auto
  show ?case
    using Cons by (simp add: st_bind_def find_mutator_registered [OF mu] entry_of_def mu)
qed

lemma file_objects_ok:
  assumes "list_all (\<lambda>(path, ps). list_all (\<lambda>p. registered (mutatorIdentifier (mutants ! p)) \<noteq> None) ps) per_file"
    and "rep_factory s = factory_init new_factory"
  shows "file_objects fs mutants killed notCovered per_file files s =
    (s, Inr (map_inserts (map (\<lambda>(path, ps). (path, file_object fs mutants killed notCovered path ps)) per_file)
      files))"
  using assms
proof (induction per_file arbitrary: files)
  case Nil
  then show ?case by (simp add: st_return_def)
next
  case (Cons a per_file)
  obtain path ps where a: "a = (path, ps)" by (cases a)
  show ?case
    using Cons by (simp add: a st_bind_def file_entries_ok Let_def file_object_def)
qed

lemma map_of_map_pair: "map_of (map (\<lambda>(k, v). (k, f k v)) xs) k = map_option (f k) (map_of xs k)"
  by (induction xs) auto

lemma mutants_at_all: "p \<in> set (mutants_at path (zip ms [0..<length ms])) \<Longrightarrow> p < length ms"
  by (auto simp: mutants_at_def in_set_zip)

lemma createFiles_ok:
  assumes "list_all (printable fs) (getMutants res)"
  shows "\<exists>s' files. createFiles fs g res killed notCovered s = (s', Inr (JObject files)) \<and>
    rep_log s' = rep_log s \<and> rep_files s' = rep_files s \<and> ordered_map files \<and>
    (\<forall>path. map_of files path =
      (let ps = mutants_at path (zip (getMutants res) [0..<length (getMutants res)])
       in if ps = [] then None else Some (file_object fs (getMutants res) killed notCovered path ps)))"
proof -
  let ?ms = "getMutants res"
  let ?zs = "zip ?ms [0..<length ?ms]"
  have "list_all (\<lambda>(m, p). printable fs m) ?zs"
    using assms by (auto simp: list_all_iff dest: set_zip_leftD)
  moreover have "cache_current fs (rep_sources (s\<lparr>rep_sources := []\<rparr>))" by (simp add: cache_current_def)
  ultimately obtain s1 per_file where s1:
    "mutants_per_file fs g ?zs [] (s\<lparr>rep_sources := []\<rparr>) = (s1, Inr per_file)"
    "rep_log s1 = rep_log s" "rep_files s1 = rep_files s" "ordered_map per_file"
    "map_of per_file = (\<lambda>path. joined (map_of [] path) (mutants_at path ?zs))"
    using mutants_per_file_ok [of fs ?zs "s\<lparr>rep_sources := []\<rparr>" "[]" g] by auto
  let ?s2 = "s1\<lparr>rep_factory := factory_init new_factory\<rparr>"
  have d: "distinct (map fst per_file)" using s1(4) strict_sorted_iff by blast
  have reg: "registered (mutatorIdentifier (?ms ! p)) \<noteq> None" if "p < length ?ms" for p
    using assms that by (auto simp: list_all_length printable_def)
  have "list_all (\<lambda>p. registered (mutatorIdentifier (?ms ! p)) \<noteq> None) ps" if "(path, ps) \<in> set per_file" for path ps
  proof -
    have "map_of per_file path = Some ps" using that d by simp
    then have "ps = mutants_at path ?zs" unfolding s1(5) by (simp add: joined_def split: if_splits)
    then show ?thesis using mutants_at_all reg by (auto simp: list_all_iff)
  qed
  then have all: "list_all (\<lambda>(path, ps). list_all (\<lambda>p. registered (mutatorIdentifier (?ms ! p)) \<noteq> None) ps) per_file"
    by (auto simp: list_all_iff)
  let ?kvs = "map (\<lambda>(path, ps). (path, file_object fs ?ms killed notCovered path ps)) per_file"
  have f: "file_objects fs ?ms killed notCovered per_file [] ?s2 = (?s2, Inr (map_inserts ?kvs []))"
    by (rule file_objects_ok [OF all]) simp
  have keys: "map fst ?kvs = map fst per_file" by (simp add: case_prod_beta comp_def)
  have "createFiles fs g res killed notCovered s = (?s2, Inr (JObject (map_inserts ?kvs [])))"
    by (simp add: createFiles_def st_bind_def s1(1) f st_return_def)
  moreover have "ordered_map (map_inserts ?kvs [])" by (rule map_inserts_ordered) simp
  moreover have "map_of (map_inserts ?kvs []) = map_of ?kvs"
    using d by (simp add: map_of_map_inserts map_of_rev_distinct keys del: map_map)
  ultimately show ?thesis
    using s1 by (auto simp: map_of_map_pair joined_def Let_def)
qed

lemma mutants_at_positions:
  "mutants_at path (zip ms [0..<length ms]) = filter (\<lambda>p. filePath (mutant_location (ms ! p)) = path) [0..<length ms]"
proof -
  have "zip ms [0..<length ms] = map (\<lambda>p. (ms ! p, p)) [0..<length ms]"
    by (rule nth_equalityI) simp_all
  then show ?thesis by (simp add: mutants_at_def filter_map comp_def)
qed

text \<open>The report's JSON value.\<close>

definition elements_report :: "nat \<Rightarrow> (string \<times> json) list \<Rightarrow> json" where
  "elements_report score files =
     JObject [(''files'', JObject files), (''mutationScore'', JInt (int score)), (''schemaVersion'', JString ''1.1.1''),
       (''thresholds'', JObject [(''high'', JInt 80), (''low'', JInt 60)])]"

text \<open>The page: the component on it is fed from the report with the page's name.\<close>

definition shows_report :: "string \<Rightarrow> string \<Rightarrow> bool" where
  "shows_report page json_name \<longleftrightarrow> (\<exists>before after.
     page = before @ ''<mutation-test-report-app src='' @ [CHR 0x22] @ json_name @ [CHR 0x22] @ after)"

lemma html_written:
  "\<exists>page. generateHTMLFile r s = (s\<lparr>rep_files := rep_files s @ [(htmlPath r, page)]\<rparr>, Inr ()) \<and>
     shows_report page (elements_filename r @ ''.json'')"
proof -
  let ?before = "''<!DOCTYPE html>'' @ newline @ ''<head>'' @ newline @
        ''  <title>Mutation Testing Elements</title>'' @ newline @
        ''  <script defer src='' @ quote @ ''https://www.unpkg.com/mutation-testing-elements'' @ quote @
        ''></script>'' @ ''</head>'' @ newline @ ''<body>'' @ newline @ ''  ''"
  let ?after = "''></mutation-test-report-app>'' @ newline @ ''</body>'' @ newline @ ''</html>''"
  let ?page = "?before @ ''<mutation-test-report-app src='' @ [CHR 0x22] @ (elements_filename r @ ''.json'') @
      [CHR 0x22] @ ?after"
  have "shows_report ?page (elements_filename r @ ''.json'')" unfolding shows_report_def by blast
  moreover have "generateHTMLFile r s = (s\<lparr>rep_files := rep_files s @ [(htmlPath r, ?page)]\<rparr>, Inr ())"
    by (simp add: generateHTMLFile_def write_file_def quote_def)
  ultimately show ?thesis by blast
qed

text \<open>C25. For mutants of registered mutators at columns of source lines the elements reporter ends. It writes two
  files with the report's name (by default the time) into the report's directory (by default the current
  one): a page that shows the JSON file of that name, and that JSON file. The JSON value has one object per
  source file that holds a mutant, ordered by path, with the file's text and one entry for each mutant of
  the file, in the order of the mutants. An entry has the mutator's name, diagnostics and replacement, both ends of the
  mutant, and the status: killed when some result of the mutant is neither passed nor not covered,
  otherwise not covered when some result says so, otherwise survived. The score is the percentage of the killed
  mutants among all, rounded down, or where that is exact possibly one less, when there are not more results
  than mutants and fewer than \<open>2 ^ 31\<close> mutants.\<close>

theorem elements_report_files:
  assumes "getMutants res \<noteq> []" "list_all (printable fs) (getMutants res)"
  shows "let name = (if reportName = [] then string_of_nat now else reportName);
      base = (if dir = [] then ''.'' else dir) @ ''/'' @ name;
      all = length (getMutants res); percent = 100 * card {p. was_killed res p}
    in \<exists>s' page files score.
      Elements_reportResults fs g dump_json (MutationTestingElementsReporter now dir reportName) res s = (s', Inr ()) \<and>
      rep_files s' = rep_files s @ [(base @ ''.html'', page), (base @ ''.json'', dump_json (elements_report score files))] \<and>
      shows_report page (name @ ''.json'') \<and>
      ordered_map files \<and>
      (\<forall>path. map_of files path =
        (let ps = filter (\<lambda>p. filePath (mutant_location (getMutants res ! p)) = path) [0..<all]
         in if ps = [] then None else Some (described_file fs res path ps))) \<and>
      (length (getMutationResults res) \<le> all \<and> all < 2 ^ 31 \<longrightarrow>
        score \<in> (if all dvd percent then {percent div all, percent div all - 1} else {percent div all}))"
proof -
  define r where "r = MutationTestingElementsReporter now dir reportName"
  define name where "name = (if reportName = [] then string_of_nat now else reportName)"
  define base where "base = (if dir = [] then ''.'' else dir) @ ''/'' @ name"
  have r: "elements_filename r = name" "htmlPath r = base @ ''.html''" "jsonPath r = base @ ''.json''"
    by (simp_all add: r_def MutationTestingElementsReporter_def getFilename_def getReportDir_def name_def base_def)
  let ?killed = "killed_pointers res" and ?all = "length (getMutants res)"
  let ?score = "mutation_score (card {p. was_killed res p}) ?all"
  obtain page where page:
    "generateHTMLFile r s = (s\<lparr>rep_files := rep_files s @ [(base @ ''.html'', page)]\<rparr>, Inr ())"
    "shows_report page (name @ ''.json'')"
    using html_written [of r s] unfolding r by blast
  let ?s1 = "s\<lparr>rep_files := rep_files s @ [(base @ ''.html'', page)]\<rparr>"
  obtain s2 files where s2: "createFiles fs g res ?killed (notCovered_pointers res) ?s1 = (s2, Inr (JObject files))"
    "rep_files s2 = rep_files ?s1" "ordered_map files"
    "\<forall>path. map_of files path =
      (let ps = mutants_at path (zip (getMutants res) [0..<?all])
       in if ps = [] then None else Some (described_file fs res path ps))"
    using createFiles_ok [OF assms(2), of g ?killed "notCovered_pointers res" ?s1] unfolding file_described by blast
  let ?s = "s2\<lparr>rep_log := fst (diag_info (''Mutation Testing Elements reporter: generating report to '' @ jsonPath r)
      (rep_log s2)), rep_files := rep_files s2 @ [(jsonPath r, dump_json (elements_report ?score files))]\<rparr>"
  have "Elements_reportResults fs g dump_json r res s = (?s, Inr ())"
    unfolding Elements_reportResults_def if_not_P [OF assms(1)] Let_def killed_pointers_card [symmetric]
    by (simp add: st_bind_def page(1) s2(1) with_log_def diag_info_def write_file_def elements_report_def json_object_def)
  moreover have "rep_files ?s = rep_files s @
      [(base @ ''.html'', page), (base @ ''.json'', dump_json (elements_report ?score files))]"
    using s2(2) by (simp add: r)
  moreover have "?score \<in> (if ?all dvd 100 * card {p. was_killed res p}
      then {100 * card {p. was_killed res p} div ?all, 100 * card {p. was_killed res p} div ?all - 1}
      else {100 * card {p. was_killed res p} div ?all})"
    if "length (getMutationResults res) \<le> ?all" "?all < 2 ^ 31"
    by (rule score_is_floor_or_one_less)
      (use that assms(1) killed_pointers_at_most [of res] in \<open>simp_all add: killed_pointers_card\<close>)
  ultimately show ?thesis
    unfolding Let_def name_def [symmetric] base_def [symmetric] r_def [symmetric]
    using page(2) s2(3,4) [unfolded mutants_at_positions Let_def] by blast
qed

lemma elements_report_files_witness:
  "let m = (\<lambda>path. Mutant ''m'' ''cxx_add_to_sub'' (nullSourceLocation\<lparr>filePath := path, line := 1, column := 1\<rparr>)
         nullSourceLocation True);
       res = \<lparr>getMutants = [m ''a.c'', m ''b.c'', m ''a.c''], getMutationResults =
         [(new_ExecutionResult\<lparr>status := Failed\<rparr>, 0), (new_ExecutionResult\<lparr>status := Passed\<rparr>, 1),
          (new_ExecutionResult\<lparr>status := NotCovered\<rparr>, 2)]\<rparr>;
       entry = (\<lambda>st. JObject [(''id'', JString ''cxx_add_to_sub''),
         (''location'', JObject [(''end'', JObject [(''column'', JInt 0), (''line'', JInt 0)]),
            (''start'', JObject [(''column'', JInt 1), (''line'', JInt 1)])]),
         (''mutatorName'', JString ''Replaced + with -''), (''replacement'', JString ''-''), (''status'', JString st)])
   in \<exists>s' files page score. Elements_reportResults (\<lambda>p. Some [CHR ''a'', nl]) CHR ''?'' (\<lambda>j. ''json'')
          (MutationTestingElementsReporter 0 [] ''r'') res
          \<lparr>rep_log = new_diagnostics, rep_stdout = [], rep_sources = [], rep_factory = new_factory, rep_files = [],
           rep_sqlite = []\<rparr> = (s', Inr ()) \<and>
        rep_files s' = [(''./r.html'', page), (''./r.json'', ''json'')] \<and> shows_report page ''r.json'' \<and> score = 33 \<and>
        map_of files ''a.c'' = Some (JObject [(''language'', JString ''cpp''),
          (''mutants'', JArray [entry ''Killed'', entry ''NoCoverage'']), (''source'', JString [CHR ''a'', nl])]) \<and>
        map_of files ''b.c'' = Some (JObject [(''language'', JString ''cpp''),
          (''mutants'', JArray [entry ''Survived'']), (''source'', JString [CHR ''a'', nl])])"
proof -
  define m where "m = (\<lambda>path. Mutant ''m'' ''cxx_add_to_sub'' (nullSourceLocation\<lparr>filePath := path, line := 1, column := 1\<rparr>)
         nullSourceLocation True)"
  define res where "res = \<lparr>getMutants = [m ''a.c'', m ''b.c'', m ''a.c''], getMutationResults =
         [(new_ExecutionResult\<lparr>status := Failed\<rparr>, 0 :: nat), (new_ExecutionResult\<lparr>status := Passed\<rparr>, 1),
          (new_ExecutionResult\<lparr>status := NotCovered\<rparr>, 2)]\<rparr>"
  let ?s = "\<lparr>rep_log = new_diagnostics, rep_stdout = [], rep_sources = [], rep_factory = new_factory, rep_files = [],
           rep_sqlite = []\<rparr> :: reporter_state"
  let ?fs = "\<lambda>p :: string. Some [CHR ''a'', nl]"
  have ms: "getMutants res = [m ''a.c'', m ''b.c'', m ''a.c'']" by (simp add: res_def)
  have fields: "mutant_location (m path) = nullSourceLocation\<lparr>filePath := path, line := 1, column := 1\<rparr>"
    "mutant_endLocation (m path) = nullSourceLocation" "mutatorIdentifier (m path) = ''cxx_add_to_sub''" for path
    by (simp_all add: m_def Mutant_def)
  have reg: "\<exists>mu. registered ''cxx_add_to_sub'' = Some mu \<and> getDiagnostics mu = ''Replaced + with -'' \<and> getReplacement mu = ''-''"
    by (simp add: registered_def registered_mutators_def mutator_ID_defs mk_AddToSub_def TrivialCXXMutator_def)
  have "has_lines [CHR ''a'', nl] [''a''] []" by (simp add: has_lines_def nl_def)
  then have "printable ?fs (m path)" for path
    using reg by (auto simp: printable_def fields intro!: exI [of _ "[''a'']"] exI [of _ "[] :: string"])
  then have p: "getMutants res \<noteq> []" "list_all (printable ?fs) (getMutants res)" by (simp_all add: ms)
  have killed: "was_killed res q \<longleftrightarrow> q = 0" "was_not_covered res q \<longleftrightarrow> q = 2" for q
    by (auto simp: was_killed_def was_not_covered_def res_def)
  let ?name = "if ''r'' = [] then string_of_nat 0 else ''r''"
  let ?base = "(if ([] :: string) = [] then ''.'' else []) @ ''/'' @ ?name"
  let ?percent = "100 * card {p. was_killed res p}" and ?all = "length (getMutants res)"
  have size: "length (getMutationResults res) \<le> ?all \<and> ?all < 2 ^ 31" by (simp add: res_def)
  obtain s' page files score where raw:
    "Elements_reportResults ?fs CHR ''?'' (\<lambda>j. ''json'') (MutationTestingElementsReporter 0 [] ''r'') res ?s = (s', Inr ())"
    "rep_files s' = rep_files ?s @ [(?base @ ''.html'', page), (?base @ ''.json'', ''json'')]"
    "shows_report page (?name @ ''.json'')"
    "\<forall>path. map_of files path =
        (let ps = filter (\<lambda>p. filePath (mutant_location (getMutants res ! p)) = path) [0..<?all]
         in if ps = [] then None else Some (described_file ?fs res path ps))"
    "score \<in> (if ?all dvd ?percent then {?percent div ?all, ?percent div ?all - 1} else {?percent div ?all})"
    using elements_report_files [OF p, of "''r''" 0 "[]" "CHR ''?''" "\<lambda>j. ''json''" ?s] size
    unfolding Let_def by blast
  have fin: "rep_files s' = [(''./r.html'', page), (''./r.json'', ''json'')]" "shows_report page ''r.json''"
    using raw(2,3) by simp_all
  have score: "score = 33" using raw(5) by (simp add: ms killed numeral_3_eq_3 [symmetric] cong: if_cong)
  have entry: "described_mutant res q = JObject [(''id'', JString ''cxx_add_to_sub''),
         (''location'', JObject [(''end'', JObject [(''column'', JInt 0), (''line'', JInt 0)]),
            (''start'', JObject [(''column'', JInt 1), (''line'', JInt 1)])]),
         (''mutatorName'', JString ''Replaced + with -''), (''replacement'', JString ''-''),
         (''status'', JString (if q = 0 then ''Killed'' else if q = 2 then ''NoCoverage'' else ''Survived''))]"
    if "q \<in> {0, 1, 2}" for q
    using reg that
    by (auto simp: described_mutant_def ms fields described_place_def nullSourceLocation_def killed numeral_2_eq_2)
  have "map_of files ''a.c'' = Some (described_file ?fs res ''a.c'' [0, 2])"
    "map_of files ''b.c'' = Some (described_file ?fs res ''b.c'' [1])"
    using raw(4) by (simp_all add: ms fields upt_rec numeral_2_eq_2)
  then show ?thesis
    unfolding Let_def m_def [symmetric] res_def [symmetric]
    using raw(1) fin score entry [of 0] entry [of 1] entry [of 2]
    by (intro exI [of _ s'] exI [of _ files] exI [of _ page] exI [of _ score]) (simp add: described_file_def)
qed

end
