(* ===== verification/CompilationDatabase.thy ===== *)
theory CompilationDatabase
  imports SourceLocations Diagnostics
begin

text \<open>
  \<open>lib/JunkDetection/CXX/CompilationDatabase.cpp\<close>: the compiler flags of the source files, from a JSON
  database, from the flags recorded in the bitcode and from the command line. Reading the JSON file
  and the operations on paths (\<open>is_absolute\<close>, \<open>filename\<close>, \<open>remove_dots\<close>) are Clang's and LLVM's:
  parameters. A \<open>std::map\<close> is an ordered list of pairs.
\<close>

section \<open>Flags\<close>

definition filterFlags :: "string list \<Rightarrow> bool \<Rightarrow> string list" where
  "filterFlags flags stripCompiler =
     (if flags = [] then flags else if stripCompiler then tl flags else flags)"

lemma word_consumes:
  assumes "dropWhile is_space s \<noteq> []"
  shows "length (dropWhile (\<lambda>c. \<not> is_space c) (dropWhile is_space s)) < length s"
proof -
  let ?t = "dropWhile is_space s"
  have "\<not> is_space (hd ?t)" using assms by (rule hd_dropWhile)
  then have "dropWhile (\<lambda>c. \<not> is_space c) ?t = dropWhile (\<lambda>c. \<not> is_space c) (tl ?t)"
    using assms by (cases ?t) auto
  moreover have "length (dropWhile (\<lambda>c. \<not> is_space c) (tl ?t)) \<le> length (tl ?t)" by (rule length_dropWhile_le)
  moreover have "length (tl ?t) < length ?t" using assms by simp
  moreover have "length ?t \<le> length s" by (rule length_dropWhile_le)
  ultimately show ?thesis by simp
qed

text \<open>The words \<open>operator>>\<close> reads from a stream.\<close>

function flagsFromString :: "string \<Rightarrow> string list" where
  "flagsFromString s =
     (let t = dropWhile is_space s
      in if t = [] then []
         else takeWhile (\<lambda>c. \<not> is_space c) t # flagsFromString (dropWhile (\<lambda>c. \<not> is_space c) t))"
  by pat_completeness auto

termination
  by (relation "measure length") (simp_all add: word_consumes)

declare flagsFromString.simps [simp del]

record compile_command =
  cmd_directory :: string
  cmd_filename :: string
  cmd_line :: "string list"

definition flagsFromCommand :: "compile_command \<Rightarrow> string list \<Rightarrow> string list" where
  "flagsFromCommand command extraFlags =
     filter (\<lambda>f. f \<noteq> cmd_filename command) (filterFlags (cmd_line command) True) @ extraFlags"

section \<open>Building the database\<close>

type_synonym flags_map = "(string \<times> string list) list"

record compilation_database =
  extraFlags :: "string list"
  database :: flags_map
  bitcodeFlags :: flags_map

definition command_path :: "(string \<Rightarrow> bool) \<Rightarrow> compile_command \<Rightarrow> string" where
  "command_path is_absolute command =
     (if cmd_filename command \<noteq> [] \<and> \<not> is_absolute (cmd_filename command)
      then cmd_directory command @ ''/'' @ cmd_filename command else cmd_filename command)"

fun prepareDatabase ::
  "(string \<Rightarrow> bool) \<Rightarrow> compile_command list \<Rightarrow> string list \<Rightarrow> flags_map \<Rightarrow> flags_map" where
  "prepareDatabase is_absolute [] extra db = db"
| "prepareDatabase is_absolute (c # cs) extra db =
     prepareDatabase is_absolute cs extra (map_insert (command_path is_absolute c) (flagsFromCommand c extra) db)"

definition unit_flags :: "string \<Rightarrow> string \<Rightarrow> string list \<Rightarrow> string list" where
  "unit_flags file commandline extra =
     filter (\<lambda>f. f \<noteq> file) (filterFlags (flagsFromString commandline) True) @ extra"

fun createBitcodeFlags :: "(string \<times> string) list \<Rightarrow> string list \<Rightarrow> flags_map \<Rightarrow> flags_map" where
  "createBitcodeFlags [] extra merged = merged"
| "createBitcodeFlags ((file, commandline) # rest) extra merged =
     createBitcodeFlags rest extra (map_insert file (unit_flags file commandline extra) merged)"

text \<open>\<open>jsondb\<close> is a null pointer when there is no database, or a broken one.\<close>

definition createFromClangCompDB ::
  "(string \<Rightarrow> bool) \<Rightarrow> compile_command list option \<Rightarrow> string \<Rightarrow> (string \<times> string) list \<Rightarrow> compilation_database" where
  "createFromClangCompDB is_absolute jsondb extra bitcode =
     (let extras = flagsFromString extra;
          commands = (case jsondb of None \<Rightarrow> [] | Some cs \<Rightarrow> cs)
      in \<lparr>extraFlags = extras, database = prepareDatabase is_absolute commands extras [],
          bitcodeFlags = createBitcodeFlags bitcode extras []\<rparr>)"

text \<open>A loader gives the commands or an error message.\<close>

type_synonym json_loader = "string \<Rightarrow> string + compile_command list"

definition fromFile ::
  "(string \<Rightarrow> bool) \<Rightarrow> json_loader \<Rightarrow> string \<Rightarrow> string \<Rightarrow> (string \<times> string) list \<Rightarrow> compilation_database diag" where
  "fromFile is_absolute loadFromFile path extra bitcode =
     (if path = [] then diag_return (createFromClangCompDB is_absolute None extra bitcode)
      else (case loadFromFile path of
          Inr cs \<Rightarrow> diag_return (createFromClangCompDB is_absolute (Some cs) extra bitcode)
        | Inl message \<Rightarrow>
            diag_bind (diag_warning (''Can not read compilation database: '' @ message)) (\<lambda>_.
            diag_return (createFromClangCompDB is_absolute None extra bitcode))))"

definition fromBuffer ::
  "(string \<Rightarrow> bool) \<Rightarrow> json_loader \<Rightarrow> string \<Rightarrow> string \<Rightarrow> (string \<times> string) list \<Rightarrow> compilation_database diag" where
  "fromBuffer is_absolute loadFromBuffer buffer extra bitcode =
     (case loadFromBuffer buffer of
        Inr cs \<Rightarrow> diag_return (createFromClangCompDB is_absolute (Some cs) extra bitcode)
      | Inl message \<Rightarrow>
          diag_bind (diag_warning (''Can not parse compilation database: '' @ message)) (\<lambda>_.
          diag_return (createFromClangCompDB is_absolute None extra bitcode)))"

section \<open>Looking up\<close>

text \<open>The first of some keys that a map has.\<close>

fun first_found :: "flags_map \<Rightarrow> string list \<Rightarrow> string list option" where
  "first_found m [] = None"
| "first_found m (k # ks) = (case map_of m k of Some v \<Rightarrow> Some v | None \<Rightarrow> first_found m ks)"

definition compilationFlagsForFile ::
  "(string \<Rightarrow> string) \<Rightarrow> (string \<Rightarrow> string) \<Rightarrow> compilation_database \<Rightarrow> string \<Rightarrow> string list" where
  "compilationFlagsForFile filename remove_dots db filepath =
     (if database db = [] \<and> bitcodeFlags db = [] then extraFlags db
      else
        (let dotlessPath = remove_dots filepath
         in case first_found (bitcodeFlags db) [filepath, filename filepath, dotlessPath] of
              Some flags \<Rightarrow> flags
            | None \<Rightarrow>
                (case first_found (database db) [filepath, filename filepath, remove_dots dotlessPath] of
                   Some flags \<Rightarrow> flags
                 | None \<Rightarrow> extraFlags db)))"

section \<open>Properties\<close>

lemma no_space_word:
  assumes "w \<noteq> []" "list_all (\<lambda>c. \<not> is_space c) w"
  shows "takeWhile (\<lambda>c. \<not> is_space c) (w @ t) = w @ takeWhile (\<lambda>c. \<not> is_space c) t"
    "dropWhile (\<lambda>c. \<not> is_space c) (w @ t) = dropWhile (\<lambda>c. \<not> is_space c) t"
    "dropWhile is_space (w @ t) = w @ t"
proof -
  have w: "\<not> is_space c" if "c \<in> set w" for c using assms(2) that by (simp add: list_all_iff)
  then show "takeWhile (\<lambda>c. \<not> is_space c) (w @ t) = w @ takeWhile (\<lambda>c. \<not> is_space c) t"
    "dropWhile (\<lambda>c. \<not> is_space c) (w @ t) = dropWhile (\<lambda>c. \<not> is_space c) t"
    by (simp_all add: takeWhile_append2 dropWhile_append2)
  show "dropWhile is_space (w @ t) = w @ t" using assms(1) w by (cases w) auto
qed

lemma flagsFromString_Nil [simp]: "flagsFromString [] = []"
  by (simp add: flagsFromString.simps)

lemma flagsFromString_word:
  assumes "w \<noteq> []" "list_all (\<lambda>c. \<not> is_space c) w" "is_space c"
  shows "flagsFromString (w @ c # t) = w # flagsFromString (c # t)"
  using assms by (subst flagsFromString.simps) (simp add: no_space_word Let_def)

lemma flagsFromString_space: "is_space c \<Longrightarrow> flagsFromString (c # t) = flagsFromString t"
  by (subst (1 2) flagsFromString.simps) simp

lemma flagsFromString_last:
  assumes "w \<noteq> []" "list_all (\<lambda>c. \<not> is_space c) w"
  shows "flagsFromString w = [w]"
  using assms(1) no_space_word [OF assms, of "[]"]
  by (subst flagsFromString.simps) (simp add: Let_def del: dropWhile_eq_Nil_conv takeWhile_eq_all_conv)

text \<open>Words separated by single white space characters.\<close>

fun spaced :: "char \<Rightarrow> string list \<Rightarrow> string" where
  "spaced c [] = []"
| "spaced c [w] = w"
| "spaced c (w # ws) = w @ c # spaced c ws"

lemma flagsFromString_spaced:
  assumes "is_space c" "list_all (\<lambda>w. w \<noteq> [] \<and> list_all (\<lambda>c. \<not> is_space c) w) ws"
  shows "flagsFromString (spaced c ws) = ws"
  using assms
proof (induction c ws rule: spaced.induct)
  case (3 c w v ws)
  then show ?case by (simp add: flagsFromString_word flagsFromString_space)
qed (auto simp: flagsFromString_last)

text \<open>Flags written with white space between them are read back as the same flags; so the flags of
  the command line reach every file as they were written.\<close>

lemma flags_read_back:
  assumes "is_space c" "list_all (\<lambda>w. w \<noteq> [] \<and> list_all (\<lambda>c. \<not> is_space c) w) ws"
  shows "flagsFromString (spaced c ws) = ws \<and>
    (\<exists>db. fromFile is_absolute load [] (spaced c ws) [] d = (d, Inr db) \<and>
      compilationFlagsForFile filename remove_dots db file = ws)"
  using flagsFromString_spaced [OF assms]
  by (simp add: fromFile_def st_return_def createFromClangCompDB_def compilationFlagsForFile_def)

lemma flags_read_back_witness:
  "flagsFromString ''-O2 -g'' = [''-O2'', ''-g'']"
proof -
  have "flagsFromString (spaced CHR '' '' [''-O2'', ''-g'']) = [''-O2'', ''-g''] \<and>
    (\<exists>db. fromFile (\<lambda>p. True) (\<lambda>p. Inl []) [] (spaced CHR '' '' [''-O2'', ''-g'']) [] new_diagnostics =
        (new_diagnostics, Inr db) \<and>
      compilationFlagsForFile id id db ''a.cpp'' = [''-O2'', ''-g''])"
    by (rule flags_read_back) (simp_all add: is_space_def)
  then show ?thesis by simp
qed

text \<open>What the maps hold: the last command for a path counts.\<close>

fun last_for :: "('a \<Rightarrow> string) \<Rightarrow> 'a list \<Rightarrow> string \<Rightarrow> 'a option" where
  "last_for key [] k = None"
| "last_for key (x # xs) k =
     (case last_for key xs k of Some y \<Rightarrow> Some y | None \<Rightarrow> if key x = k then Some x else None)"

lemma prepareDatabase_map:
  "ordered_map db \<Longrightarrow>
    ordered_map (prepareDatabase is_absolute cs extra db) \<and>
    map_of (prepareDatabase is_absolute cs extra db) k =
      (case last_for (command_path is_absolute) cs k of
         Some c \<Rightarrow> Some (flagsFromCommand c extra) | None \<Rightarrow> map_of db k)"
proof (induction cs arbitrary: db)
  case (Cons c cs)
  then show ?case
    using ordered_map_insert [OF Cons.prems] Cons.prems Cons.IH
    by (auto simp: map_of_map_insert split: option.split)
qed simp

lemma createBitcodeFlags_map:
  "ordered_map merged \<Longrightarrow>
    ordered_map (createBitcodeFlags us extra merged) \<and>
    map_of (createBitcodeFlags us extra merged) k =
      (case last_for fst us k of
         Some u \<Rightarrow> Some (unit_flags (fst u) (snd u) extra) | None \<Rightarrow> map_of merged k)"
proof (induction us arbitrary: merged)
  case (Cons u us)
  obtain f l where u: "u = (f, l)" by (cases u)
  then show ?case
    using ordered_map_insert [OF Cons.prems] Cons.prems Cons.IH
    by (auto simp: map_of_map_insert split: option.split)
qed simp

lemma last_for_Some: "last_for key xs k = Some x \<Longrightarrow> x \<in> set xs \<and> key x = k"
  by (induction xs) (auto split: option.splits if_splits)

lemma last_for_None: "last_for key xs k = None \<longleftrightarrow> k \<notin> key ` set xs"
  by (induction xs) (auto split: option.splits)

lemma last_for_ordered: "ordered_map m \<Longrightarrow> last_for fst m k = map_option (Pair k) (map_of m k)"
proof (induction m)
  case (Cons a m)
  have "map_of m (fst a) = None" using Cons.prems by (auto simp: map_of_eq_None_iff)
  with Cons show ?case by (cases a) (auto split: option.split)
qed simp

lemma filterFlags_tl: "filterFlags flags True = tl flags"
  by (simp add: filterFlags_def)

lemma first_found_find:
  assumes "\<And>k. map_of m k = (if P k then Some (g k) else None)"
  shows "first_found m ks = (case List.find P ks of None \<Rightarrow> None | Some k \<Rightarrow> Some (g k))"
  by (induction ks) (auto simp: assms)

lemma first_found_empty: "first_found [] ks = None"
  by (induction ks) simp_all

lemma compilationFlags_lookup:
  assumes "remove_dots (remove_dots file) = remove_dots file"
  shows "compilationFlagsForFile filename remove_dots db file =
    (case first_found (bitcodeFlags db) [file, filename file, remove_dots file] of
       Some fl \<Rightarrow> fl
     | None \<Rightarrow>
         (case first_found (database db) [file, filename file, remove_dots file] of
            Some fl \<Rightarrow> fl | None \<Rightarrow> extraFlags db))"
proof (cases "database db = [] \<and> bitcodeFlags db = []")
  case True
  then show ?thesis by (simp add: compilationFlagsForFile_def first_found_empty del: first_found.simps)
next
  case False
  show ?thesis unfolding compilationFlagsForFile_def if_not_P [OF False] Let_def assms ..
qed

text \<open>The flags of a file: recorded in the bitcode for its path, its name or its path without dots,
  in this order; else from the last command of the database for one of the three (less the compiler
  and the name of the file); else the extra flags alone. The extra flags end all of them.\<close>

lemma flags_for_file:
  assumes "ordered_map bitcode" "remove_dots (remove_dots file) = remove_dots file"
  shows "let extras = flagsFromString extra;
      cs = (case jsondb of None \<Rightarrow> [] | Some cs \<Rightarrow> cs);
      keys = [file, filename file, remove_dots file]
    in compilationFlagsForFile filename remove_dots (createFromClangCompDB is_absolute jsondb extra bitcode) file =
      (case List.find (\<lambda>k. k \<in> fst ` set bitcode) keys of
         Some k \<Rightarrow> filter (\<lambda>f. f \<noteq> k) (tl (flagsFromString (the (map_of bitcode k)))) @ extras
       | None \<Rightarrow>
           (case List.find (\<lambda>k. k \<in> command_path is_absolute ` set cs) keys of
              Some k \<Rightarrow> (let c = the (last_for (command_path is_absolute) cs k)
                in filter (\<lambda>f. f \<noteq> cmd_filename c) (tl (cmd_line c)) @ extras)
            | None \<Rightarrow> extras))"
proof -
  let ?extras = "flagsFromString extra" and ?cs = "case jsondb of None \<Rightarrow> [] | Some cs \<Rightarrow> cs"
  let ?db = "createFromClangCompDB is_absolute jsondb extra bitcode"
  let ?keys = "[file, filename file, remove_dots file]"
  have b: "map_of (bitcodeFlags ?db) k =
      map_option (\<lambda>l. filter (\<lambda>f. f \<noteq> k) (tl (flagsFromString l)) @ ?extras) (map_of bitcode k)" for k
    using createBitcodeFlags_map [of "[]" bitcode ?extras k]
    by (simp add: createFromClangCompDB_def Let_def last_for_ordered [OF assms(1)] unit_flags_def filterFlags_tl
        map_option_case split: option.split)
  have d: "map_of (database ?db) k =
      map_option (\<lambda>c. filter (\<lambda>f. f \<noteq> cmd_filename c) (tl (cmd_line c)) @ ?extras)
        (last_for (command_path is_absolute) ?cs k)" for k
    using prepareDatabase_map [of "[]" is_absolute ?cs ?extras k]
    by (simp add: createFromClangCompDB_def Let_def flagsFromCommand_def filterFlags_tl map_option_case
        split: option.split)
  have fb: "first_found (bitcodeFlags ?db) ?keys =
      (case List.find (\<lambda>k. k \<in> fst ` set bitcode) ?keys of None \<Rightarrow> None
       | Some k \<Rightarrow> Some (filter (\<lambda>f. f \<noteq> k) (tl (flagsFromString (the (map_of bitcode k)))) @ ?extras))"
  proof (rule first_found_find)
    fix k
    show "map_of (bitcodeFlags ?db) k =
        (if k \<in> fst ` set bitcode
         then Some (filter (\<lambda>f. f \<noteq> k) (tl (flagsFromString (the (map_of bitcode k)))) @ ?extras) else None)"
      using map_of_eq_None_iff [of bitcode k] by (cases "map_of bitcode k") (simp_all add: b)
  qed
  have fd: "first_found (database ?db) ?keys =
      (case List.find (\<lambda>k. k \<in> command_path is_absolute ` set ?cs) ?keys of None \<Rightarrow> None
       | Some k \<Rightarrow> Some (let c = the (last_for (command_path is_absolute) ?cs k)
           in filter (\<lambda>f. f \<noteq> cmd_filename c) (tl (cmd_line c)) @ ?extras))"
  proof (rule first_found_find)
    fix k
    show "map_of (database ?db) k =
        (if k \<in> command_path is_absolute ` set ?cs
         then Some (let c = the (last_for (command_path is_absolute) ?cs k)
           in filter (\<lambda>f. f \<noteq> cmd_filename c) (tl (cmd_line c)) @ ?extras) else None)"
      using last_for_None [of "command_path is_absolute" ?cs k]
      by (cases "last_for (command_path is_absolute) ?cs k") (simp_all add: d Let_def)
  qed
  have e: "extraFlags ?db = ?extras" by (simp add: createFromClangCompDB_def Let_def)
  have "compilationFlagsForFile filename remove_dots ?db file =
      (case first_found (bitcodeFlags ?db) ?keys of Some fl \<Rightarrow> fl
       | None \<Rightarrow> (case first_found (database ?db) ?keys of Some fl \<Rightarrow> fl | None \<Rightarrow> ?extras))"
    by (simp only: compilationFlags_lookup [OF assms(2)] e)
  then show ?thesis unfolding fb fd Let_def by (simp split: option.split)
qed

lemma flags_for_file_witness:
  "compilationFlagsForFile id id
     (createFromClangCompDB (\<lambda>p. hd p = CHR ''/'')
        (Some [\<lparr>cmd_directory = ''/a'', cmd_filename = ''x.c'', cmd_line = [''clang'', ''-g'', ''x.c'']\<rparr>]) [] [])
     ''/a/x.c'' = [''-g'']"
  using flags_for_file [of "[]" id "''/a/x.c''" "[]"
      "Some [\<lparr>cmd_directory = ''/a'', cmd_filename = ''x.c'', cmd_line = [''clang'', ''-g'', ''x.c'']\<rparr>]" id
      "\<lambda>p. hd p = CHR ''/''"]
  by (simp add: command_path_def)

end
