(* ===== verification/ASTStorage.thy ===== *)
theory ASTStorage
  imports Caches CompilationDatabase "HOL-Library.Multiset"
begin

text \<open>
  \<open>lib/JunkDetection/CXX/ASTStorage.cpp\<close>: the syntax trees of the source files. What Clang gives is a
  parameter: a tree is a record of the answers the code asks for (places in the source are numbers,
  0 is the invalid one), and reading a file is a function of the command line.
\<close>

section \<open>Syntax trees\<close>

type_synonym clang_location = nat

record clang_source_manager =
  isBefore :: "clang_location \<Rightarrow> clang_location \<Rightarrow> bool"
  inSystemHeader :: "clang_location \<Rightarrow> bool"
  isFileID :: "clang_location \<Rightarrow> bool"
  getFileID :: "clang_location \<Rightarrow> nat"
  getFileOffset :: "clang_location \<Rightarrow> 32 word"
  getExpansionLineNumber :: "clang_location \<Rightarrow> int"
  getExpansionColumnNumber :: "clang_location \<Rightarrow> int"

datatype binary_opcode =
    BO_LT | BO_LE | BO_GT | BO_GE | BO_EQ | BO_NE | BO_Add | BO_AddAssign | BO_Sub | BO_SubAssign
  | BO_Mul | BO_MulAssign | BO_Div | BO_DivAssign | BO_Rem | BO_RemAssign | BO_Shl | BO_ShlAssign
  | BO_Shr | BO_ShrAssign | BO_And | BO_AndAssign | BO_Or | BO_OrAssign | BO_Xor | BO_XorAssign
  | BO_Assign | BO_LAnd | BO_LOr | BO_Other

datatype unary_opcode =
  UO_PreInc | UO_PostInc | UO_PreDec | UO_PostDec | UO_Not | UO_Minus | UO_LNot | UO_Other

datatype call_kind = PlainCall | CXXMemberCall | CXXOperatorCall

datatype expr_kind =
    BinaryOperator binary_opcode
  | UnaryOperator unary_opcode
  | CallExpr call_kind
  | IntegerLiteral
  | OtherExpr

datatype expr_type = VoidType | RealType | OtherType | NoType

text \<open>Parents with the place the code reads: a return's beginning, an operator's, a variable's (and whether it is const).\<close>

datatype parent_node =
    ReturnStmtParent clang_location
  | BinaryOperatorParent binary_opcode clang_location
  | VarDeclParent bool clang_location
  | OtherParent

record ast_expr =
  expr_kind :: expr_kind
  expr_begin :: clang_location
  expr_end :: clang_location
  operatorLoc :: clang_location
  exprLoc :: clang_location
  expr_type :: expr_type
  expr_parents :: "parent_node list"

record ast_var =
  var_declaration_only :: bool
  var_init :: "ast_expr option"
  var_const :: bool
  var_location :: clang_location

datatype ast_node = Expr ast_expr | Var ast_var

text \<open>A function or function template declaration; \<open>decl_nodes\<close> in the order of Clang's traversal.\<close>

record clang_decl =
  decl_begin :: clang_location
  decl_end :: clang_location
  hasBody :: bool
  decl_nodes :: "ast_node list"

record file_entry =
  entry_name :: string
  entry_realPath :: string
  entry_valid :: bool

record clang_ast =
  ast_manager :: clang_source_manager
  fileinfo :: "file_entry list"
  ast_getLocation :: "file_entry \<Rightarrow> int \<Rightarrow> int \<Rightarrow> clang_location"
  getLocForEndOfToken :: "clang_location \<Rightarrow> clang_location"
  function_decls :: "clang_decl list"

section \<open>One unit\<close>

text \<open>\<open>DeclVisitor\<close>.\<close>

definition addDecl :: "clang_source_manager \<Rightarrow> clang_decl list \<Rightarrow> clang_decl \<Rightarrow> clang_decl list" where
  "addDecl sm decls d =
     (if \<not> hasBody d then decls else if inSystemHeader sm (decl_begin d) then decls else decls @ [d])"

definition SortLocationComparator :: "clang_source_manager \<Rightarrow> clang_decl \<Rightarrow> clang_decl \<Rightarrow> bool" where
  "SortLocationComparator sm lhs rhs \<longleftrightarrow> isBefore sm (decl_begin lhs) (decl_begin rhs)"

definition UniqueLocationComparator :: "clang_source_manager \<Rightarrow> clang_decl \<Rightarrow> clang_decl \<Rightarrow> bool" where
  "UniqueLocationComparator sm lhs rhs \<longleftrightarrow> \<not> isBefore sm (decl_end lhs) (decl_begin rhs)"

text \<open>\<open>std::unique\<close> compares each element with the last one it has kept.\<close>

fun unique_after :: "('a \<Rightarrow> 'a \<Rightarrow> bool) \<Rightarrow> 'a \<Rightarrow> 'a list \<Rightarrow> 'a list" where
  "unique_after same k [] = [k]"
| "unique_after same k (x # xs) =
     (if same k x then unique_after same k xs else k # unique_after same x xs)"

fun std_unique :: "('a \<Rightarrow> 'a \<Rightarrow> bool) \<Rightarrow> 'a list \<Rightarrow> 'a list" where
  "std_unique same [] = []"
| "std_unique same (x # xs) = unique_after same x xs"

text \<open>\<open>std::sort\<close> leaves the order of equal elements open: it is the argument \<open>sort_by\<close>.\<close>

type_synonym decl_sort = "(clang_decl \<Rightarrow> clang_decl \<Rightarrow> bool) \<Rightarrow> clang_decl list \<Rightarrow> clang_decl list"

definition recordDeclarations :: "decl_sort \<Rightarrow> clang_ast \<Rightarrow> clang_decl list" where
  "recordDeclarations sort_by ast =
     (let sm = ast_manager ast;
          decls = foldl (addDecl sm) [] (function_decls ast)
      in std_unique (UniqueLocationComparator sm) (sort_by (SortLocationComparator sm) decls))"

record ast_unit =
  unit_ast :: "clang_ast option"
  unit_decls :: "clang_decl list"

definition ThreadSafeASTUnit :: "decl_sort \<Rightarrow> clang_ast option \<Rightarrow> ast_unit" where
  "ThreadSafeASTUnit sort_by ast =
     \<lparr>unit_ast = ast, unit_decls = (case ast of None \<Rightarrow> [] | Some a \<Rightarrow> recordDeclarations sort_by a)\<rparr>"

text \<open>The tree of a unit; a unit of a file Clang gave no tree for holds a null pointer.\<close>

definition the_ast :: "ast_unit \<Rightarrow> clang_ast result" where
  "the_ast u = (case unit_ast u of None \<Rightarrow> Inl (NullPointer ''ast'') | Some a \<Rightarrow> Inr a)"

definition unit_isInSystemHeader :: "ast_unit \<Rightarrow> clang_location \<Rightarrow> bool result" where
  "unit_isInSystemHeader u loc = bind_result (the_ast u) (\<lambda>a. Inr (inSystemHeader (ast_manager a) loc))"

fun findFileEntry_path :: "(string \<Rightarrow> bool) \<Rightarrow> string \<Rightarrow> file_entry list \<Rightarrow> file_entry option" where
  "findFileEntry_path is_absolute path [] = None"
| "findFileEntry_path is_absolute path (f # fs) =
     (if (if is_absolute (entry_name f) then entry_name f else entry_realPath f) = path then Some f
      else findFileEntry_path is_absolute path fs)"

definition findFileEntry :: "(string \<Rightarrow> bool) \<Rightarrow> ast_unit \<Rightarrow> SourceLocation \<Rightarrow> file_entry option result" where
  "findFileEntry is_absolute u loc =
     bind_result (cxx_assert ''Missing debug information?'' (\<not> isNull loc)) (\<lambda>_.
     bind_result (the_ast u) (\<lambda>a.
       Inr (case findFileEntry_path is_absolute (filePath loc) (fileinfo a) of
              Some f \<Rightarrow> Some f
            | None \<Rightarrow> findFileEntry_path is_absolute (unitFilePath loc) (fileinfo a))))"

definition unit_getLocation :: "(string \<Rightarrow> bool) \<Rightarrow> ast_unit \<Rightarrow> SourceLocation \<Rightarrow> clang_location result" where
  "unit_getLocation is_absolute u loc =
     bind_result (findFileEntry is_absolute u loc) (\<lambda>file.
       case file of
         None \<Rightarrow> Inl (AssertFailed ''file'')
       | Some f \<Rightarrow>
           bind_result (cxx_assert ''file->isValid()'' (entry_valid f)) (\<lambda>_.
           bind_result (cxx_assert ''!sourceLocation.isNull()'' (\<not> isNull loc)) (\<lambda>_.
           bind_result (the_ast u) (\<lambda>a.
             let location = ast_getLocation a f (line loc) (column loc)
             in bind_result (cxx_assert ''location.isValid()'' (location \<noteq> 0)) (\<lambda>_. Inr location)))))"

text \<open>\<open>std::lower_bound\<close> on the elements from \<open>first\<close> on, \<open>len\<close> many.\<close>

function lower_bound :: "('a \<Rightarrow> bool) \<Rightarrow> 'a list \<Rightarrow> nat \<Rightarrow> nat \<Rightarrow> nat" where
  "lower_bound before xs first len =
     (if len = 0 then first
      else if before (xs ! (first + len div 2))
      then lower_bound before xs (first + len div 2 + 1) (len - len div 2 - 1)
      else lower_bound before xs first (len div 2))"
  by pat_completeness auto
termination
  by (relation "measure (\<lambda>(before, xs, first, len). len)") auto

declare lower_bound.simps [simp del]

definition getDecl :: "ast_unit \<Rightarrow> clang_location \<Rightarrow> clang_decl option result" where
  "getDecl u location =
     (let decls = unit_decls u
      in if decls = [] then Inr None
         else bind_result (the_ast u) (\<lambda>a.
           let sm = ast_manager a;
               lower = lower_bound (\<lambda>d. isBefore sm (decl_end d) location) decls 0 (length decls)
           in Inr
             (if lower = length decls then None
              else let d = decls ! lower
                in if isBefore sm (decl_begin d) location \<and> isBefore sm location (decl_end d) then Some d
                   else None)))"

section \<open>The storage\<close>

text \<open>Beside what the class keeps, the state has the command lines Clang was run with so far.\<close>

record ast_storage =
  compilationDatabase :: compilation_database
  astUnits :: "(string \<times> ast_unit) list"
  storage_log :: diagnostics
  clang_runs :: "string list list"

record storage_environment =
  file_exists :: "string \<Rightarrow> bool"
  parse_file :: "string list \<Rightarrow> clang_ast option \<times> bool"
  absolute :: "string \<Rightarrow> bool"
  filename_of :: "string \<Rightarrow> string"
  without_dots :: "string \<Rightarrow> string"
  sort_decls :: decl_sort

definition ASTStorage ::
  "storage_environment \<Rightarrow> json_loader \<Rightarrow> string \<Rightarrow> string \<Rightarrow> (string \<times> string) list \<Rightarrow> ast_storage diag" where
  "ASTStorage env load path flags unitFlags =
     diag_bind (fromFile (absolute env) load path flags unitFlags) (\<lambda>db d.
       (d, Inr \<lparr>compilationDatabase = db, astUnits = [], storage_log = d, clang_runs = []\<rparr>))"

definition storage_warning :: "string \<Rightarrow> ast_storage \<Rightarrow> ast_storage \<times> unit result" where
  "storage_warning message s =
     (case diag_warning message (storage_log s) of (d, r) \<Rightarrow> (s\<lparr>storage_log := d\<rparr>, r))"

definition parse_args :: "storage_environment \<Rightarrow> compilation_database \<Rightarrow> string \<Rightarrow> string list" where
  "parse_args env db file =
     [''mull-cxx''] @ compilationFlagsForFile (filename_of env) (without_dots env) db file @ [file]"

definition parse_message :: "string \<Rightarrow> string list \<Rightarrow> string" where
  "parse_message file args =
     ''Cannot parse file: '' @ [CHR 0x27] @ file @ [CHR 0x27] @ '':'' @ newline @
     concat (map (\<lambda>a. a @ '' '') args) @ newline @
     ''Make sure that the flags provided to Mull are the same flags that are used for normal compilation.''"

definition run_clang ::
  "storage_environment \<Rightarrow> string list \<Rightarrow> ast_storage \<Rightarrow> ast_storage \<times> (clang_ast option \<times> bool) result" where
  "run_clang env args s = (s\<lparr>clang_runs := clang_runs s @ [args]\<rparr>, Inr (parse_file env args))"

definition findAST_file ::
  "storage_environment \<Rightarrow> string \<Rightarrow> ast_storage \<Rightarrow> ast_storage \<times> ast_unit result" where
  "findAST_file env file s =
     (case map_of (astUnits s) file of
        Some u \<Rightarrow> (s, Inr u)
      | None \<Rightarrow>
          (let args = parse_args env (compilationDatabase s) file
           in st_bind (run_clang env args) (\<lambda>(ast, errors).
              st_bind
                (if ast = None \<or> errors then storage_warning (parse_message file args) else st_return ())
                (\<lambda>_ s. let u = ThreadSafeASTUnit (sort_decls env) ast
                       in (s\<lparr>astUnits := map_insert file u (astUnits s)\<rparr>, Inr u))) s))"

definition findAST ::
  "storage_environment \<Rightarrow> SourceLocation \<Rightarrow> ast_storage \<Rightarrow> ast_storage \<times> ast_unit option result" where
  "findAST env loc =
     (if file_exists env (unitFilePath loc)
      then st_bind (findAST_file env (unitFilePath loc)) (\<lambda>u. st_return (Some u))
      else if unitFilePath loc = ''/in-memory-file.cc''
      then st_bind (findAST_file env (filePath loc)) (\<lambda>u. st_return (Some u))
      else st_bind (storage_warning (''ThreadSafeASTUnit: source location does not exist: '' @ unitFilePath loc))
        (\<lambda>_. st_return None))"

definition setAST :: "string \<Rightarrow> ast_unit \<Rightarrow> ast_storage \<Rightarrow> ast_storage" where
  "setAST file u s = s\<lparr>astUnits := map_insert file u (astUnits s)\<rparr>"

section \<open>Finding the declaration of a place\<close>

lemma lower_bound_spec:
  assumes "\<And>i j. i \<le> j \<Longrightarrow> j < first + len \<Longrightarrow> before (xs ! j) \<Longrightarrow> before (xs ! i)"
  shows "first \<le> lower_bound before xs first len \<and> lower_bound before xs first len \<le> first + len \<and>
    (\<forall>i. first \<le> i \<and> i < lower_bound before xs first len \<longrightarrow> before (xs ! i)) \<and>
    (\<forall>i. lower_bound before xs first len \<le> i \<and> i < first + len \<longrightarrow> \<not> before (xs ! i))"
  using assms
proof (induction before xs first len rule: lower_bound.induct)
  case (1 before xs first len)
  show ?case
  proof (cases "len = 0")
    case True
    then have "lower_bound before xs first len = first" by (simp add: lower_bound.simps)
    with True show ?thesis by auto
  next
    case len: False
    let ?m = "first + len div 2"
    have m: "?m < first + len" using len by simp
    show ?thesis
    proof (cases "before (xs ! ?m)")
      case True
      have e: "?m + 1 + (len - len div 2 - 1) = first + len" using len by simp
      have lb: "lower_bound before xs first len = lower_bound before xs (?m + 1) (len - len div 2 - 1)"
        using len True by (subst lower_bound.simps) simp
      have low: "before (xs ! i)" if "i \<le> ?m" for i using "1.prems" [OF that m True] .
      have ih: "?m + 1 \<le> lower_bound before xs (?m + 1) (len - len div 2 - 1) \<and>
        lower_bound before xs (?m + 1) (len - len div 2 - 1) \<le> first + len \<and>
        (\<forall>i. ?m + 1 \<le> i \<and> i < lower_bound before xs (?m + 1) (len - len div 2 - 1) \<longrightarrow> before (xs ! i)) \<and>
        (\<forall>i. lower_bound before xs (?m + 1) (len - len div 2 - 1) \<le> i \<and> i < first + len \<longrightarrow> \<not> before (xs ! i))"
        using "1.IH"(1) [OF len True] "1.prems" unfolding e by blast
      let ?r = "lower_bound before xs (?m + 1) (len - len div 2 - 1)"
      have "before (xs ! i)" if "first \<le> i" "i < ?r" for i
        using ih low [of i] that by (cases "i \<le> ?m") auto
      moreover have "first \<le> ?r" using ih by linarith
      ultimately show ?thesis unfolding lb using ih by blast
    next
      case False
      have lb: "lower_bound before xs first len = lower_bound before xs first (len div 2)"
        using len False by (subst lower_bound.simps) simp
      have high: "\<not> before (xs ! i)" if "?m \<le> i" "i < first + len" for i
        using "1.prems" [OF that] False by blast
      have p: "before (xs ! i)" if "i \<le> j" "j < ?m" "before (xs ! j)" for i j
        using "1.prems" [of i j] that m by linarith
      have ih: "first \<le> lower_bound before xs first (len div 2) \<and>
        lower_bound before xs first (len div 2) \<le> ?m \<and>
        (\<forall>i. first \<le> i \<and> i < lower_bound before xs first (len div 2) \<longrightarrow> before (xs ! i)) \<and>
        (\<forall>i. lower_bound before xs first (len div 2) \<le> i \<and> i < ?m \<longrightarrow> \<not> before (xs ! i))"
        by (rule "1.IH"(2) [OF len False]) (use p in blast)
      let ?r = "lower_bound before xs first (len div 2)"
      have "\<not> before (xs ! i)" if "?r \<le> i" "i < first + len" for i
        using ih high [of i] that by (cases "i < ?m") auto
      moreover have "?r \<le> first + len" using ih m by linarith
      ultimately show ?thesis unfolding lb using ih by blast
    qed
  qed
qed

text \<open>The contract of \<open>std::sort\<close>.\<close>

definition sorts :: "('a \<Rightarrow> 'a \<Rightarrow> bool) \<Rightarrow> ('a list \<Rightarrow> 'a list) \<Rightarrow> bool" where
  "sorts lt f \<longleftrightarrow> (\<forall>xs. mset (f xs) = mset xs \<and> sorted_wrt (\<lambda>x y. \<not> lt y x) (f xs))"

text \<open>The declarations the visitor keeps, and what their ranges are like: two are nested or disjoint.\<close>

definition recordable_decls :: "clang_ast \<Rightarrow> clang_decl list" where
  "recordable_decls ast =
     filter (\<lambda>d. hasBody d \<and> \<not> inSystemHeader (ast_manager ast) (decl_begin d)) (function_decls ast)"

lemma visited_decls: "foldl (addDecl sm) acc ds =
    acc @ filter (\<lambda>d. hasBody d \<and> \<not> inSystemHeader sm (decl_begin d)) ds"
  by (induction ds arbitrary: acc) (auto simp: addDecl_def)

definition nested :: "(clang_location \<Rightarrow> nat) \<Rightarrow> clang_decl set \<Rightarrow> bool" where
  "nested rank ds \<longleftrightarrow>
     (\<forall>d\<in>ds. rank (decl_begin d) \<le> rank (decl_end d)) \<and>
     (\<forall>d\<in>ds. \<forall>e\<in>ds. rank (decl_begin d) \<le> rank (decl_begin e) \<and> rank (decl_begin e) \<le> rank (decl_end d) \<longrightarrow>
        rank (decl_end e) \<le> rank (decl_end d))"

definition contains :: "(clang_location \<Rightarrow> nat) \<Rightarrow> clang_location \<Rightarrow> clang_decl \<Rightarrow> bool" where
  "contains rank loc d \<longleftrightarrow> rank (decl_begin d) < rank loc \<and> rank loc < rank (decl_end d)"

definition covers :: "(clang_location \<Rightarrow> nat) \<Rightarrow> clang_decl \<Rightarrow> clang_decl \<Rightarrow> bool" where
  "covers rank k d \<longleftrightarrow> rank (decl_begin k) \<le> rank (decl_begin d) \<and> rank (decl_end d) \<le> rank (decl_end k)"

lemma unique_after_kept:
  assumes "sorted_wrt (\<lambda>x y. rank (decl_begin x) \<le> rank (decl_begin y)) (k # xs)"
    and "nested rank (set (k # xs))"
    and same: "\<And>a b. same a b \<longleftrightarrow> rank (decl_begin b) \<le> rank (decl_end a)"
  shows "set (unique_after same k xs) \<subseteq> set (k # xs) \<and>
    sorted_wrt (\<lambda>x y. rank (decl_end x) < rank (decl_begin y)) (unique_after same k xs) \<and>
    (\<forall>y \<in> set (unique_after same k xs). rank (decl_begin k) \<le> rank (decl_begin y)) \<and>
    (\<forall>d \<in> set (k # xs). \<exists>y \<in> set (unique_after same k xs). covers rank y d)"
  using assms(1,2)
proof (induction xs arbitrary: k)
  case Nil
  then show ?case by (simp add: covers_def)
next
  case (Cons x xs)
  have kx: "rank (decl_begin k) \<le> rank (decl_begin x)" using Cons.prems(1) by simp
  show ?case
  proof (cases "same k x")
    case True
    have s: "sorted_wrt (\<lambda>x y. rank (decl_begin x) \<le> rank (decl_begin y)) (k # xs)"
      using Cons.prems(1) by simp
    have n: "nested rank (set (k # xs))" using Cons.prems(2) unfolding nested_def by simp
    have "rank (decl_begin x) \<le> rank (decl_end k)" using True same by simp
    then have "rank (decl_end x) \<le> rank (decl_end k)"
      using Cons.prems(2) kx unfolding nested_def by simp
    with kx have cx: "covers rank y k \<Longrightarrow> covers rank y x" for y by (auto simp: covers_def)
    note ih = Cons.IH [OF s n]
    have u: "unique_after same k (x # xs) = unique_after same k xs" using True by simp
    show ?thesis unfolding u using ih cx by (auto; blast)
  next
    case False
    have s: "sorted_wrt (\<lambda>x y. rank (decl_begin x) \<le> rank (decl_begin y)) (x # xs)"
      using Cons.prems(1) by simp
    have n: "nested rank (set (x # xs))" using Cons.prems(2) unfolding nested_def by simp
    note ih = Cons.IH [OF s n]
    have u: "unique_after same k (x # xs) = k # unique_after same x xs" using False by simp
    have l: "rank (decl_end k) < rank (decl_begin x)" using False same by simp
    have c: "covers rank k k" by (simp add: covers_def)
    have b: "rank (decl_end k) < rank (decl_begin y)" "rank (decl_begin k) \<le> rank (decl_begin y)"
      if "y \<in> set (unique_after same x xs)" for y
      using ih that l kx by fastforce+
    show ?thesis unfolding u using ih b c by (auto; blast)
  qed
qed

lemma std_unique_kept:
  assumes "sorted_wrt (\<lambda>x y. rank (decl_begin x) \<le> rank (decl_begin y)) xs" "nested rank (set xs)"
    and "\<And>a b. same a b \<longleftrightarrow> rank (decl_begin b) \<le> rank (decl_end a)"
  shows "set (std_unique same xs) \<subseteq> set xs \<and>
    sorted_wrt (\<lambda>x y. rank (decl_end x) < rank (decl_begin y)) (std_unique same xs) \<and>
    (\<forall>d \<in> set xs. \<exists>y \<in> set (std_unique same xs). covers rank y d)"
proof (cases xs)
  case (Cons x xs')
  show ?thesis
    using unique_after_kept [of rank x xs' same] assms unfolding Cons by simp
qed simp

lemma recordDeclarations_kept:
  assumes "\<And>a b. isBefore (ast_manager ast) a b \<longleftrightarrow> rank a < rank b"
    and "sorts (SortLocationComparator (ast_manager ast)) (sort_by (SortLocationComparator (ast_manager ast)))"
    and "nested rank (set (recordable_decls ast))"
  shows "set (recordDeclarations sort_by ast) \<subseteq> set (recordable_decls ast) \<and>
    sorted_wrt (\<lambda>x y. rank (decl_end x) < rank (decl_begin y)) (recordDeclarations sort_by ast) \<and>
    (\<forall>d \<in> set (recordable_decls ast). \<exists>y \<in> set (recordDeclarations sort_by ast). covers rank y d)"
proof -
  let ?sm = "ast_manager ast"
  let ?ds = "sort_by (SortLocationComparator ?sm) (recordable_decls ast)"
  have m: "set ?ds = set (recordable_decls ast)"
    using assms(2) by (metis sorts_def set_mset_mset)
  have "sorted_wrt (\<lambda>x y. \<not> SortLocationComparator ?sm y x) ?ds" using assms(2) by (simp add: sorts_def)
  then have s: "sorted_wrt (\<lambda>x y. rank (decl_begin x) \<le> rank (decl_begin y)) ?ds"
    by (simp add: SortLocationComparator_def assms(1) not_less)
  have "set (std_unique (UniqueLocationComparator ?sm) ?ds) \<subseteq> set ?ds \<and>
    sorted_wrt (\<lambda>x y. rank (decl_end x) < rank (decl_begin y)) (std_unique (UniqueLocationComparator ?sm) ?ds) \<and>
    (\<forall>d \<in> set ?ds. \<exists>y \<in> set (std_unique (UniqueLocationComparator ?sm) ?ds). covers rank y d)"
    by (rule std_unique_kept [OF s]) (use assms m in \<open>auto simp: UniqueLocationComparator_def not_less\<close>)
  moreover have "recordDeclarations sort_by ast = std_unique (UniqueLocationComparator ?sm) ?ds"
    by (simp add: recordDeclarations_def Let_def visited_decls recordable_decls_def)
  ultimately show ?thesis unfolding m by metis
qed

lemma getDecl_disjoint:
  assumes lt: "\<And>a b. isBefore (ast_manager ast) a b \<longleftrightarrow> rank a < rank b"
    and ks: "sorted_wrt (\<lambda>x y. rank (decl_end x) < rank (decl_begin y)) ks"
    and le: "\<And>d. d \<in> set ks \<Longrightarrow> rank (decl_begin d) \<le> rank (decl_end d)"
  shows "getDecl \<lparr>unit_ast = Some ast, unit_decls = ks\<rparr> loc = Inr (List.find (contains rank loc) ks)"
proof -
  let ?before = "\<lambda>d. isBefore (ast_manager ast) (decl_end d) loc"
  let ?r = "lower_bound ?before ks 0 (length ks)"
  have lt_nth: "rank (decl_end (ks ! i)) < rank (decl_begin (ks ! j))" if "i < j" "j < length ks" for i j
    using sorted_wrt_nth_less [OF ks that] .
  have le_nth: "rank (decl_begin (ks ! i)) \<le> rank (decl_end (ks ! i))" if "i < length ks" for i
    using le that by simp
  have mono: "?before (ks ! i)" if "i \<le> j" "j < length ks" "?before (ks ! j)" for i j
  proof (cases "i = j")
    case False
    then show ?thesis using lt_nth [of i j] le_nth [of j] that by (simp add: lt)
  qed (use that in simp)
  have r: "?r \<le> length ks" "\<And>i. i < ?r \<Longrightarrow> ?before (ks ! i)"
    "\<And>i. ?r \<le> i \<Longrightarrow> i < length ks \<Longrightarrow> \<not> ?before (ks ! i)"
    using lower_bound_spec [of 0 "length ks" ?before ks] mono by auto
  have out: "\<not> contains rank loc (ks ! i)" if "i < length ks" "i \<noteq> ?r" for i
  proof (cases "i < ?r")
    case True
    then show ?thesis using r(2) [OF True] by (simp add: contains_def lt)
  next
    case False
    then have "?r < i" using that by simp
    moreover have "rank loc \<le> rank (decl_end (ks ! ?r))"
      using r(3) [of ?r] that \<open>?r < i\<close> by (simp add: lt not_less)
    ultimately show ?thesis using lt_nth [of ?r i] that by (simp add: contains_def)
  qed
  have find: "List.find (contains rank loc) ks =
      (if ?r < length ks \<and> contains rank loc (ks ! ?r) then Some (ks ! ?r) else None)"
  proof (cases "?r < length ks \<and> contains rank loc (ks ! ?r)")
    case True
    then show ?thesis using out by (auto simp: find_Some_iff)
  next
    case False
    then have "\<not> contains rank loc d" if "d \<in> set ks" for d
      using out that by (metis in_set_conv_nth)
    then show ?thesis using False by (auto simp: find_None_iff)
  qed
  show ?thesis
  proof (cases "?r < length ks")
    case True
    then have "ks \<noteq> []" "?r \<noteq> length ks" by auto
    then show ?thesis using True unfolding find getDecl_def
      by (simp add: the_ast_def Let_def contains_def lt)
  next
    case False
    then have "?r = length ks" using r(1) by simp
    then show ?thesis unfolding find getDecl_def by (simp add: the_ast_def Let_def)
  qed
qed

lemma disjoint_contains:
  assumes "sorted_wrt (\<lambda>x y. rank (decl_end x) < rank (decl_begin y)) ks"
    and "y \<in> set ks" "z \<in> set ks" "contains rank loc y" "contains rank loc z"
  shows "y = z"
proof (rule ccontr)
  assume "y \<noteq> z"
  obtain i where i: "i < length ks" "y = ks ! i" using assms(2) by (auto simp: in_set_conv_nth)
  obtain j where j: "j < length ks" "z = ks ! j" using assms(3) by (auto simp: in_set_conv_nth)
  have "i \<noteq> j" using \<open>y \<noteq> z\<close> i j by auto
  then have "rank (decl_end y) < rank (decl_begin z) \<or> rank (decl_end z) < rank (decl_begin y)"
    using sorted_wrt_nth_less [OF assms(1), of i j] sorted_wrt_nth_less [OF assms(1), of j i] i j
    by (cases "i < j") auto
  with assms(4,5) show False by (auto simp: contains_def)
qed

text \<open>C32. Where functions are nested in each other or apart, a place strictly inside a function has a
  declaration, the outermost one around it, and no other place has one: sorting, removing overlaps
  and the binary search lose nothing.\<close>

theorem getDecl_finds_outermost:
  assumes "\<And>a b. isBefore (ast_manager ast) a b \<longleftrightarrow> rank a < rank b"
    and "sorts (SortLocationComparator (ast_manager ast)) (sort_by (SortLocationComparator (ast_manager ast)))"
    and "nested rank (set (recordable_decls ast))"
  shows "case getDecl (ThreadSafeASTUnit sort_by (Some ast)) loc of
      Inl e \<Rightarrow> False
    | Inr None \<Rightarrow> \<not> (\<exists>d \<in> set (recordable_decls ast). contains rank loc d)
    | Inr (Some k) \<Rightarrow> k \<in> set (recordable_decls ast) \<and> contains rank loc k \<and>
        (\<forall>d \<in> set (recordable_decls ast). contains rank loc d \<longrightarrow> covers rank k d)"
proof -
  let ?ks = "recordDeclarations sort_by ast"
  have k: "set ?ks \<subseteq> set (recordable_decls ast)"
    "sorted_wrt (\<lambda>x y. rank (decl_end x) < rank (decl_begin y)) ?ks"
    "\<And>d. d \<in> set (recordable_decls ast) \<Longrightarrow> \<exists>y \<in> set ?ks. covers rank y d"
    using recordDeclarations_kept [of ast rank sort_by, OF assms] by auto
  have le: "rank (decl_begin d) \<le> rank (decl_end d)" if "d \<in> set ?ks" for d
    using assms(3) k(1) that by (auto simp: nested_def)
  have g: "getDecl (ThreadSafeASTUnit sort_by (Some ast)) loc = Inr (List.find (contains rank loc) ?ks)"
    using getDecl_disjoint [OF assms(1) k(2) le] by (simp add: ThreadSafeASTUnit_def)
  have up: "contains rank loc y" if "covers rank y d" "contains rank loc d" for y d
    using that by (auto simp: covers_def contains_def)
  show ?thesis
  proof (cases "List.find (contains rank loc) ?ks")
    case None
    then have "\<forall>y \<in> set ?ks. \<not> contains rank loc y" by (simp add: find_None_iff)
    have "\<not> contains rank loc d" if d: "d \<in> set (recordable_decls ast)" for d
    proof
      assume "contains rank loc d"
      moreover obtain z where "z \<in> set ?ks" "covers rank z d" using k(3) d by blast
      ultimately show False using up \<open>\<forall>y \<in> set ?ks. \<not> contains rank loc y\<close> by blast
    qed
    then show ?thesis using None g by simp
  next
    case (Some y)
    then have y: "y \<in> set ?ks" "contains rank loc y" by (auto simp: find_Some_iff)
    have "covers rank y d" if d: "d \<in> set (recordable_decls ast)" "contains rank loc d" for d
    proof -
      obtain z where z: "z \<in> set ?ks" "covers rank z d" using k(3) d(1) by blast
      then have "z = y" using disjoint_contains [OF k(2) z(1) y(1)] up [OF z(2) d(2)] y(2) by blast
      with z show ?thesis by simp
    qed
    then show ?thesis using Some g y k(1) by auto
  qed
qed

definition sample_manager :: clang_source_manager where
  "sample_manager =
     \<lparr>isBefore = (<), inSystemHeader = (\<lambda>l. False), isFileID = (\<lambda>l. True), getFileID = (\<lambda>l. 0),
      getFileOffset = of_nat, getExpansionLineNumber = int, getExpansionColumnNumber = (\<lambda>l. 1)\<rparr>"

definition sample_decl :: "nat \<Rightarrow> nat \<Rightarrow> ast_node list \<Rightarrow> clang_decl" where
  "sample_decl b e nodes = \<lparr>decl_begin = b, decl_end = e, hasBody = True, decl_nodes = nodes\<rparr>"

definition sample_ast :: "clang_decl list \<Rightarrow> clang_ast" where
  "sample_ast ds =
     \<lparr>ast_manager = sample_manager, fileinfo = [], ast_getLocation = (\<lambda>f l c. 0), getLocForEndOfToken = id,
      function_decls = ds\<rparr>"

text \<open>Two functions, the second with one nested in it; the place lies in the nested one.\<close>

lemma getDecl_finds_outermost_witness:
  "getDecl (ThreadSafeASTUnit (\<lambda>lt. sort_key decl_begin)
      (Some (sample_ast [sample_decl 20 40 [], sample_decl 1 9 [], sample_decl 25 30 []]))) 27 =
   Inr (Some (sample_decl 20 40 []))"
proof -
  let ?ast = "sample_ast [sample_decl 20 40 [], sample_decl 1 9 [], sample_decl 25 30 []]"
  have s: "sorts (SortLocationComparator (ast_manager ?ast)) (sort_key decl_begin)"
    using sorted_sort_key [of "decl_begin :: clang_decl \<Rightarrow> nat"] unfolding sorted_map
    by (simp add: sorts_def SortLocationComparator_def sample_ast_def sample_manager_def not_less)
  have r: "set (recordable_decls ?ast) = {sample_decl 20 40 [], sample_decl 1 9 [], sample_decl 25 30 []}"
    by (simp add: recordable_decls_def sample_ast_def sample_manager_def sample_decl_def)
  have lt: "isBefore (ast_manager ?ast) a b \<longleftrightarrow> id a < id b" for a b
    by (simp add: sample_ast_def sample_manager_def)
  have n: "nested id (set (recordable_decls ?ast))" unfolding r by (simp add: nested_def sample_decl_def)
  have "case getDecl (ThreadSafeASTUnit (\<lambda>lt. sort_key decl_begin) (Some ?ast)) 27 of
      Inl e \<Rightarrow> False
    | Inr None \<Rightarrow> \<not> (\<exists>d \<in> set (recordable_decls ?ast). contains id 27 d)
    | Inr (Some k) \<Rightarrow> k \<in> set (recordable_decls ?ast) \<and> contains id 27 k \<and>
        (\<forall>d \<in> set (recordable_decls ?ast). contains id 27 d \<longrightarrow> covers id k d)"
    by (rule getDecl_finds_outermost [where rank = id, OF lt s n])
  then obtain k where k: "getDecl (ThreadSafeASTUnit (\<lambda>lt. sort_key decl_begin) (Some ?ast)) 27 = Inr (Some k)"
    "k \<in> {sample_decl 20 40 [], sample_decl 1 9 [], sample_decl 25 30 []}" "contains id 27 k"
    "covers id k (sample_decl 20 40 [])"
    unfolding r by (simp add: contains_def sample_decl_def split: sum.splits option.splits)
  then have "k = sample_decl 20 40 []" by (auto simp: contains_def covers_def sample_decl_def)
  with k(1) show ?thesis by simp
qed

section \<open>The cache of units\<close>

definition unit_for :: "storage_environment \<Rightarrow> compilation_database \<Rightarrow> string \<Rightarrow> ast_unit" where
  "unit_for env db file = ThreadSafeASTUnit (sort_decls env) (fst (parse_file env (parse_args env db file)))"

definition parse_fails :: "storage_environment \<Rightarrow> compilation_database \<Rightarrow> string \<Rightarrow> bool" where
  "parse_fails env db file \<longleftrightarrow>
     fst (parse_file env (parse_args env db file)) = None \<or> snd (parse_file env (parse_args env db file))"

definition storage_current :: "storage_environment \<Rightarrow> ast_storage \<Rightarrow> bool" where
  "storage_current env s \<longleftrightarrow>
     ordered_map (astUnits s) \<and> list_all (\<lambda>(f, u). u = unit_for env (compilationDatabase s) f) (astUnits s) \<and>
     \<not> strictModeEnabled (storage_log s)"

lemma findAST_file_step:
  assumes "storage_current env s"
  shows "\<exists>s'. findAST_file env file s = (s', Inr (unit_for env (compilationDatabase s) file)) \<and>
    storage_current env s' \<and> compilationDatabase s' = compilationDatabase s \<and>
    fst ` set (astUnits s') = insert file (fst ` set (astUnits s)) \<and>
    warnings_of (storage_log s') = warnings_of (storage_log s) @
      (if file \<notin> fst ` set (astUnits s) \<and> parse_fails env (compilationDatabase s) file
       then [parse_message file (parse_args env (compilationDatabase s) file)] else []) \<and>
    clang_runs s' = clang_runs s @
      (if file \<in> fst ` set (astUnits s) then [] else [parse_args env (compilationDatabase s) file])"
proof (cases "map_of (astUnits s) file")
  case (Some u)
  then have "(file, u) \<in> set (astUnits s)" by (rule map_of_SomeD)
  with assms have "u = unit_for env (compilationDatabase s) file" "file \<in> fst ` set (astUnits s)"
    by (force simp: storage_current_def list_all_iff)+
  with Some assms show ?thesis by (auto simp: findAST_file_def insert_absorb)
next
  case None
  then have new: "file \<notin> fst ` set (astUnits s)" by (simp add: map_of_eq_None_iff)
  let ?args = "parse_args env (compilationDatabase s) file"
  let ?u = "unit_for env (compilationDatabase s) file"
  define d where "d = (if parse_fails env (compilationDatabase s) file
     then emit (LogWarning (parse_message file ?args)) (diag_prepare (storage_log s)) else storage_log s)"
  let ?s = "s\<lparr>astUnits := map_insert file ?u (astUnits s), storage_log := d, clang_runs := clang_runs s @ [?args]\<rparr>"
  have lenient: "\<not> strictModeEnabled (storage_log s)" using assms by (simp add: storage_current_def)
  have run: "findAST_file env file s = (?s, Inr ?u)"
    using None lenient
    by (cases "parse_file env ?args")
      (auto simp: findAST_file_def run_clang_def Let_def st_bind_def st_return_def storage_warning_def diag_warning_lenient
        unit_for_def parse_fails_def d_def)
  have o: "ordered_map (astUnits s)" using assms by (simp add: storage_current_def)
  have keys: "fst ` set (map_insert file ?u (astUnits s)) = insert file (fst ` set (astUnits s))"
    by (simp only: set_map [symmetric] keys_map_insert)
  have "storage_current env ?s"
  proof -
    have om: "ordered_map (map_insert file ?u (astUnits s))" by (rule ordered_map_insert [OF o])
    have "u = unit_for env (compilationDatabase s) f" if "(f, u) \<in> set (map_insert file ?u (astUnits s))" for f u
    proof -
      have "distinct (map fst (map_insert file ?u (astUnits s)))" using om strict_sorted_iff by blast
      then have "map_of (map_insert file ?u (astUnits s)) f = Some u" using that by simp
      then have "((map_of (astUnits s))(file \<mapsto> ?u)) f = Some u" using map_of_map_insert [OF o] by metis
      then show ?thesis using assms
        by (auto simp: storage_current_def list_all_iff split: if_splits dest: map_of_SomeD)
    qed
    moreover have "\<not> strictModeEnabled d" using lenient by (simp add: d_def)
    ultimately show ?thesis using om by (auto simp: storage_current_def list_all_iff)
  qed
  then show ?thesis using run keys new by (auto simp: d_def)
qed

text \<open>The storage is a cached lookup, and what a lookup adds to the log is its price; so is a run of Clang.\<close>

definition parse_cost :: "storage_environment \<Rightarrow> string \<Rightarrow> compilation_database \<Rightarrow> string list" where
  "parse_cost env file db = (if parse_fails env db file then [parse_message file (parse_args env db file)] else [])"

lemma findAST_file_paid:
  assumes "storage_current env s"
  shows "fst ` set (astUnits (fst (findAST_file env path s))) = insert path (fst ` set (astUnits s))"
    and "warnings_of (storage_log (fst (findAST_file env path s))) = warnings_of (storage_log s) @
      (if path \<in> fst ` set (astUnits s) then [] else parse_cost env path (compilationDatabase s))"
    and "clang_runs (fst (findAST_file env path s)) = clang_runs s @
      (if path \<in> fst ` set (astUnits s) then [] else [parse_args env (compilationDatabase s) path])"
proof -
  obtain s' where s': "fst (findAST_file env path s) = s'" "fst ` set (astUnits s') = insert path (fst ` set (astUnits s))"
    "warnings_of (storage_log s') = warnings_of (storage_log s) @
      (if path \<notin> fst ` set (astUnits s) \<and> parse_fails env (compilationDatabase s) path
       then [parse_message path (parse_args env (compilationDatabase s) path)] else [])"
    "clang_runs s' = clang_runs s @
      (if path \<in> fst ` set (astUnits s) then [] else [parse_args env (compilationDatabase s) path])"
    using findAST_file_step [OF assms, of path] by (metis fst_conv)
  show "fst ` set (astUnits (fst (findAST_file env path s))) = insert path (fst ` set (astUnits s))"
    "warnings_of (storage_log (fst (findAST_file env path s))) = warnings_of (storage_log s) @
      (if path \<in> fst ` set (astUnits s) then [] else parse_cost env path (compilationDatabase s))"
    "clang_runs (fst (findAST_file env path s)) = clang_runs s @
      (if path \<in> fst ` set (astUnits s) then [] else [parse_args env (compilationDatabase s) path])"
    unfolding s'(1) by (simp_all only: s'(2-4) parse_cost_def split: if_split) simp_all
qed

lemma findAST_file_steady:
  "steady (storage_current env) compilationDatabase (findAST_file env path) (\<lambda>db. Inr (unit_for env db path))"
  by (rule steadyI) (use findAST_file_step in blast)

interpretation ast_cache: paid_lookup "findAST_file env" "storage_current env" compilationDatabase
    "\<lambda>file db. Inr (unit_for env db file)" "\<lambda>s. fst ` set (astUnits s)" "\<lambda>s. warnings_of (storage_log s)"
    "parse_cost env"
  for env
  by unfold_locales (simp_all add: findAST_file_steady findAST_file_paid)

interpretation clang_cache: paid_lookup "findAST_file env" "storage_current env" compilationDatabase
    "\<lambda>file db. Inr (unit_for env db file)" "\<lambda>s. fst ` set (astUnits s)" clang_runs
    "\<lambda>file db. [parse_args env db file]"
  for env
  by unfold_locales (simp_all add: findAST_file_paid)

lemma storage_warning_settled [settled_intros]:
  "settled (storage_current env) compilationDatabase (storage_warning message)"
  by (rule settled_steady_intro [where answer = "\<lambda>db. Inr ()"], rule steadyI)
    (simp add: storage_warning_def storage_current_def diag_warning_lenient)

lemma findAST_file_settled [settled_intros]:
  "settled (storage_current env) compilationDatabase (findAST_file env f)"
  by (rule settled_steady_intro, rule ast_cache.ask_steady)

lemma findAST_settled [settled_intros]: "settled (storage_current env) compilationDatabase (findAST env loc)"
  unfolding findAST_def by (intro settled_intros)

text \<open>The storage that has not been asked yet.\<close>

definition empty_storage :: "compilation_database \<Rightarrow> ast_storage" where
  "empty_storage db = \<lparr>compilationDatabase = db, astUnits = [], storage_log = new_diagnostics, clang_runs = []\<rparr>"

lemma empty_storage_current [simp]:
  "storage_current env (empty_storage db)" "compilationDatabase (empty_storage db) = db"
  by (simp_all add: storage_current_def empty_storage_def new_diagnostics_def)

text \<open>C33. Whatever sequence of files is asked for, each answer is the unit Clang gives for the file with the
  flags of the compilation database; Clang is run exactly once for each file that is not in the storage yet,
  at its first use, whether it can read the file or not; and the log has one warning for each of these
  files that cannot be read. (In strict mode the first of these warnings ends the process.)\<close>

theorem files_parsed_once:
  assumes "storage_current env s"
  shows "\<exists>s'. ask_all (findAST_file env) files s =
      (s', map (\<lambda>f. Inr (unit_for env (compilationDatabase s) f)) files) \<and>
    clang_runs s' = clang_runs s @
      map (parse_args env (compilationDatabase s)) (first_uses (fst ` set (astUnits s)) files) \<and>
    warnings_of (storage_log s') = warnings_of (storage_log s) @
      map (\<lambda>f. parse_message f (parse_args env (compilationDatabase s) f))
        (filter (parse_fails env (compilationDatabase s)) (first_uses (fst ` set (astUnits s)) files))"
proof -
  have c: "concat (map (\<lambda>f. parse_cost env f db) fs) =
      map (\<lambda>f. parse_message f (parse_args env db f)) (filter (parse_fails env db) fs)" for db fs
    by (induction fs) (auto simp: parse_cost_def)
  have r: "concat (map (\<lambda>f. [parse_args env db f]) fs) = map (parse_args env db) fs" for db fs
    by (induction fs) simp_all
  obtain s' where "ask_all (findAST_file env) files s =
      (s', map (\<lambda>f. Inr (unit_for env (compilationDatabase s) f)) files)"
    using ast_cache.ask_all_answers [OF assms] by blast
  then show ?thesis
    using ast_cache.session_paid [OF assms, of files] clang_cache.session_paid [OF assms, of files] by (simp add: c r)
qed

definition sample_storage_environment :: storage_environment where
  "sample_storage_environment =
     \<lparr>file_exists = (\<lambda>f. True), parse_file = (\<lambda>args. (None, True)), absolute = (\<lambda>p. True), filename_of = id,
      without_dots = id, sort_decls = (\<lambda>lt. sort_key decl_begin)\<rparr>"

lemma files_parsed_once_witness:
  "let s = \<lparr>compilationDatabase = createFromClangCompDB (\<lambda>p. True) None [] [], astUnits = [],
         storage_log = new_diagnostics, clang_runs = []\<rparr>
   in \<exists>s'. ask_all (findAST_file sample_storage_environment) [''a'', ''a''] s =
       (s', [Inr \<lparr>unit_ast = None, unit_decls = []\<rparr>, Inr \<lparr>unit_ast = None, unit_decls = []\<rparr>]) \<and>
     clang_runs s' = [[''mull-cxx'', ''a'']] \<and>
     warnings_of (storage_log s') = [parse_message ''a'' [''mull-cxx'', ''a'']]"
proof -
  let ?s = "\<lparr>compilationDatabase = createFromClangCompDB (\<lambda>p. True) None [] [], astUnits = [],
         storage_log = new_diagnostics, clang_runs = []\<rparr>"
  have c: "storage_current sample_storage_environment ?s"
    by (simp add: storage_current_def new_diagnostics_def)
  have "parse_args sample_storage_environment (compilationDatabase ?s) ''a'' = [''mull-cxx'', ''a'']"
    "unit_for sample_storage_environment (compilationDatabase ?s) ''a'' = \<lparr>unit_ast = None, unit_decls = []\<rparr>"
    "parse_fails sample_storage_environment (compilationDatabase ?s) ''a''"
    by (simp_all add: parse_args_def unit_for_def parse_fails_def sample_storage_environment_def
        ThreadSafeASTUnit_def compilationFlagsForFile_def createFromClangCompDB_def)
  then show ?thesis
    using files_parsed_once [OF c, of "[''a'', ''a'']"] by (simp add: Let_def warnings_of_def new_diagnostics_def)
qed

end
