(* ===== verification/JunkDetector.thy ===== *)
theory JunkDetector
  imports ASTStorage MutatorsFactory MutationPoints
begin

text \<open>
  Junk detection: \<open>lib/JunkDetection/CXX/CXXJunkDetector.cpp\<close>, its visitors (\<open>CXX/Visitors\<close>), the
  matcher and the tables of \<open>lib/AST\<close> and \<open>lib/Filters/JunkMutationFilter.cpp\<close>. A mutation point is
  junk unless the syntax tree has an expression of the mutator's kind at its place.
\<close>

section \<open>Visitors\<close>

text \<open>
  Clang's traversal of a declaration: the nodes in order, until a visitor's function answers false.
\<close>

fun traverse :: "('n \<Rightarrow> 's \<Rightarrow> ('s \<times> bool) result) \<Rightarrow> 'n list \<Rightarrow> 's \<Rightarrow> 's result" where
  "traverse visit [] s = Inr s"
| "traverse visit (n # ns) s = bind_result (visit n s) (\<lambda>(s', go). if go then traverse visit ns s' else Inr s')"

definition VisitBinaryOperator ::
  "binary_opcode \<Rightarrow> clang_location \<Rightarrow> ast_node \<Rightarrow> ast_expr option \<Rightarrow> (ast_expr option \<times> bool) result" where
  "VisitBinaryOperator oper loc n matching =
     (case n of
        Expr e \<Rightarrow>
          (case expr_kind e of
             BinaryOperator op \<Rightarrow>
               (if op \<noteq> oper then Inr (matching, True)
                else if operatorLoc e = loc
                then bind_result (cxx_assert ''Already found'' (matching = None)) (\<lambda>_. Inr (Some e, False))
                else Inr (matching, True))
           | _ \<Rightarrow> Inr (matching, True))
      | Var v \<Rightarrow> Inr (matching, True))"

definition VisitUnaryOperator ::
  "unary_opcode \<Rightarrow> clang_location \<Rightarrow> ast_node \<Rightarrow> ast_expr option \<Rightarrow> (ast_expr option \<times> bool) result" where
  "VisitUnaryOperator oper loc n matching =
     (case n of
        Expr e \<Rightarrow>
          (case expr_kind e of
             UnaryOperator op \<Rightarrow>
               (if op \<noteq> oper then Inr (matching, True)
                else if operatorLoc e = loc
                then bind_result (cxx_assert ''Already found'' (matching = None)) (\<lambda>_. Inr (Some e, False))
                else Inr (matching, True))
           | _ \<Rightarrow> Inr (matching, True))
      | Var v \<Rightarrow> Inr (matching, True))"

text \<open>\<open>RemoveVoidFunctionVisitor\<close>: Clang calls \<open>VisitCallExpr\<close> before the function of the subclass.\<close>

definition isVoidCall :: "ast_expr \<Rightarrow> bool" where
  "isVoidCall e \<longleftrightarrow> expr_type e = VoidType"

definition validCallExpr ::
  "clang_location \<Rightarrow> ast_expr \<Rightarrow> clang_location \<Rightarrow> ast_expr option \<Rightarrow> (ast_expr option \<times> bool) result" where
  "validCallExpr loc e location matching =
     (if isVoidCall e \<and> location = loc
      then bind_result (cxx_assert ''Already found'' (matching = None)) (\<lambda>_. Inr (Some e, True))
      else Inr (matching, False))"

definition VisitVoidCall ::
  "clang_location \<Rightarrow> ast_node \<Rightarrow> ast_expr option \<Rightarrow> (ast_expr option \<times> bool) result" where
  "VisitVoidCall loc n matching =
     (case n of
        Expr e \<Rightarrow>
          (case expr_kind e of
             CallExpr k \<Rightarrow>
               bind_result (validCallExpr loc e (expr_begin e) matching) (\<lambda>(m1, valid).
                 if valid then Inr (m1, False)
                 else (case k of
                     PlainCall \<Rightarrow> Inr (m1, True)
                   | CXXMemberCall \<Rightarrow>
                       bind_result (validCallExpr loc e (exprLoc e) m1) (\<lambda>(m2, valid). Inr (m2, \<not> valid))
                   | CXXOperatorCall \<Rightarrow>
                       bind_result (validCallExpr loc e (operatorLoc e) m1) (\<lambda>(m2, valid). Inr (m2, \<not> valid))))
           | _ \<Rightarrow> Inr (matching, True))
      | Var v \<Rightarrow> Inr (matching, True))"

text \<open>\<open>InstructionRangeVisitor\<close> keeps the smallest expression around a place; offsets are \<open>unsigned\<close>.\<close>

definition locationInRange :: "clang_source_manager \<Rightarrow> ast_expr \<Rightarrow> clang_location \<Rightarrow> bool result" where
  "locationInRange sm e location =
     (if isFileID sm location
      then
        bind_result (cxx_assert ''mutantLocation.isValid()'' (location \<noteq> 0)) (\<lambda>_.
        bind_result (cxx_assert ''begin.isValid()'' (expr_begin e \<noteq> 0)) (\<lambda>_.
          let mutantOffset = getFileOffset sm location;
              inRange = getFileOffset sm (expr_begin e) \<le> mutantOffset \<and> mutantOffset \<le> getFileOffset sm (expr_end e)
          in Inr (getFileID sm location = getFileID sm (expr_begin e) \<and> inRange)))
      else Inr False)"

definition range_length :: "clang_source_manager \<Rightarrow> ast_expr \<Rightarrow> 32 word" where
  "range_length sm e = getFileOffset sm (expr_end e) - getFileOffset sm (expr_begin e)"

definition isRangeSmallerThanRange :: "clang_source_manager \<Rightarrow> ast_expr \<Rightarrow> ast_expr \<Rightarrow> bool" where
  "isRangeSmallerThanRange sm e f =
     (if range_length sm e < range_length sm f then True
      else if range_length sm f < range_length sm e then False else True)"

definition visitRangeWithASTExpr ::
  "clang_source_manager \<Rightarrow> clang_location \<Rightarrow> ast_expr \<Rightarrow> ast_expr option \<Rightarrow> ast_expr option result" where
  "visitRangeWithASTExpr sm loc e best =
     (if expr_begin e = 0 \<or> expr_end e = 0 then Inr best
      else bind_result (locationInRange sm e loc) (\<lambda>inRange.
        if inRange
        then (case best of
            None \<Rightarrow> Inr (Some e)
          | Some b \<Rightarrow> Inr (if isRangeSmallerThanRange sm e b then Some e else Some b))
        else Inr best))"

definition visit_range ::
  "clang_source_manager \<Rightarrow> clang_location \<Rightarrow> ast_expr \<Rightarrow> ast_expr option \<Rightarrow> (ast_expr option \<times> bool) result" where
  "visit_range sm loc e best = bind_result (visitRangeWithASTExpr sm loc e best) (\<lambda>b. Inr (b, True))"

definition VisitNegation ::
  "clang_source_manager \<Rightarrow> clang_location \<Rightarrow> ast_node \<Rightarrow> ast_expr option \<Rightarrow> (ast_expr option \<times> bool) result" where
  "VisitNegation sm loc n best =
     (case n of
        Expr e \<Rightarrow>
          (if expr_kind e = UnaryOperator UO_LNot then visit_range sm loc e best else Inr (best, True))
      | Var v \<Rightarrow> Inr (best, True))"

text \<open>\<open>ReplaceCallVisitor\<close>; a member or operator call is handled twice.\<close>

definition handleCallExpr ::
  "clang_source_manager \<Rightarrow> clang_location \<Rightarrow> ast_expr \<Rightarrow> ast_expr option \<Rightarrow> ast_expr option result" where
  "handleCallExpr sm loc e best =
     (if expr_type e = RealType then visitRangeWithASTExpr sm loc e best else Inr best)"

definition VisitScalarCall ::
  "clang_source_manager \<Rightarrow> clang_location \<Rightarrow> ast_node \<Rightarrow> ast_expr option \<Rightarrow> (ast_expr option \<times> bool) result" where
  "VisitScalarCall sm loc n best =
     (case n of
        Expr e \<Rightarrow>
          (case expr_kind e of
             CallExpr k \<Rightarrow>
               bind_result (handleCallExpr sm loc e best) (\<lambda>b1.
               bind_result (if k = PlainCall then Inr b1 else handleCallExpr sm loc e b1) (\<lambda>b2.
               Inr (b2, True)))
           | _ \<Rightarrow> Inr (best, True))
      | Var v \<Rightarrow> Inr (best, True))"

text \<open>\<open>VarDeclVisitor\<close>.\<close>

definition VisitVarDecl ::
  "clang_location \<Rightarrow> ast_node \<Rightarrow> ast_expr option \<Rightarrow> (ast_expr option \<times> bool) result" where
  "VisitVarDecl loc n matching =
     (case n of
        Expr e \<Rightarrow> Inr (matching, True)
      | Var v \<Rightarrow>
          (if var_declaration_only v then Inr (matching, True)
           else if var_init v = None then Inr (matching, True)
           else if var_const v then Inr (matching, True)
           else if var_location v = loc
           then bind_result (cxx_assert ''Already found'' (matching = None)) (\<lambda>_. Inr (var_init v, False))
           else Inr (matching, True)))"

text \<open>\<open>ASTScalarMutationMatcher\<close>: the parent by which a constant can be mutated, with its place.\<close>

fun first_mutable_parent :: "parent_node list \<Rightarrow> (parent_node \<times> clang_location) option" where
  "first_mutable_parent [] = None"
| "first_mutable_parent (p # ps) =
     (case p of
        ReturnStmtParent l \<Rightarrow> Some (p, l)
      | BinaryOperatorParent op l \<Rightarrow> Some (p, l)
      | _ \<Rightarrow> first_mutable_parent ps)"

definition isMutableExpr :: "ast_expr \<Rightarrow> (parent_node \<times> clang_location) option" where
  "isMutableExpr e = (if expr_kind e \<noteq> IntegerLiteral then None else first_mutable_parent (expr_parents e))"

fun first_variable_parent :: "parent_node list \<Rightarrow> clang_location option" where
  "first_variable_parent [] = None"
| "first_variable_parent (p # ps) =
     (case p of VarDeclParent const l \<Rightarrow> if const then first_variable_parent ps else Some l
      | _ \<Rightarrow> first_variable_parent ps)"

definition isMutableVarDeclExpr :: "ast_expr \<Rightarrow> clang_location option" where
  "isMutableVarDeclExpr e = (if expr_kind e \<noteq> IntegerLiteral then None else first_variable_parent (expr_parents e))"

fun first_assignment_parent :: "parent_node list \<Rightarrow> clang_location option" where
  "first_assignment_parent [] = None"
| "first_assignment_parent (p # ps) =
     (case p of BinaryOperatorParent op l \<Rightarrow> if op = BO_Assign then Some l else first_assignment_parent ps
      | _ \<Rightarrow> first_assignment_parent ps)"

definition isMutableAssignmentExpr :: "ast_expr \<Rightarrow> clang_location option" where
  "isMutableAssignmentExpr e = (if expr_kind e \<noteq> IntegerLiteral then None else first_assignment_parent (expr_parents e))"

definition VisitScalar :: "ast_node \<Rightarrow> ast_expr option \<Rightarrow> (ast_expr option \<times> bool) result" where
  "VisitScalar n found =
     (case n of
        Expr e \<Rightarrow> Inr (if isMutableExpr e \<noteq> None then Some e else found, True)
      | Var v \<Rightarrow> Inr (found, True))"

section \<open>Detecting junk\<close>

text \<open>What the switch over the kinds of mutators looks for.\<close>

datatype visitor_pattern =
    BinaryPattern binary_opcode
  | UnaryPattern unary_opcode
  | VoidCallPattern
  | ScalarCallPattern
  | NegationPattern
  | ScalarPattern
  | InitPattern
  | NoPattern

fun pattern_of :: "mutator_kind \<Rightarrow> visitor_pattern" where
  "pattern_of Kind_CXX_RemoveVoidCall = VoidCallPattern"
| "pattern_of Kind_CXX_ReplaceScalarCall = ScalarCallPattern"
| "pattern_of Kind_NegateMutator = NegationPattern"
| "pattern_of Kind_ScalarValueMutator = ScalarPattern"
| "pattern_of Kind_CXX_LessThanToLessOrEqual = BinaryPattern BO_LT"
| "pattern_of Kind_CXX_LessOrEqualToLessThan = BinaryPattern BO_LE"
| "pattern_of Kind_CXX_GreaterThanToGreaterOrEqual = BinaryPattern BO_GT"
| "pattern_of Kind_CXX_GreaterOrEqualToGreaterThan = BinaryPattern BO_GE"
| "pattern_of Kind_CXX_EqualToNotEqual = BinaryPattern BO_EQ"
| "pattern_of Kind_CXX_NotEqualToEqual = BinaryPattern BO_NE"
| "pattern_of Kind_CXX_GreaterThanToLessOrEqual = BinaryPattern BO_GT"
| "pattern_of Kind_CXX_GreaterOrEqualToLessThan = BinaryPattern BO_GE"
| "pattern_of Kind_CXX_LessThanToGreaterOrEqual = BinaryPattern BO_LT"
| "pattern_of Kind_CXX_LessOrEqualToGreaterThan = BinaryPattern BO_LE"
| "pattern_of Kind_CXX_AddToSub = BinaryPattern BO_Add"
| "pattern_of Kind_CXX_AddAssignToSubAssign = BinaryPattern BO_AddAssign"
| "pattern_of Kind_CXX_PreIncToPreDec = UnaryPattern UO_PreInc"
| "pattern_of Kind_CXX_PostIncToPostDec = UnaryPattern UO_PostInc"
| "pattern_of Kind_CXX_SubToAdd = BinaryPattern BO_Sub"
| "pattern_of Kind_CXX_SubAssignToAddAssign = BinaryPattern BO_SubAssign"
| "pattern_of Kind_CXX_PreDecToPreInc = UnaryPattern UO_PreDec"
| "pattern_of Kind_CXX_PostDecToPostInc = UnaryPattern UO_PostDec"
| "pattern_of Kind_CXX_MulToDiv = BinaryPattern BO_Mul"
| "pattern_of Kind_CXX_MulAssignToDivAssign = BinaryPattern BO_MulAssign"
| "pattern_of Kind_CXX_DivToMul = BinaryPattern BO_Div"
| "pattern_of Kind_CXX_DivAssignToMulAssign = BinaryPattern BO_DivAssign"
| "pattern_of Kind_CXX_RemToDiv = BinaryPattern BO_Rem"
| "pattern_of Kind_CXX_RemAssignToDivAssign = BinaryPattern BO_RemAssign"
| "pattern_of Kind_CXX_BitwiseNotToNoop = UnaryPattern UO_Not"
| "pattern_of Kind_CXX_UnaryMinusToNoop = UnaryPattern UO_Minus"
| "pattern_of Kind_CXX_LShiftToRShift = BinaryPattern BO_Shl"
| "pattern_of Kind_CXX_LShiftAssignToRShiftAssign = BinaryPattern BO_ShlAssign"
| "pattern_of Kind_CXX_RShiftToLShift = BinaryPattern BO_Shr"
| "pattern_of Kind_CXX_RShiftAssignToLShiftAssign = BinaryPattern BO_ShrAssign"
| "pattern_of Kind_CXX_Bitwise_AndToOr = BinaryPattern BO_And"
| "pattern_of Kind_CXX_Bitwise_AndAssignToOrAssign = BinaryPattern BO_AndAssign"
| "pattern_of Kind_CXX_Bitwise_OrToAnd = BinaryPattern BO_Or"
| "pattern_of Kind_CXX_Bitwise_OrAssignToAndAssign = BinaryPattern BO_OrAssign"
| "pattern_of Kind_CXX_Bitwise_XorToOr = BinaryPattern BO_Xor"
| "pattern_of Kind_CXX_Bitwise_XorAssignToOrAssign = BinaryPattern BO_XorAssign"
| "pattern_of Kind_CXX_AssignConst = BinaryPattern BO_Assign"
| "pattern_of Kind_CXX_InitConst = InitPattern"
| "pattern_of Kind_CXX_Logical_AndToOr = BinaryPattern BO_LAnd"
| "pattern_of Kind_CXX_Logical_OrToAnd = BinaryPattern BO_LOr"
| "pattern_of Kind_CXX_RemoveNegation = UnaryPattern UO_LNot"
| "pattern_of Kind_InvalidKind = NoPattern"

definition find_pattern ::
  "visitor_pattern \<Rightarrow> clang_source_manager \<Rightarrow> clang_location \<Rightarrow> ast_node list \<Rightarrow> ast_expr option result" where
  "find_pattern pat sm loc nodes =
     (case pat of
        BinaryPattern op \<Rightarrow> traverse (VisitBinaryOperator op loc) nodes None
      | UnaryPattern op \<Rightarrow> traverse (VisitUnaryOperator op loc) nodes None
      | VoidCallPattern \<Rightarrow> traverse (VisitVoidCall loc) nodes None
      | ScalarCallPattern \<Rightarrow> traverse (VisitScalarCall sm loc) nodes None
      | NegationPattern \<Rightarrow> traverse (VisitNegation sm loc) nodes None
      | ScalarPattern \<Rightarrow> traverse VisitScalar nodes None
      | InitPattern \<Rightarrow> traverse (VisitVarDecl loc) nodes None
      | NoPattern \<Rightarrow> Inr None)"

definition findMutantExpression ::
  "mutation_point \<Rightarrow> clang_source_manager \<Rightarrow> clang_location \<Rightarrow> clang_decl \<Rightarrow> ast_expr option result" where
  "findMutantExpression p sm loc decl =
     find_pattern (pattern_of (mutatorKind (point_mutator p))) sm loc (decl_nodes decl)"

text \<open>The end of the mutated text.\<close>

definition mutant_end :: "clang_ast \<Rightarrow> clang_location \<Rightarrow> ast_expr \<Rightarrow> int \<times> int" where
  "mutant_end a loc e =
     (let sm = ast_manager a;
          sourceLocationEnd =
            (if getExpansionLineNumber sm (expr_begin e) = getExpansionLineNumber sm loc \<and>
                getExpansionColumnNumber sm (expr_begin e) = getExpansionColumnNumber sm loc
             then expr_end e else loc);
          actual = getLocForEndOfToken a sourceLocationEnd
      in (getExpansionLineNumber sm actual, getExpansionColumnNumber sm actual))"

definition junk_message :: "mutation_point \<Rightarrow> clang_source_manager \<Rightarrow> clang_location \<Rightarrow> int \<times> int \<Rightarrow> string" where
  "junk_message p sm loc eol =
     ''CXXJunkDetector: mutation '' @ [CHR 0x22] @ MutationKindToString (mutatorKind (point_mutator p)) @
     [CHR 0x22] @ '': '' @ filePath (sourceLocation p) @ '':'' @
     string_of_int (getExpansionLineNumber sm loc) @ '':'' @ string_of_int (getExpansionColumnNumber sm loc) @
     '' (end: '' @ string_of_int (fst eol) @ '':'' @ string_of_int (snd eol) @ '')''"

definition storage_debug :: "string \<Rightarrow> ast_storage \<Rightarrow> ast_storage \<times> unit result" where
  "storage_debug message s =
     (case diag_debug message (storage_log s) of (d, r) \<Rightarrow> (s\<lparr>storage_log := d\<rparr>, r))"

text \<open>The answer with the point, whose end location is set when it is not junk.\<close>

definition isJunk ::
  "storage_environment \<Rightarrow> mutation_point \<Rightarrow> ast_storage \<Rightarrow> ast_storage \<times> (bool \<times> mutation_point) result" where
  "isJunk env p =
     (if isNull (sourceLocation p) then st_return (True, p)
      else
        st_bind (findAST env (sourceLocation p)) (\<lambda>found.
        case found of
          None \<Rightarrow> st_return (True, p)
        | Some u \<Rightarrow>
            st_bind (st_lift (unit_getLocation (absolute env) u (sourceLocation p))) (\<lambda>loc.
            st_bind (st_lift (unit_isInSystemHeader u loc)) (\<lambda>sys.
            if sys then st_return (True, p)
            else
              st_bind (st_lift (getDecl u loc)) (\<lambda>decl.
              case decl of
                None \<Rightarrow> st_return (True, p)
              | Some d \<Rightarrow>
                  st_bind (st_lift (the_ast u)) (\<lambda>a.
                  st_bind (st_lift (findMutantExpression p (ast_manager a) loc d)) (\<lambda>e.
                  case e of
                    None \<Rightarrow> st_return (True, p)
                  | Some e \<Rightarrow>
                      let eol = mutant_end a loc e
                      in st_bind (storage_debug (junk_message p (ast_manager a) loc eol)) (\<lambda>_.
                         st_return (False, setEndLocation (fst eol) (snd eol) p)))))))))"

text \<open>\<open>JunkMutationFilter::shouldSkip\<close>, as the driver's filters are: the point it keeps.\<close>

definition Junk_shouldSkip ::
  "storage_environment \<Rightarrow> mutation_point \<Rightarrow> ast_storage \<Rightarrow> ast_storage \<times> mutation_point option result" where
  "Junk_shouldSkip env p = st_bind (isJunk env p) (\<lambda>(skip, p'). st_return (if skip then None else Some p'))"

section \<open>Tables of operators\<close>

definition BinaryMutations :: "(binary_opcode \<times> mutator_kind \<times> binary_opcode) list" where
  "BinaryMutations = [
     (BO_Add, Kind_CXX_AddToSub, BO_Sub),
     (BO_Sub, Kind_CXX_SubToAdd, BO_Add),
     (BO_Mul, Kind_CXX_MulToDiv, BO_Div),
     (BO_Div, Kind_CXX_DivToMul, BO_Mul),
     (BO_Rem, Kind_CXX_RemToDiv, BO_Div),
     (BO_AddAssign, Kind_CXX_AddAssignToSubAssign, BO_SubAssign),
     (BO_SubAssign, Kind_CXX_SubAssignToAddAssign, BO_AddAssign),
     (BO_MulAssign, Kind_CXX_MulAssignToDivAssign, BO_DivAssign),
     (BO_DivAssign, Kind_CXX_DivAssignToMulAssign, BO_MulAssign),
     (BO_RemAssign, Kind_CXX_RemAssignToDivAssign, BO_DivAssign),
     (BO_EQ, Kind_CXX_EqualToNotEqual, BO_NE),
     (BO_NE, Kind_CXX_NotEqualToEqual, BO_EQ),
     (BO_GT, Kind_CXX_GreaterThanToLessOrEqual, BO_LE),
     (BO_LT, Kind_CXX_LessThanToGreaterOrEqual, BO_GE),
     (BO_GE, Kind_CXX_GreaterOrEqualToLessThan, BO_LT),
     (BO_LE, Kind_CXX_LessOrEqualToGreaterThan, BO_GT),
     (BO_GT, Kind_CXX_GreaterThanToGreaterOrEqual, BO_GE),
     (BO_LT, Kind_CXX_LessThanToLessOrEqual, BO_LE),
     (BO_GE, Kind_CXX_GreaterOrEqualToGreaterThan, BO_GT),
     (BO_LE, Kind_CXX_LessOrEqualToLessThan, BO_LT),
     (BO_And, Kind_CXX_Bitwise_AndToOr, BO_Or),
     (BO_Or, Kind_CXX_Bitwise_OrToAnd, BO_And),
     (BO_Xor, Kind_CXX_Bitwise_XorToOr, BO_Or),
     (BO_Shl, Kind_CXX_LShiftToRShift, BO_Shr),
     (BO_Shr, Kind_CXX_RShiftToLShift, BO_Shl),
     (BO_AndAssign, Kind_CXX_Bitwise_AndAssignToOrAssign, BO_OrAssign),
     (BO_OrAssign, Kind_CXX_Bitwise_OrAssignToAndAssign, BO_AndAssign),
     (BO_XorAssign, Kind_CXX_Bitwise_XorAssignToOrAssign, BO_OrAssign),
     (BO_ShlAssign, Kind_CXX_LShiftAssignToRShiftAssign, BO_ShrAssign),
     (BO_ShrAssign, Kind_CXX_RShiftAssignToLShiftAssign, BO_ShlAssign),
     (BO_LAnd, Kind_CXX_Logical_AndToOr, BO_LOr),
     (BO_LOr, Kind_CXX_Logical_OrToAnd, BO_LAnd)]"

definition UnaryMutations :: "(unary_opcode \<times> mutator_kind) list" where
  "UnaryMutations = [
     (UO_LNot, Kind_CXX_RemoveNegation),
     (UO_Minus, Kind_CXX_UnaryMinusToNoop)]"

section \<open>What the visitors find\<close>

definition around :: "clang_source_manager \<Rightarrow> clang_location \<Rightarrow> ast_expr \<Rightarrow> bool" where
  "around sm loc e \<longleftrightarrow>
     expr_begin e \<noteq> 0 \<and> expr_end e \<noteq> 0 \<and> isFileID sm loc \<and> getFileID sm loc = getFileID sm (expr_begin e) \<and>
     getFileOffset sm (expr_begin e) \<le> getFileOffset sm loc \<and> getFileOffset sm loc \<le> getFileOffset sm (expr_end e)"

definition is_call_at :: "clang_location \<Rightarrow> ast_expr \<Rightarrow> bool" where
  "is_call_at loc e \<longleftrightarrow>
     (\<exists>k. expr_kind e = CallExpr k \<and>
        (expr_begin e = loc \<or> k = CXXMemberCall \<and> exprLoc e = loc \<or> k = CXXOperatorCall \<and> operatorLoc e = loc))"

definition is_call :: "ast_expr \<Rightarrow> bool" where
  "is_call e \<longleftrightarrow> (case expr_kind e of CallExpr k \<Rightarrow> True | _ \<Rightarrow> False)"

definition expr_if :: "(ast_expr \<Rightarrow> bool) \<Rightarrow> ast_node \<Rightarrow> ast_expr option" where
  "expr_if P n = (case n of Expr e \<Rightarrow> if P e then Some e else None | Var v \<Rightarrow> None)"

text \<open>The expression a node offers for a pattern at a place.\<close>

fun candidate :: "visitor_pattern \<Rightarrow> clang_source_manager \<Rightarrow> clang_location \<Rightarrow> ast_node \<Rightarrow> ast_expr option" where
  "candidate (BinaryPattern op) sm loc = expr_if (\<lambda>e. expr_kind e = BinaryOperator op \<and> operatorLoc e = loc)"
| "candidate (UnaryPattern op) sm loc = expr_if (\<lambda>e. expr_kind e = UnaryOperator op \<and> operatorLoc e = loc)"
| "candidate VoidCallPattern sm loc = expr_if (\<lambda>e. expr_type e = VoidType \<and> is_call_at loc e)"
| "candidate ScalarCallPattern sm loc = expr_if (\<lambda>e. is_call e \<and> expr_type e = RealType \<and> around sm loc e)"
| "candidate NegationPattern sm loc = expr_if (\<lambda>e. expr_kind e = UnaryOperator UO_LNot \<and> around sm loc e)"
| "candidate ScalarPattern sm loc = expr_if (\<lambda>e. isMutableExpr e \<noteq> None)"
| "candidate InitPattern sm loc = (\<lambda>n. case n of Expr e \<Rightarrow> None
     | Var v \<Rightarrow> if \<not> var_declaration_only v \<and> \<not> var_const v \<and> var_location v = loc then var_init v else None)"
| "candidate NoPattern sm loc = (\<lambda>n. None)"

definition candidates ::
  "visitor_pattern \<Rightarrow> clang_source_manager \<Rightarrow> clang_location \<Rightarrow> ast_node list \<Rightarrow> ast_expr list" where
  "candidates pat sm loc nodes = List.map_filter (candidate pat sm loc) nodes"

definition first_of :: "'a list \<Rightarrow> 'a option" where
  "first_of xs = (case xs of [] \<Rightarrow> None | x # _ \<Rightarrow> Some x)"

text \<open>The last of the smallest, kept while going through the list.\<close>

fun smallest_from :: "('a \<Rightarrow> 32 word) \<Rightarrow> 'a option \<Rightarrow> 'a list \<Rightarrow> 'a option" where
  "smallest_from len best [] = best"
| "smallest_from len best (x # xs) =
     smallest_from len (case best of None \<Rightarrow> Some x | Some b \<Rightarrow> if len x \<le> len b then Some x else Some b) xs"

lemma smallest_from_spec:
  "case smallest_from len best xs of
     None \<Rightarrow> best = None \<and> xs = []
   | Some m \<Rightarrow> (m \<in> set xs \<or> best = Some m) \<and> (\<forall>x \<in> set xs. len m \<le> len x) \<and>
       (\<forall>b. best = Some b \<longrightarrow> len m \<le> len b)"
proof (induction xs arbitrary: best)
  case (Cons x xs)
  let ?b = "case best of None \<Rightarrow> Some x | Some b \<Rightarrow> if len x \<le> len b then Some x else Some b"
  show ?case using Cons.IH [of ?b]
    by (cases best) (auto split: option.splits if_splits)
qed (auto split: option.split)

lemma traverse_first:
  assumes "\<And>n. visit n None = Inr (case c n of None \<Rightarrow> (None, True) | Some e \<Rightarrow> (Some e, False))"
  shows "traverse visit nodes None = Inr (first_of (List.map_filter c nodes))"
  by (induction nodes) (auto simp: assms first_of_def List.map_filter_simps split: option.split)

lemma traverse_fold:
  assumes "\<And>n s. visit n s = Inr (step s n, True)"
  shows "traverse visit nodes s = Inr (foldl step s nodes)"
  by (induction nodes arbitrary: s) (auto simp: assms)

lemma visit_range_eq:
  assumes "loc \<noteq> 0"
  shows "visitRangeWithASTExpr sm loc e best = Inr (if around sm loc e then
    (case best of None \<Rightarrow> Some e | Some b \<Rightarrow> if range_length sm e \<le> range_length sm b then Some e else Some b) else best)"
  using assms
  by (auto simp: visitRangeWithASTExpr_def locationInRange_def around_def isRangeSmallerThanRange_def Let_def
      split: option.split)

lemma fold_smallest:
  assumes "\<And>s n. step s n = (case c n of None \<Rightarrow> s | Some e \<Rightarrow>
    (case s of None \<Rightarrow> Some e | Some b \<Rightarrow> if len e \<le> len b then Some e else Some b))"
  shows "foldl step s nodes = smallest_from len s (List.map_filter c nodes)"
  by (induction nodes arbitrary: s) (auto simp: assms List.map_filter_simps split: option.split)

lemma fold_last:
  assumes "\<And>s n. step s n = (case c n of None \<Rightarrow> s | Some e \<Rightarrow> Some e)"
  shows "foldl step s nodes = (case List.map_filter c nodes of [] \<Rightarrow> s | e # es \<Rightarrow> Some (last (e # es)))"
  by (induction nodes arbitrary: s) (auto simp: assms List.map_filter_simps split: option.split list.split)

text \<open>The visitors' results over the candidates.\<close>

lemma find_pattern_candidates:
  assumes "loc \<noteq> 0"
  shows "find_pattern pat sm loc nodes = Inr (case pat of
      ScalarPattern \<Rightarrow> (case candidates pat sm loc nodes of [] \<Rightarrow> None | e # es \<Rightarrow> Some (last (e # es)))
    | ScalarCallPattern \<Rightarrow> smallest_from (range_length sm) None (candidates pat sm loc nodes)
    | NegationPattern \<Rightarrow> smallest_from (range_length sm) None (candidates pat sm loc nodes)
    | _ \<Rightarrow> first_of (candidates pat sm loc nodes))"
proof (cases pat)
  case (BinaryPattern op)
  have v: "VisitBinaryOperator op loc n None =
      Inr (case candidate pat sm loc n of None \<Rightarrow> (None, True) | Some e \<Rightarrow> (Some e, False))" for n
    by (auto simp: BinaryPattern VisitBinaryOperator_def expr_if_def split: ast_node.split expr_kind.split)
  from traverse_first [of "VisitBinaryOperator op loc" "candidate pat sm loc" nodes, OF v] show ?thesis
    by (simp add: BinaryPattern find_pattern_def candidates_def)
next
  case (UnaryPattern op)
  have v: "VisitUnaryOperator op loc n None =
      Inr (case candidate pat sm loc n of None \<Rightarrow> (None, True) | Some e \<Rightarrow> (Some e, False))" for n
    by (auto simp: UnaryPattern VisitUnaryOperator_def expr_if_def split: ast_node.split expr_kind.split)
  from traverse_first [of "VisitUnaryOperator op loc" "candidate pat sm loc" nodes, OF v] show ?thesis
    by (simp add: UnaryPattern find_pattern_def candidates_def)
next
  case VoidCallPattern
  have v: "VisitVoidCall loc n None =
      Inr (case candidate pat sm loc n of None \<Rightarrow> (None, True) | Some e \<Rightarrow> (Some e, False))" for n
    by (auto simp: VoidCallPattern VisitVoidCall_def validCallExpr_def isVoidCall_def is_call_at_def expr_if_def
        split: ast_node.split expr_kind.split call_kind.split)
  from traverse_first [of "VisitVoidCall loc" "candidate pat sm loc" nodes, OF v] show ?thesis
    by (simp add: VoidCallPattern find_pattern_def candidates_def)
next
  case InitPattern
  have v: "VisitVarDecl loc n None =
      Inr (case candidate pat sm loc n of None \<Rightarrow> (None, True) | Some e \<Rightarrow> (Some e, False))" for n
    by (auto simp: InitPattern VisitVarDecl_def split: ast_node.split option.split)
  from traverse_first [of "VisitVarDecl loc" "candidate pat sm loc" nodes, OF v] show ?thesis
    by (simp add: InitPattern find_pattern_def candidates_def)
next
  case ScalarCallPattern
  let ?step = "\<lambda>s n. case candidate pat sm loc n of None \<Rightarrow> s | Some e \<Rightarrow>
    (case s of None \<Rightarrow> Some e | Some b \<Rightarrow> if range_length sm e \<le> range_length sm b then Some e else Some b)"
  have v: "VisitScalarCall sm loc n s = Inr (?step s n, True)" for n s
    by (auto simp: ScalarCallPattern VisitScalarCall_def handleCallExpr_def visit_range_eq [OF assms] expr_if_def
        is_call_def split: ast_node.split expr_kind.split option.split)
  from traverse_fold [of "VisitScalarCall sm loc" ?step nodes None, OF v] fold_smallest [where step = ?step and c = "candidate pat sm loc" and len = "range_length sm" and s = None
      and nodes = nodes, OF refl]
  show ?thesis by (simp add: ScalarCallPattern find_pattern_def candidates_def)
next
  case NegationPattern
  let ?step = "\<lambda>s n. case candidate pat sm loc n of None \<Rightarrow> s | Some e \<Rightarrow>
    (case s of None \<Rightarrow> Some e | Some b \<Rightarrow> if range_length sm e \<le> range_length sm b then Some e else Some b)"
  have v: "VisitNegation sm loc n s = Inr (?step s n, True)" for n s
    by (auto simp: NegationPattern VisitNegation_def visit_range_def visit_range_eq [OF assms] expr_if_def
        split: ast_node.split option.split)
  from traverse_fold [of "VisitNegation sm loc" ?step nodes None, OF v] fold_smallest [where step = ?step and c = "candidate pat sm loc" and len = "range_length sm" and s = None
      and nodes = nodes, OF refl]
  show ?thesis by (simp add: NegationPattern find_pattern_def candidates_def)
next
  case ScalarPattern
  let ?step = "\<lambda>s n. case candidate pat sm loc n of None \<Rightarrow> s | Some e \<Rightarrow> Some e"
  have v: "VisitScalar n s = Inr (?step s n, True)" for n s
    by (auto simp: ScalarPattern VisitScalar_def expr_if_def split: ast_node.split)
  from traverse_fold [of "VisitScalar" ?step nodes None, OF v] fold_last [where step = ?step and c = "candidate pat sm loc" and s = None and nodes = nodes, OF refl]
  show ?thesis by (simp add: ScalarPattern find_pattern_def candidates_def)
next
  case NoPattern
  then show ?thesis
    by (simp add: find_pattern_def candidates_def first_of_def List.map_filter_def)
qed

text \<open>Whether some node of a declaration offers the expression.\<close>

definition offers :: "visitor_pattern \<Rightarrow> clang_source_manager \<Rightarrow> clang_location \<Rightarrow> clang_decl \<Rightarrow> ast_expr \<Rightarrow> bool" where
  "offers pat sm loc d e \<longleftrightarrow> (\<exists>n \<in> set (decl_nodes d). candidate pat sm loc n = Some e)"

lemma offers_candidates: "e \<in> set (candidates pat sm loc (decl_nodes d)) \<longleftrightarrow> offers pat sm loc d e"
  by (force simp: candidates_def offers_def List.map_filter_def)

lemma find_pattern_spec:
  assumes "loc \<noteq> 0"
  shows "case find_pattern pat sm loc (decl_nodes d) of
      Inl f \<Rightarrow> False
    | Inr None \<Rightarrow> \<not> (\<exists>e. offers pat sm loc d e)
    | Inr (Some e) \<Rightarrow> offers pat sm loc d e \<and>
        (pat = ScalarCallPattern \<or> pat = NegationPattern \<longrightarrow>
          (\<forall>e'. offers pat sm loc d e' \<longrightarrow> range_length sm e \<le> range_length sm e'))"
proof -
  note small = smallest_from_spec [where len = "range_length sm" and best = None
      and xs = "candidates pat sm loc (decl_nodes d)"]
  note o = offers_candidates [symmetric]
  show ?thesis unfolding find_pattern_candidates [OF assms] o
  proof (cases "pat = ScalarCallPattern \<or> pat = NegationPattern")
    case True
    then show "case Inr (case pat of
        ScalarPattern \<Rightarrow> (case candidates pat sm loc (decl_nodes d) of [] \<Rightarrow> None | e # es \<Rightarrow> Some (last (e # es)))
      | ScalarCallPattern \<Rightarrow> smallest_from (range_length sm) None (candidates pat sm loc (decl_nodes d))
      | NegationPattern \<Rightarrow> smallest_from (range_length sm) None (candidates pat sm loc (decl_nodes d))
      | _ \<Rightarrow> first_of (candidates pat sm loc (decl_nodes d))) of
      Inl f \<Rightarrow> False
    | Inr None \<Rightarrow> \<not> (\<exists>e. e \<in> set (candidates pat sm loc (decl_nodes d)))
    | Inr (Some e) \<Rightarrow> e \<in> set (candidates pat sm loc (decl_nodes d)) \<and>
        (pat = ScalarCallPattern \<or> pat = NegationPattern \<longrightarrow>
          (\<forall>e'. e' \<in> set (candidates pat sm loc (decl_nodes d)) \<longrightarrow> range_length sm e \<le> range_length sm e'))"
      using small by (auto split: option.splits)
  next
    case False
    have l: "last (e # es) \<in> set (e # es)" for e :: ast_expr and es by (rule last_in_set) simp
    show "case Inr (case pat of
        ScalarPattern \<Rightarrow> (case candidates pat sm loc (decl_nodes d) of [] \<Rightarrow> None | e # es \<Rightarrow> Some (last (e # es)))
      | ScalarCallPattern \<Rightarrow> smallest_from (range_length sm) None (candidates pat sm loc (decl_nodes d))
      | NegationPattern \<Rightarrow> smallest_from (range_length sm) None (candidates pat sm loc (decl_nodes d))
      | _ \<Rightarrow> first_of (candidates pat sm loc (decl_nodes d))) of
      Inl f \<Rightarrow> False
    | Inr None \<Rightarrow> \<not> (\<exists>e. e \<in> set (candidates pat sm loc (decl_nodes d)))
    | Inr (Some e) \<Rightarrow> e \<in> set (candidates pat sm loc (decl_nodes d)) \<and>
        (pat = ScalarCallPattern \<or> pat = NegationPattern \<longrightarrow>
          (\<forall>e'. e' \<in> set (candidates pat sm loc (decl_nodes d)) \<longrightarrow> range_length sm e \<le> range_length sm e'))"
      using False l
      by (cases pat; cases "candidates pat sm loc (decl_nodes d)") (auto simp: first_of_def)
  qed
qed

section \<open>Properties\<close>

text \<open>The integer constants of a declaration that are returned or are an operand.\<close>

definition mutable_constants :: "clang_decl \<Rightarrow> ast_expr list" where
  "mutable_constants d = List.map_filter (\<lambda>n. case n of
       Expr e \<Rightarrow>
         if expr_kind e = IntegerLiteral \<and>
            (\<exists>q \<in> set (expr_parents e). case q of ReturnStmtParent l \<Rightarrow> True | BinaryOperatorParent op l \<Rightarrow> True | _ \<Rightarrow> False)
         then Some e else None
     | Var v \<Rightarrow> None) (decl_nodes d)"

lemma first_mutable_parent_Some:
  "first_mutable_parent ps \<noteq> None \<longleftrightarrow>
     (\<exists>q \<in> set ps. case q of ReturnStmtParent l \<Rightarrow> True | BinaryOperatorParent op l \<Rightarrow> True | _ \<Rightarrow> False)"
  by (induction ps) (auto split: parent_node.splits)

lemma scalar_candidates: "candidates ScalarPattern sm loc (decl_nodes d) = mutable_constants d"
proof -
  have m: "isMutableExpr e \<noteq> None \<longleftrightarrow> expr_kind e = IntegerLiteral \<and>
      (\<exists>q \<in> set (expr_parents e). case q of ReturnStmtParent l \<Rightarrow> True | BinaryOperatorParent op l \<Rightarrow> True | _ \<Rightarrow> False)"
    for e
    unfolding isMutableExpr_def first_mutable_parent_Some [symmetric] by simp
  have "candidate ScalarPattern sm loc = (\<lambda>n. case n of
       Expr e \<Rightarrow>
         if expr_kind e = IntegerLiteral \<and>
            (\<exists>q \<in> set (expr_parents e). case q of ReturnStmtParent l \<Rightarrow> True | BinaryOperatorParent op l \<Rightarrow> True | _ \<Rightarrow> False)
         then Some e else None
     | Var v \<Rightarrow> None)"
    unfolding candidate.simps expr_if_def m by (rule refl)
  then show ?thesis by (simp add: candidates_def mutable_constants_def)
qed

lemma pattern_of_scalar: "pattern_of k = ScalarPattern \<longleftrightarrow> k = Kind_ScalarValueMutator"
  by (cases k) simp_all

text \<open>C34. A visitor, except the one for scalar values, finds an expression exactly when the declaration has one
  for the mutator at the place: for an operator, one with the operator's own place there; for negations and
  scalar calls it is a smallest one around the place. The visitor for scalar values finds, whatever the
  place is, the last integer constant of the declaration that is returned or an operand. No assertion of a
  visitor fails.\<close>

theorem visitors_sound_complete:
  assumes "loc \<noteq> 0"
  shows "if mutatorKind (point_mutator p) = Kind_ScalarValueMutator
    then findMutantExpression p sm loc d =
      Inr (if mutable_constants d = [] then None else Some (last (mutable_constants d)))
    else (case findMutantExpression p sm loc d of
      Inl f \<Rightarrow> False
    | Inr None \<Rightarrow> \<not> (\<exists>e. offers (pattern_of (mutatorKind (point_mutator p))) sm loc d e)
    | Inr (Some e) \<Rightarrow> offers (pattern_of (mutatorKind (point_mutator p))) sm loc d e \<and>
        (pattern_of (mutatorKind (point_mutator p)) = ScalarCallPattern \<or>
         pattern_of (mutatorKind (point_mutator p)) = NegationPattern \<longrightarrow>
          (\<forall>e'. offers (pattern_of (mutatorKind (point_mutator p))) sm loc d e' \<longrightarrow>
            range_length sm e \<le> range_length sm e')))"
proof (cases "mutatorKind (point_mutator p) = Kind_ScalarValueMutator")
  case True
  have "(case cs of [] \<Rightarrow> None | e # es \<Rightarrow> Some (last (e # es))) = (if cs = [] then None else Some (last cs))"
    for cs :: "ast_expr list"
    by (cases cs) simp_all
  then show ?thesis
    using find_pattern_candidates [OF assms, of ScalarPattern sm "decl_nodes d"]
    by (simp add: True findMutantExpression_def scalar_candidates)
next
  case False
  then show ?thesis
    unfolding findMutantExpression_def if_not_P [OF False] by (intro find_pattern_spec [OF assms])
qed

definition sample_expr :: "expr_kind \<Rightarrow> nat \<Rightarrow> nat \<Rightarrow> nat \<Rightarrow> ast_expr" where
  "sample_expr k b e l =
     \<lparr>expr_kind = k, expr_begin = b, expr_end = e, operatorLoc = l, exprLoc = l, expr_type = RealType,
      expr_parents = []\<rparr>"

definition add_point :: mutation_point where
  "add_point =
     MutationPoint (\<lambda>p. True) mk_AddToSub None 0 sample_module
       \<lparr>in_function = ''f'', in_block = ''entry'', at_inst = ''a''\<rparr>
       (sample_inst ''a'' (BinaryOp ''add'' (ArgRef 0) (ArgRef 1)) 7)"

definition plus_decl :: clang_decl where
  "plus_decl = sample_decl 20 40 [Expr (sample_expr (BinaryOperator BO_Add) 25 30 27)]"

lemma visitors_sound_complete_witness:
  "findMutantExpression add_point sample_manager 27 plus_decl =
     Inr (Some (sample_expr (BinaryOperator BO_Add) 25 30 27)) \<and>
   findMutantExpression (add_point\<lparr>point_mutator := mk_ScalarValueMutator\<rparr>) sample_manager 27 plus_decl = Inr None"
proof -
  have k: "pattern_of (mutatorKind (point_mutator add_point)) = BinaryPattern BO_Add"
    by (simp add: add_point_def MutationPoint_def Let_def mk_mutator_defs)
  have n: "mutatorKind (point_mutator add_point) \<noteq> Kind_ScalarValueMutator"
    by (simp add: add_point_def MutationPoint_def Let_def mk_mutator_defs)
  have s: "mutatorKind mk_ScalarValueMutator = Kind_ScalarValueMutator" by (simp add: mk_mutator_defs)
  have o: "offers (BinaryPattern BO_Add) sample_manager 27 plus_decl e \<longleftrightarrow>
      e = sample_expr (BinaryOperator BO_Add) 25 30 27" for e
    by (auto simp: offers_def plus_decl_def sample_decl_def expr_if_def sample_expr_def)
  show ?thesis
    using visitors_sound_complete [of 27 add_point sample_manager plus_decl]
      visitors_sound_complete [of 27 "add_point\<lparr>point_mutator := mk_ScalarValueMutator\<rparr>" sample_manager plus_decl]
    unfolding k o
    by (simp add: n s mutable_constants_def plus_decl_def sample_decl_def List.map_filter_def sample_expr_def
        split: sum.splits option.splits)
qed

text \<open>The visitor for scalar values never looks at the place: the last constant of the function that can be
  mutated counts for every place in it.\<close>

lemma scalar_values_ignore_place:
  "find_pattern (pattern_of Kind_ScalarValueMutator) sm loc nodes =
   find_pattern (pattern_of Kind_ScalarValueMutator) sm loc' nodes"
  by (simp add: find_pattern_def)

text \<open>The junk detector has a case for every mutator the factory registers, and looks for the very
  operator the tables of mutations of the syntax tree give for the mutator.\<close>

lemma junk_detector_knows_all_mutators:
  "list_all (\<lambda>(i, m). pattern_of (mutatorKind m) \<noteq> NoPattern) registered_mutators \<and>
   list_all (\<lambda>(op, k, op'). pattern_of k = BinaryPattern op) BinaryMutations \<and>
   list_all (\<lambda>(op, k). pattern_of k = UnaryPattern op) UnaryMutations"
  by (simp add: registered_mutators_def BinaryMutations_def UnaryMutations_def mk_mutator_defs)

text \<open>C36. A point that is not junk has a location, in a function of the unit's tree that has an expression
  for its mutator there (for a scalar value: anywhere in the function), and nothing of the point changes but the end of its text, which comes from
  this expression.\<close>

theorem kept_point_has_expression:
  assumes "isJunk env p s = (s', Inr (False, p'))"
  shows "\<not> isNull (sourceLocation p) \<and>
    (\<exists>s1 u a loc d e.
      findAST env (sourceLocation p) s = (s1, Inr (Some u)) \<and> unit_ast u = Some a \<and>
      unit_getLocation (absolute env) u (sourceLocation p) = Inr loc \<and>
      \<not> inSystemHeader (ast_manager a) loc \<and> getDecl u loc = Inr (Some d) \<and>
      offers (pattern_of (mutatorKind (point_mutator p))) (ast_manager a) loc d e \<and>
      p' = setEndLocation (fst (mutant_end a loc e)) (snd (mutant_end a loc e)) p)"
proof -
  have n: "\<not> isNull (sourceLocation p)"
    using assms by (auto simp: isJunk_def st_return_def)
  obtain s1 u loc d a e where f: "findAST env (sourceLocation p) s = (s1, Inr (Some u))"
    "unit_getLocation (absolute env) u (sourceLocation p) = Inr loc"
    "unit_isInSystemHeader u loc = Inr False" "getDecl u loc = Inr (Some d)" "the_ast u = Inr a"
    "findMutantExpression p (ast_manager a) loc d = Inr (Some e)"
    "p' = setEndLocation (fst (mutant_end a loc e)) (snd (mutant_end a loc e)) p"
    using assms n
    by (auto simp: isJunk_def st_bind_Inr st_return_def st_lift_def Let_def split: option.splits if_splits)
  have a: "unit_ast u = Some a" using f(5) by (simp add: the_ast_def split: option.splits)
  have h: "\<not> inSystemHeader (ast_manager a) loc" using f(3,5) by (simp add: unit_isInSystemHeader_def)
  have "loc \<noteq> 0"
    using f(2) by (auto simp: unit_getLocation_def Let_def cxx_assert_def split: option.splits if_splits)
  then have "offers (pattern_of (mutatorKind (point_mutator p))) (ast_manager a) loc d e"
    using find_pattern_spec [of loc "pattern_of (mutatorKind (point_mutator p))" "ast_manager a" d] f(6)
    by (simp add: findMutantExpression_def)
  with n f(1,2,4,7) a h show ?thesis by blast
qed

text \<open>A file for which Clang gives no tree leaves a unit with a null pointer in the storage; the first
  point in this file that is not without location makes the detector dereference it.\<close>

lemma missing_tree_dereferenced:
  assumes "\<not> isNull (sourceLocation p)" "file_exists env (unitFilePath (sourceLocation p))"
    and "storage_current env s"
    and "fst (parse_file env (parse_args env (compilationDatabase s) (unitFilePath (sourceLocation p)))) = None"
  shows "snd (isJunk env p s) = Inl (NullPointer ''ast'')"
proof -
  obtain s1 where s1: "findAST_file env (unitFilePath (sourceLocation p)) s =
      (s1, Inr (unit_for env (compilationDatabase s) (unitFilePath (sourceLocation p))))"
    using findAST_file_step [OF assms(3)] by blast
  have "unit_ast (unit_for env (compilationDatabase s) (unitFilePath (sourceLocation p))) = None"
    by (simp add: unit_for_def ThreadSafeASTUnit_def assms(4))
  then show ?thesis using assms(1,2)
    by (simp add: isJunk_def findAST_def st_bind_def s1 st_return_def st_lift_def unit_getLocation_def
        findFileEntry_def the_ast_def)
qed

text \<open>
  The detector is a cached lookup too: on whatever thread and after whatever other points it is asked,
  the answer for a point depends on the compilation database only.
\<close>

lemma storage_debug_settled [settled_intros]:
  "settled (storage_current env) compilationDatabase (storage_debug message)"
  by (rule settled_steady_intro [where answer = "\<lambda>db. Inr ()"], rule steadyI)
    (auto simp: storage_debug_def storage_current_def diag_debug_def)

lemma Junk_shouldSkip_settled: "settled (storage_current env) compilationDatabase (Junk_shouldSkip env p)"
  unfolding Junk_shouldSkip_def isJunk_def Let_def by (intro settled_intros)

interpretation junk_cache: cached_lookup "Junk_shouldSkip env" "storage_current env" compilationDatabase
    "\<lambda>p db. snd (Junk_shouldSkip env p (empty_storage db))"
  for env
  by unfold_locales (rule settled_answer [OF Junk_shouldSkip_settled]; simp)

text \<open>C37. The answers about any points, asked in any order and on any threads, are those a fresh detector gives
  about each point alone: they depend on the compilation database only.\<close>

theorem junk_answers_in_any_order:
  assumes "storage_current env s"
  shows "\<exists>s'. ask_all (Junk_shouldSkip env) ps s =
      (s', map (\<lambda>p. snd (Junk_shouldSkip env p (empty_storage (compilationDatabase s)))) ps) \<and>
    storage_current env s'"
  using junk_cache.ask_all_answers [OF assms, of ps] by blast

lemma add_point_location:
  "\<not> isNull (sourceLocation add_point)" "unitFilePath (sourceLocation add_point) = ''a.cpp''"
  "filePath (sourceLocation add_point) = ''a.cpp''"
  by (simp_all add: add_point_def MutationPoint_def Let_def locationFromInstruction_def sample_defs isNull_def
      absoluteFilePath_def location_unit_def)

definition sample_storage :: ast_storage where
  "sample_storage =
     \<lparr>compilationDatabase = createFromClangCompDB (\<lambda>p. True) None [] [], astUnits = [], storage_log = new_diagnostics, clang_runs = []\<rparr>"

lemma missing_tree_dereferenced_witness:
  "snd (isJunk sample_storage_environment add_point sample_storage) = Inl (NullPointer ''ast'')"
proof (rule missing_tree_dereferenced [OF add_point_location(1)])
  show "file_exists sample_storage_environment (unitFilePath (sourceLocation add_point))"
    by (simp add: sample_storage_environment_def)
  show "storage_current sample_storage_environment sample_storage"
    by (simp add: storage_current_def sample_storage_def new_diagnostics_def)
  show "fst (parse_file sample_storage_environment (parse_args sample_storage_environment
      (compilationDatabase sample_storage) (unitFilePath (sourceLocation add_point)))) = None"
    by (simp add: sample_storage_environment_def)
qed

definition plus_ast :: clang_ast where
  "plus_ast = (sample_ast [plus_decl])\<lparr>
     fileinfo := [\<lparr>entry_name = ''a.cpp'', entry_realPath = ''a.cpp'', entry_valid = True\<rparr>],
     ast_getLocation := (\<lambda>f l c. 27)\<rparr>"

definition plus_environment :: storage_environment where
  "plus_environment = sample_storage_environment\<lparr>parse_file := (\<lambda>args. (Some plus_ast, False))\<rparr>"

lemma plus_decls: "recordDeclarations (\<lambda>lt. sort_key decl_begin) plus_ast = [plus_decl]"
  by (simp add: recordDeclarations_def Let_def addDecl_def plus_ast_def sample_ast_def plus_decl_def
      sample_decl_def sample_manager_def)

lemma plus_not_junk:
  "\<exists>s'. isJunk plus_environment add_point sample_storage = (s', Inr (False, setEndLocation 27 1 add_point))"
proof -
  let ?u = "\<lparr>unit_ast = Some plus_ast, unit_decls = [plus_decl]\<rparr>"
  let ?e = "sample_expr (BinaryOperator BO_Add) 25 30 27"
  have "storage_current plus_environment sample_storage"
    by (simp add: storage_current_def sample_storage_def new_diagnostics_def)
  moreover have "unit_for plus_environment db f = ?u" for db f
    by (simp add: unit_for_def ThreadSafeASTUnit_def plus_environment_def sample_storage_environment_def plus_decls)
  ultimately obtain s1 where "findAST_file plus_environment ''a.cpp'' sample_storage = (s1, Inr ?u)"
    using findAST_file_step by metis
  then have f: "findAST plus_environment (sourceLocation add_point) sample_storage = (s1, Inr (Some ?u))"
    by (simp add: findAST_def add_point_location st_bind_def st_return_def)
      (simp add: plus_environment_def sample_storage_environment_def)
  have m: "ast_manager plus_ast = sample_manager" by (simp add: plus_ast_def sample_ast_def)
  have l: "unit_getLocation (absolute plus_environment) ?u (sourceLocation add_point) = Inr 27"
    using add_point_location
    by (simp add: unit_getLocation_def findFileEntry_def the_ast_def Let_def plus_ast_def plus_environment_def
        sample_storage_environment_def)
  have h: "unit_isInSystemHeader ?u 27 = Inr False"
    by (simp add: unit_isInSystemHeader_def the_ast_def m) (simp add: sample_manager_def)
  have "lower_bound b [plus_decl] 0 (Suc 0) = (if b plus_decl then 1 else 0)" for b
    by (simp add: lower_bound.simps)
  then have d: "getDecl ?u 27 = Inr (Some plus_decl)"
    by (simp add: getDecl_def the_ast_def m Let_def) (simp add: sample_manager_def plus_decl_def sample_decl_def)
  have k: "mutatorKind (point_mutator add_point) = Kind_CXX_AddToSub"
    by (simp add: add_point_def MutationPoint_def Let_def mk_mutator_defs)
  have e: "findMutantExpression add_point sample_manager 27 plus_decl = Inr (Some ?e)"
    by (simp add: findMutantExpression_def k find_pattern_def plus_decl_def sample_decl_def VisitBinaryOperator_def)
      (auto simp: sample_expr_def VisitBinaryOperator_def)
  have eol: "mutant_end plus_ast 27 ?e = (27, 1)"
    by (simp add: mutant_end_def m Let_def)
      (simp add: plus_ast_def sample_ast_def sample_manager_def sample_expr_def)
  show ?thesis
    by (simp add: isJunk_def add_point_location st_bind_def f st_lift_def l h d the_ast_def m e Let_def eol
        storage_debug_def split: prod.split)
      (simp add: diag_debug_def st_return_def)
qed

lemma kept_point_has_expression_witness:
  "\<exists>s1 u a loc d e. findAST plus_environment (sourceLocation add_point) sample_storage = (s1, Inr (Some u)) \<and>
     unit_ast u = Some a \<and> getDecl u loc = Inr (Some d) \<and> offers (BinaryPattern BO_Add) (ast_manager a) loc d e"
proof -
  obtain s' where s': "isJunk plus_environment add_point sample_storage =
      (s', Inr (False, setEndLocation 27 1 add_point))" using plus_not_junk by blast
  have k: "pattern_of (mutatorKind (point_mutator add_point)) = BinaryPattern BO_Add"
    by (simp add: add_point_def MutationPoint_def Let_def mk_mutator_defs)
  show ?thesis using kept_point_has_expression [OF s'] unfolding k by blast
qed

lemma junk_answers_in_any_order_witness:
  "\<exists>s'. ask_all (Junk_shouldSkip plus_environment) [add_point, add_point] sample_storage =
     (s', [Inr (Some (setEndLocation 27 1 add_point)), Inr (Some (setEndLocation 27 1 add_point))])"
proof -
  have c: "storage_current plus_environment sample_storage"
    and e: "empty_storage (compilationDatabase sample_storage) = sample_storage"
    by (simp_all add: storage_current_def empty_storage_def sample_storage_def new_diagnostics_def)
  obtain s1 where "isJunk plus_environment add_point sample_storage =
      (s1, Inr (False, setEndLocation 27 1 add_point))" using plus_not_junk by blast
  then have "snd (Junk_shouldSkip plus_environment add_point sample_storage) =
      Inr (Some (setEndLocation 27 1 add_point))"
    by (simp add: Junk_shouldSkip_def st_bind_def st_return_def)
  then show ?thesis using junk_answers_in_any_order [OF c, of "[add_point, add_point]"] by (auto simp: e)
qed

end
