(* ===== verification/BitcodeLoading.thy ===== *)
theory BitcodeLoading
  imports Tasks MutationPoints Configuration
begin

text \<open>
  Loading bitcode: \<open>lib/BitcodeLoader.cpp\<close>, the loading tasks of \<open>lib/Parallelization/Tasks\<close> and
  \<open>lib/BitcodeMetadataReader.cpp\<close>. LLVM's parser and the compile units of a module are parameters.
  The tasks run on worker threads: of the log only its effect on the process is kept, a warning ends
  it in strict mode.
\<close>

text \<open>What LLVM and the file system give.\<close>

record bitcode_reader =
  parseBitcodeFile :: "string \<Rightarrow> string + ir_module"
  producer_string :: "string \<Rightarrow> string option"
  read_file :: "string \<Rightarrow> string option"
  debug_compile_units :: "ir_module \<Rightarrow> (string \<times> string \<times> string) list"
  has_debug_metadata :: "ir_module \<Rightarrow> bool"
  module_stem :: "string \<Rightarrow> string"

definition parse_failure :: "bitcode_reader \<Rightarrow> string \<Rightarrow> string \<Rightarrow> string" where
  "parse_failure rd buffer err =
     ''parseBitcodeFile failed: '' @ [CHR 0x22] @ err @ [CHR 0x22] @ ''.'' @
     (case producer_string rd buffer of None \<Rightarrow> []
      | Some producer \<Rightarrow> '' '' @ ''The bitcode file was created with LLVM version: '' @ producer)"

definition parseBitcode :: "bitcode_reader \<Rightarrow> string \<Rightarrow> ir_module option diag" where
  "parseBitcode rd buffer =
     (case parseBitcodeFile rd buffer of
        Inl err \<Rightarrow> diag_bind (diag_warning (parse_failure rd buffer err)) (\<lambda>_. diag_return None)
      | Inr m \<Rightarrow> diag_return (Some m))"

definition loadBitcodeAtPath :: "bitcode_reader \<Rightarrow> string \<Rightarrow> bitcode_file diag" where
  "loadBitcodeAtPath rd path =
     (case read_file rd path of
        None \<Rightarrow> diag_error (''Cannot load module '' @ path @ newline)
      | Some buffer \<Rightarrow>
          diag_bind (parseBitcode rd buffer) (\<lambda>m.
          case m of
            None \<Rightarrow> diag_error (''Cannot parse bitcode '' @ path @ newline)
          | Some m \<Rightarrow> diag_return (Bitcode (module_stem rd) m)))"

text \<open>\<open>BitcodeLoadingTask\<close> on one path, with the logger as it is.\<close>

definition load_path_task :: "bitcode_reader \<Rightarrow> diagnostics \<Rightarrow> string \<Rightarrow> bitcode_file result list" where
  "load_path_task rd d path = [snd (loadBitcodeAtPath rd path d)]"

definition loadBitcode :: "bitcode_reader \<Rightarrow> Configuration \<Rightarrow> diagnostics \<Rightarrow> bitcode_file list result" where
  "loadBitcode rd cfg d = run_tasks (workers (parallelization cfg)) (load_path_task rd d) (bitcodePaths cfg)"

text \<open>\<open>LoadBitcodeFromBinaryTask\<close> on one embedded file; a buffer may be null.\<close>

definition no_module_warning :: string where
  "no_module_warning = ''Bitcode module could not be loaded. Possible reason: the bitcode file could be built with a newer version of LLVM than is used by Mull.''"

definition no_debug_warning :: string where
  "no_debug_warning = ''Bitcode module does not have debug information.''"

definition load_embedded :: "bitcode_reader \<Rightarrow> string option \<Rightarrow> bitcode_file option diag" where
  "load_embedded rd buffer =
     (case buffer of
        None \<Rightarrow> diag_lift (Inl (AssertFailed ''data''))
      | Some buf \<Rightarrow>
          diag_bind (diag_lift (cxx_assert ''size'' (buf \<noteq> []))) (\<lambda>_.
          diag_bind (parseBitcode rd buf) (\<lambda>m.
          case m of
            None \<Rightarrow> diag_bind (diag_warning no_module_warning) (\<lambda>_. diag_return None)
          | Some m \<Rightarrow>
              diag_bind (if has_debug_metadata rd m then diag_return () else diag_warning no_debug_warning) (\<lambda>_.
              diag_return (Some (Bitcode (module_stem rd) m))))))"

definition load_embedded_task :: "bitcode_reader \<Rightarrow> diagnostics \<Rightarrow> string option \<Rightarrow> bitcode_file result list" where
  "load_embedded_task rd d buffer =
     (case snd (load_embedded rd buffer d) of
        Inl e \<Rightarrow> [Inl e] | Inr None \<Rightarrow> [] | Inr (Some b) \<Rightarrow> [Inr b])"

text \<open>\<open>BitcodeMetadataReader\<close>: the flags of the units that have some; \<open>std::map\<close> keeps the last for a path.\<close>

definition unit_flag_entry ::
  "(string \<Rightarrow> bool) \<Rightarrow> (string \<times> string) list \<Rightarrow> string \<times> string \<times> string \<Rightarrow> (string \<times> string) list" where
  "unit_flag_entry is_absolute flags u =
     (let (dir, file_name, unitFlags) = u
      in if unitFlags = [] then flags
         else map_insert (absoluteFilePath is_absolute dir file_name) unitFlags flags)"

definition getCompilationDatabase ::
  "bitcode_reader \<Rightarrow> (string \<Rightarrow> bool) \<Rightarrow> bitcode_file list \<Rightarrow> (string \<times> string) list" where
  "getCompilationDatabase rd is_absolute bs =
     (if bs = [] then []
      else foldl (\<lambda>flags b. foldl (unit_flag_entry is_absolute) flags (debug_compile_units rd (ir b))) [] bs)"

section \<open>Properties\<close>

lemma parseBitcode_cases:
  "\<not> strictModeEnabled d \<Longrightarrow> \<exists>d'. \<not> strictModeEnabled d' \<and>
    parseBitcode rd buf d = (d', Inr (case parseBitcodeFile rd buf of Inl e \<Rightarrow> None | Inr m \<Rightarrow> Some m))"
  by (auto simp: parseBitcode_def st_bind_def st_return_def diag_warning_lenient split: sum.split)

lemma load_embedded_lenient:
  assumes "\<not> strictModeEnabled d" "buf \<noteq> []"
  shows "snd (load_embedded rd (Some buf) d) =
    Inr (case parseBitcodeFile rd buf of Inl e \<Rightarrow> None | Inr m \<Rightarrow> Some (Bitcode (module_stem rd) m))"
proof -
  obtain d1 where d1: "\<not> strictModeEnabled d1"
    "parseBitcode rd buf d = (d1, Inr (case parseBitcodeFile rd buf of Inl e \<Rightarrow> None | Inr m \<Rightarrow> Some m))"
    using parseBitcode_cases [OF assms(1)] by blast
  show ?thesis
    using assms(2) d1(1)
    by (cases "parseBitcodeFile rd buf")
      (auto simp: load_embedded_def st_bind_def st_lift_def d1(2) st_return_def diag_warning_lenient)
qed

lemma load_embedded_strict:
  assumes "strictModeEnabled d" "buf \<noteq> []"
  shows "snd (load_embedded rd (Some buf) d) =
    (case parseBitcodeFile rd buf of
       Inl e \<Rightarrow> Inl (Exited 1)
     | Inr m \<Rightarrow> if has_debug_metadata rd m then Inr (Some (Bitcode (module_stem rd) m)) else Inl (Exited 1))"
  using assms
  by (auto simp: load_embedded_def st_bind_def st_lift_def parseBitcode_def st_return_def diag_warning_def Let_def
      split: sum.split)

definition parsed_modules :: "bitcode_reader \<Rightarrow> string list \<Rightarrow> ir_module list" where
  "parsed_modules rd bufs =
     concat (map (\<lambda>b. case parseBitcodeFile rd b of Inl e \<Rightarrow> [] | Inr m \<Rightarrow> [m]) bufs)"

text \<open>C39. Loading the embedded bitcode of a program, on any number of workers, gives the modules LLVM can read, in
  the order of the program, and leaves out the others; in strict mode it ends the process unless every
  module can be read and has debug information.\<close>

theorem embedded_bitcode_loaded:
  assumes "0 < n" "length bufs < 2 ^ 31" "list_all (\<lambda>b. b \<noteq> []) bufs"
  shows "run_tasks n (load_embedded_task rd d) (map Some bufs) =
    (if strictModeEnabled d \<and> \<not> list_all (\<lambda>b. \<exists>m. parseBitcodeFile rd b = Inr m \<and> has_debug_metadata rd m) bufs
     then Inl (Exited 1) else Inr (map (Bitcode (module_stem rd)) (parsed_modules rd bufs)))"
proof -
  have r: "run_tasks n (load_embedded_task rd d) (map Some bufs) =
      map_result_list (\<lambda>r. r) (concat (map (\<lambda>b. load_embedded_task rd d (Some b)) bufs))"
    using run_tasks_eq [OF assms(1), of "map Some bufs" "load_embedded_task rd d"] assms(2)
    by (simp add: comp_def)
  show ?thesis
  proof (cases "strictModeEnabled d")
    case False
    have "concat (map (\<lambda>b. load_embedded_task rd d (Some b)) bufs) =
        map Inr (map (Bitcode (module_stem rd)) (parsed_modules rd bufs))"
      using assms(3) unfolding parsed_modules_def
      by (induction bufs) (auto simp: load_embedded_task_def load_embedded_lenient [OF False] split: sum.split)
    then show ?thesis using False unfolding r by (simp add: map_result_list_Inr del: map_map)
  next
    case True
    show ?thesis using assms(3) True unfolding r parsed_modules_def
      by (induction bufs)
        (auto simp: load_embedded_task_def load_embedded_strict [OF True] split: sum.splits if_splits)
  qed
qed

definition sample_reader :: bitcode_reader where
  "sample_reader =
     \<lparr>parseBitcodeFile = (\<lambda>b. if b = ''ok'' then Inr sample_module else Inl ''bad''), producer_string = (\<lambda>b. None),
      read_file = (\<lambda>p. None), debug_compile_units = (\<lambda>m. []), has_debug_metadata = (\<lambda>m. True), module_stem = id\<rparr>"

lemma embedded_bitcode_loaded_witness:
  "run_tasks 2 (load_embedded_task sample_reader new_diagnostics) [Some ''bad'', Some ''ok''] =
     Inr [Bitcode id sample_module] \<and>
   run_tasks 2 (load_embedded_task sample_reader (enableStrictMode new_diagnostics)) [Some ''bad'', Some ''ok''] =
     Inl (Exited 1)"
  using embedded_bitcode_loaded [of 2 "[''bad'', ''ok'']" sample_reader new_diagnostics]
    embedded_bitcode_loaded [of 2 "[''bad'', ''ok'']" sample_reader "enableStrictMode new_diagnostics"]
  by (simp add: sample_reader_def parsed_modules_def new_diagnostics_def enableStrictMode_def)

end
