(* ===== verification/CLIOptions.thy ===== *)
theory CLIOptions
  imports Reporters
begin

text \<open>
  The command line: \<open>tools/CLIOptions/CLIOptions.h\<close> and \<open>CLIOptions.cpp\<close>. Parsing the arguments is
  LLVM's; the model starts from the values of the options.
\<close>

section \<open>Options\<close>

datatype option_value = StringOption string | BoolOption bool | NumberOption int | ListOption

record cli_option =
  ArgStr :: string
  ValueStr :: string
  initial_value :: option_value
  HelpStr :: string

definition cl_option :: "string \<Rightarrow> string \<Rightarrow> option_value \<Rightarrow> string \<Rightarrow> cli_option" where
  "cl_option arg val init text = \<lparr>ArgStr = arg, ValueStr = val, initial_value = init, HelpStr = text\<rparr>"

definition opt_RunnerArgs :: cli_option where
  "opt_RunnerArgs = cl_option [] ''strings'' (ListOption)
     ''free form arguments''"

definition opt_TestProgram :: cli_option where
  "opt_TestProgram = cl_option ''test-program'' ''path'' (StringOption [])
     ''Path to a test program''"

definition opt_InputFile :: cli_option where
  "opt_InputFile = cl_option [] ''path'' (StringOption [])
     ''<input file>''"

definition opt_OutputFile :: cli_option where
  "opt_OutputFile = cl_option ''output'' ''path'' (StringOption [])
     ''output file''"

definition opt_Workers :: cli_option where
  "opt_Workers = cl_option ''workers'' ''number'' (NumberOption 0)
     ''How many threads to use''"

definition opt_Timeout :: cli_option where
  "opt_Timeout = cl_option ''timeout'' ''number'' (NumberOption MullDefaultTimeoutMilliseconds)
     ''Timeout per test run (milliseconds)''"

definition opt_ReportDirectory :: cli_option where
  "opt_ReportDirectory = cl_option ''report-dir'' ''directory'' (StringOption ''.'')
     (''Where to store report (defaults to '' @ [CHR 0x27] @ ''.'' @ [CHR 0x27] @ '')'')"

definition opt_ReportName :: cli_option where
  "opt_ReportName = cl_option ''report-name'' ''filename'' (StringOption [])
     ''Filename for the report (only for supported reporters). Defaults to <timestamp>.<extension>''"

definition opt_DisableJunkDetection :: cli_option where
  "opt_DisableJunkDetection = cl_option ''disable-junk-detection'' [] (BoolOption False)
     ''Do not remove junk mutations''"

definition opt_CompilationDatabasePath :: cli_option where
  "opt_CompilationDatabasePath = cl_option ''compdb-path'' ''filename'' (StringOption [])
     ''Path to a compilation database (compile_commands.json) for junk detection''"

definition opt_CompilationFlags :: cli_option where
  "opt_CompilationFlags = cl_option ''compilation-flags'' ''string'' (StringOption [])
     ''Extra compilation flags for junk detection''"

definition opt_Linker :: cli_option where
  "opt_Linker = cl_option ''linker'' ''string'' (StringOption ''clang'')
     ''Linker program''"

definition opt_LinkerFlags :: cli_option where
  "opt_LinkerFlags = cl_option ''linker-flags'' ''string'' (StringOption [])
     ''Extra linker flags to produce final executable''"

definition opt_LinkerTimeout :: cli_option where
  "opt_LinkerTimeout = cl_option ''linker-timeout'' ''number'' (NumberOption MullDefaultLinkerTimeoutMilliseconds)
     ''Timeout for the linking job (milliseconds)''"

definition opt_CoverageInfo :: cli_option where
  "opt_CoverageInfo = cl_option ''coverage-info'' ''string'' (StringOption [])
     (''Path to the coverage info file (LLVM'' @ [CHR 0x27] @ ''s profdata)'')"

definition opt_DryRunOption :: cli_option where
  "opt_DryRunOption = cl_option ''dry-run'' [] (BoolOption False)
     ''Skips mutant execution and generation. Disabled by default''"

definition opt_MutateOnly :: cli_option where
  "opt_MutateOnly = cl_option ''mutate-only'' [] (BoolOption False)
     ''Skips mutant execution. Unlike -dry-run generates mutants. Disabled by default''"

definition opt_Mutators :: cli_option where
  "opt_Mutators = cl_option ''mutators'' ''mutator'' (ListOption)
     ''Choose mutators:''"

definition opt_ExcludePaths :: cli_option where
  "opt_ExcludePaths = cl_option ''exclude-path'' ''regex'' (ListOption)
     (''File/directory paths to ignore (supports regex, equivalent to '' @ [CHR 0x22] @ ''grep -E'' @ [CHR 0x22] @ '')'')"

definition opt_IncludePaths :: cli_option where
  "opt_IncludePaths = cl_option ''include-path'' ''regex'' (ListOption)
     (''File/directory paths to whitelist (supports regex, equivalent to '' @ [CHR 0x22] @ ''grep -E'' @ [CHR 0x22] @ '')'')"

definition opt_KeepObjectFiles :: cli_option where
  "opt_KeepObjectFiles = cl_option ''keep-object-files'' [] (BoolOption False)
     ''Keep temporary object files''"

definition opt_KeepExecutable :: cli_option where
  "opt_KeepExecutable = cl_option ''keep-executable'' [] (BoolOption False)
     ''Keep temporary executable file''"

definition opt_GitDiffRef :: cli_option where
  "opt_GitDiffRef = cl_option ''git-diff-ref'' ''ref'' (StringOption [])
     ''Git branch, commit, or tag to run diff against (enables incremental testing)''"

definition opt_GitProjectRoot :: cli_option where
  "opt_GitProjectRoot = cl_option ''git-project-root'' ''path'' (StringOption [])
     (''Path to project'' @ [CHR 0x27] @ ''s Git root (used together with -git-diff-ref)'')"

definition opt_IncludeNotCovered :: cli_option where
  "opt_IncludeNotCovered = cl_option ''include-not-covered'' [] (BoolOption False)
     ''Include (but do not run) not covered mutants. Disabled by default''"

definition opt_ReportersOption :: cli_option where
  "opt_ReportersOption = cl_option ''reporters'' ''reporter'' (ListOption)
     ''Choose reporters:''"

definition opt_IDEReporterShowKilled :: cli_option where
  "opt_IDEReporterShowKilled = cl_option ''ide-reporter-show-killed'' [] (BoolOption False)
     ''Makes IDEReporter to also report killed mutations (disabled by default)''"

definition opt_DebugEnabled :: cli_option where
  "opt_DebugEnabled = cl_option ''debug'' [] (BoolOption False)
     ''Enables Debug Mode: more logs are printed''"

definition opt_StrictModeEnabled :: cli_option where
  "opt_StrictModeEnabled = cl_option ''strict'' [] (BoolOption False)
     ''Enables Strict Mode: all warning messages are treated as fatal errors''"

definition opt_NoTestOutput :: cli_option where
  "opt_NoTestOutput = cl_option ''no-test-output'' [] (BoolOption False)
     ''Does not capture output from test runs''"

definition opt_NoMutantOutput :: cli_option where
  "opt_NoMutantOutput = cl_option ''no-mutant-output'' [] (BoolOption False)
     ''Does not capture output from mutant runs''"

definition opt_NoOutput :: cli_option where
  "opt_NoOutput = cl_option ''no-output'' [] (BoolOption False)
     ''Combines -no-test-output and -no-mutant-output''"

definition opt_DumpCLIInterface :: cli_option where
  "opt_DumpCLIInterface = cl_option ''dump-cli'' [] (BoolOption False)
     ''Prints CLI options in the Sphinx/RST friendly format''"

definition opt_DumpMutators :: cli_option where
  "opt_DumpMutators = cl_option ''dump-mutators'' [] (BoolOption False)
     ''Prints available mutators in the Sphinx/RST friendly format''"

definition mull_cxx_options :: "cli_option list" where
  "mull_cxx_options =
     [opt_OutputFile, opt_Workers, opt_Timeout, opt_DryRunOption,
      opt_MutateOnly, opt_ReportName, opt_ReportDirectory, opt_ReportersOption,
      opt_IDEReporterShowKilled, opt_DebugEnabled, opt_StrictModeEnabled, opt_KeepObjectFiles,
      opt_KeepExecutable, opt_NoTestOutput, opt_NoMutantOutput, opt_NoOutput,
      opt_DisableJunkDetection, opt_CompilationDatabasePath, opt_CompilationFlags, opt_Linker,
      opt_LinkerFlags, opt_LinkerTimeout, opt_CoverageInfo, opt_IncludeNotCovered,
      opt_IncludePaths, opt_ExcludePaths, opt_GitDiffRef, opt_GitProjectRoot,
      opt_Mutators]"

definition mull_runner_options :: "cli_option list" where
  "mull_runner_options =
     [opt_TestProgram, opt_Workers, opt_Timeout, opt_ReportName,
      opt_ReportDirectory, opt_ReportersOption, opt_IDEReporterShowKilled, opt_DebugEnabled,
      opt_StrictModeEnabled, opt_NoTestOutput, opt_NoMutantOutput, opt_NoOutput]"

datatype reporter_kind = IDE | SQLite | Elements

text \<open>The values after parsing; a mutator is the number of its literal option.\<close>

record cli_values =
  cl_InputFile :: string
  cl_OutputFile :: string
  cl_Workers :: "32 word"
  cl_Timeout :: "32 word"
  cl_ReportDirectory :: string
  cl_ReportName :: string
  cl_DisableJunkDetection :: bool
  cl_CompilationDatabasePath :: string
  cl_CompilationFlags :: string
  cl_Linker :: string
  cl_LinkerFlags :: string
  cl_LinkerTimeout :: "32 word"
  cl_CoverageInfo :: string
  cl_DryRunOption :: bool
  cl_MutateOnly :: bool
  cl_Mutators :: "nat list"
  cl_ExcludePaths :: "string list"
  cl_IncludePaths :: "string list"
  cl_KeepObjectFiles :: bool
  cl_KeepExecutable :: bool
  cl_GitDiffRef :: string
  cl_GitProjectRoot :: string
  cl_IncludeNotCovered :: bool
  cl_ReportersOption :: "reporter_kind list"
  cl_IDEReporterShowKilled :: bool
  cl_DebugEnabled :: bool
  cl_StrictModeEnabled :: bool
  cl_NoTestOutput :: bool
  cl_NoMutantOutput :: bool
  cl_NoOutput :: bool
  cl_DumpCLIInterface :: bool
  cl_DumpMutators :: bool
  cl_TestProgram :: string
  cl_RunnerArgs :: "string list"

definition initial_values :: "string \<Rightarrow> cli_values" where
  "initial_values input =
     \<lparr>cl_InputFile = input, cl_OutputFile = [], cl_Workers = 0,
      cl_Timeout = of_int MullDefaultTimeoutMilliseconds, cl_ReportDirectory = ''.'', cl_ReportName = [],
      cl_DisableJunkDetection = False, cl_CompilationDatabasePath = [], cl_CompilationFlags = [],
      cl_Linker = ''clang'', cl_LinkerFlags = [], cl_LinkerTimeout = of_int MullDefaultLinkerTimeoutMilliseconds,
      cl_CoverageInfo = [], cl_DryRunOption = False, cl_MutateOnly = False, cl_Mutators = [],
      cl_ExcludePaths = [], cl_IncludePaths = [], cl_KeepObjectFiles = False, cl_KeepExecutable = False,
      cl_GitDiffRef = [], cl_GitProjectRoot = [], cl_IncludeNotCovered = False, cl_ReportersOption = [],
      cl_IDEReporterShowKilled = False, cl_DebugEnabled = False, cl_StrictModeEnabled = False,
      cl_NoTestOutput = False, cl_NoMutantOutput = False, cl_NoOutput = False, cl_DumpCLIInterface = False,
      cl_DumpMutators = False, cl_TestProgram = [], cl_RunnerArgs = []\<rparr>"

section \<open>Mutators and reporters\<close>

text \<open>\<open>MutatorsCLIOptions\<close>: the selected groups, by the numbers of their options.\<close>

definition selected_groups :: "(string \<times> string) list \<Rightarrow> nat list \<Rightarrow> string list result" where
  "selected_groups options parameter =
     map_result_list
       (\<lambda>i. if i < length options then Inr (fst (options ! i)) else Inl (OutOfRange ''options'')) parameter"

text \<open>The constructor makes the options with a factory that \<open>mutators\<close> uses again; \<open>None\<close> as for the factory.\<close>

definition cli_mutators :: "nat list \<Rightarrow> mutator option list option diag" where
  "cli_mutators parameter =
     diag_bind (commandLineOptions new_factory) (\<lambda>r.
     case r of
       None \<Rightarrow> diag_return None
     | Some (options, f) \<Rightarrow>
         diag_bind (diag_lift (selected_groups options parameter)) (\<lambda>groups.
         diag_bind (factory_mutators groups f) (\<lambda>ms. diag_return (map_option fst ms))))"

datatype reporter_object =
    IDEReporter bool
  | SQLiteReporterAt string
  | ElementsReporter elements_reporter

record reporter_parameters =
  reporterName :: string
  reporterDirectory :: string
  compilationDatabaseAvailable :: bool
  IDEReporterShowKilled :: bool

definition compdb_warning :: string where
  "compdb_warning =
     ''Mutation Testing Elements Reporter may not work without compilation database. '' @
     ''Consider providing -compdb-path or -compilation-flags.''"

definition make_reporter :: "nat \<Rightarrow> reporter_parameters \<Rightarrow> reporter_kind \<Rightarrow> reporter_object diag" where
  "make_reporter now params k =
     (case k of
        IDE \<Rightarrow> diag_return (IDEReporter (IDEReporterShowKilled params))
      | SQLite \<Rightarrow>
          diag_return (SQLiteReporterAt (SQLiteReporter now (reporterDirectory params) (reporterName params)))
      | Elements \<Rightarrow>
          diag_bind
            (if compilationDatabaseAvailable params then diag_return () else diag_warning compdb_warning) (\<lambda>_.
          diag_return (ElementsReporter
            (MutationTestingElementsReporter now (reporterDirectory params) (reporterName params)))))"

definition cli_reporters :: "nat \<Rightarrow> reporter_kind list \<Rightarrow> reporter_parameters \<Rightarrow> reporter_object list diag" where
  "cli_reporters now parameter params =
     diag_bind (diag_mapM (make_reporter now params) parameter) (\<lambda>reporters.
     diag_return (if reporters = [] then [IDEReporter (IDEReporterShowKilled params)] else reporters))"

section \<open>Texts for the documentation\<close>

definition reporterOptions :: "(string \<times> string \<times> reporter_kind) list" where
  "reporterOptions =
     [(''IDE'', ''Prints compiler-like warnings into stdout'', IDE),
      (''SQLite'', ''Saves results into an SQLite database'', SQLite),
      (''Elements'', ''Generates mutation-testing-elements compatible JSON file'', Elements)]"

text \<open>The first occurrence of a text is escaped.\<close>

fun sanitize_first :: "string \<Rightarrow> string \<Rightarrow> string" where
  "sanitize_first replacement [] = (if replacement = [] then [CHR 0x5C] else [])"
| "sanitize_first replacement (c # cs) =
     (if take (length replacement) (c # cs) = replacement then [CHR 0x5C] @ c # cs
      else c # sanitize_first replacement cs)"

definition sanitizeString :: "string \<Rightarrow> string" where
  "sanitizeString input = sanitize_first ''*='' (sanitize_first ''|='' input)"

definition tab :: string where
  "tab = [CHR 0x09]"

definition dumpCLIOption :: "cli_option \<Rightarrow> string" where
  "dumpCLIOption opt =
     ''--'' @ ArgStr opt @ (if ValueStr opt = [] then [] else '' '' @ ValueStr opt) @
     tab @ tab @ HelpStr opt @ newline @ newline"

definition dumpCLIReporters :: string where
  "dumpCLIReporters =
     concat (map (\<lambda>(name, description, k). ''    :'' @ name @ '':'' @ tab @ description @ newline @ newline)
       reporterOptions)"

definition dump_mutator_entry :: "string \<times> mutator option \<Rightarrow> string result" where
  "dump_mutator_entry p =
     (case snd p of
        None \<Rightarrow> Inl (NullPointer ''mutator'')
      | Some m \<Rightarrow> Inr (''      :'' @ fst p @ '':'' @ tab @ sanitizeString (getDescription m) @ newline @ newline))"

definition dumpCLIMutators :: "string result" where
  "dumpCLIMutators =
     (let f = factory_init new_factory
      in bind_result (map_result_list dump_mutator_entry (mutatorsMapping f)) (\<lambda>entries.
         Inr (''    Groups:'' @ newline @
           concat (map (\<lambda>(g, ms). ''      :'' @ g @ '':'' @ tab @ descriptionForGroup ms @ newline @ newline)
             (groupsMapping f)) @
           ''    Single mutators:'' @ newline @ concat entries)))"

definition dumpCLIInterface :: "cli_option list \<Rightarrow> cli_option option \<Rightarrow> cli_option option \<Rightarrow> string result" where
  "dumpCLIInterface options reporters mutators =
     bind_result
       (map_result_list (\<lambda>opt.
          bind_result (if Some opt = mutators then dumpCLIMutators else Inr []) (\<lambda>ms.
          Inr (dumpCLIOption opt @ ms @ (if Some opt = reporters then dumpCLIReporters else []))))
        options)
       (\<lambda>texts. Inr (concat texts))"

text \<open>The table of mutators; the padding's length is a \<open>size_t\<close>, which the names never exceed.\<close>

definition mutator_row :: "nat \<times> mutator \<Rightarrow> string \<times> string" where
  "mutator_row im =
     (let n = string_of_nat (fst im); name = ''op'' @ n; description = ''desc'' @ n
      in (''|'' @ name @ ''|'' @ replicate (length ''Operator Name'' - length name - 1) CHR '' '' @
            ''|'' @ description @ ''|'' @ newline,
          ''.. |'' @ name @ ''| replace:: '' @ getUniqueIdentifier (snd im) @ newline @
            ''.. |'' @ description @ ''| replace:: '' @ sanitizeString (getDescription (snd im)) @ newline))"

definition dumpMutators :: "string result" where
  "dumpMutators =
     bind_result
       (map_result_list (\<lambda>p. case snd p of None \<Rightarrow> Inl (NullPointer ''mutator'') | Some m \<Rightarrow> Inr m)
         (mutatorsMapping (factory_init new_factory)))
       (\<lambda>available.
         let sorted = sort_key getUniqueIdentifier available;
             rows = map mutator_row (enumerate 0 sorted);
             header = replicate (length ''Operator Name'') CHR ''='' @ '' '' @
               replicate (length ''Operator Semantics'') CHR ''='' @ newline
         in Inr (concat (map snd rows) @ newline @ newline @
              header @ ''Operator Name'' @ '' '' @ ''Operator Semantics'' @ newline @ header @
              concat (map fst rows) @ header))"

section \<open>Properties\<close>

text \<open>Outside of strict mode the reporters can always be made.\<close>

lemma cli_reporters_lenient:
  assumes "\<not> strictModeEnabled d"
  shows "\<exists>d' rs. cli_reporters t kinds params d = (d', Inr rs) \<and> \<not> strictModeEnabled d'"
proof -
  have "\<exists>d' rs. diag_mapM (make_reporter t params) kinds d = (d', Inr rs) \<and> \<not> strictModeEnabled d'"
    using assms
  proof (induction kinds arbitrary: d)
    case (Cons k ks)
    obtain d1 r where r: "make_reporter t params k d = (d1, Inr r)" "\<not> strictModeEnabled d1"
    proof (cases k)
      case Elements
      then show thesis using that Cons.prems
        by (cases "compilationDatabaseAvailable params")
          (auto simp: make_reporter_def st_return_def st_bind_def diag_warning_lenient)
    qed (use that Cons.prems in \<open>simp_all add: make_reporter_def st_return_def\<close>)
    from Cons.IH [OF r(2)] show ?case by (auto simp: st_bind_def r(1) st_return_def)
  qed (simp add: st_return_def)
  then show ?thesis by (auto simp: cli_reporters_def st_bind_def st_return_def)
qed

end
