(* ===== verification/Tools.thy ===== *)
theory Tools
  imports CLIOptions Driver Filters JunkDetector BitcodeLoading
begin

text \<open>
  The two command line tools: \<open>tools/mull-cxx/mull-cxx.cpp\<close> and \<open>tools/mull-runner/mull-runner.cpp\<close>,
  the composition of all components. The state is the reporters' one, whose log is the tools' logger.
\<close>

section \<open>What the tools find outside\<close>

record tool_environment =
  readable :: "string \<Rightarrow> bool"
  real_path :: "string \<Rightarrow> string option"
  is_directory :: "string \<Rightarrow> bool"
  hardware_concurrency :: "32 word"
  embedded_bitcode :: "string \<Rightarrow> (string \<times> string option list option) list"
  reader :: bitcode_reader
  driver_environment :: environment
  storage_environment :: storage_environment
  compdb_loader :: json_loader
  regex_search :: "string \<Rightarrow> string \<Rightarrow> bool"
  git_process :: "process_request \<Rightarrow> process_outcome"
  open_object :: "string \<Rightarrow> executable_file"
  source_files :: file_system
  garbage :: char
  now :: nat
  json_text :: "json \<Rightarrow> string"
  sqlite_error :: "string \<Rightarrow> string option"
  duration_text :: string

definition validateInputFile :: "tool_environment \<Rightarrow> string \<Rightarrow> string diag" where
  "validateInputFile env inputFile =
     (if \<not> readable env inputFile
      then diag_error (''The provided path to an executable program is not valid: '' @ inputFile)
      else (case real_path env inputFile of
          None \<Rightarrow> diag_error (''The provided path to an executable program is not valid: '' @ inputFile)
        | Some p \<Rightarrow> diag_return p))"

text \<open>Debug and strict mode.\<close>

definition set_modes :: "cli_values \<Rightarrow> unit diag" where
  "set_modes opts =
     diag_bind
       (if cl_DebugEnabled opts
        then (\<lambda>d. diag_debug ''Diagnostics: Debug Mode enabled. Debug-level messages will be printed.''
          (enableDebugMode d))
        else diag_return ()) (\<lambda>_.
     if cl_StrictModeEnabled opts
     then (\<lambda>d. diag_info ''Diagnostics: Strict Mode enabled. Warning messages will be treated as fatal errors.''
       (enableStrictMode d))
     else diag_return ())"

definition parallelization_of :: "32 word \<Rightarrow> cli_values \<Rightarrow> ParallelizationConfig" where
  "parallelization_of hardware opts =
     (if cl_Workers opts \<noteq> 0
      then normalize hardware (new_ParallelizationConfig\<lparr>workers := sint (cl_Workers opts)\<rparr>)
      else defaultConfig hardware)"

text \<open>The words of a text, as in the compilation database.\<close>

definition splitFlags :: "string \<Rightarrow> string list" where
  "splitFlags flags = flagsFromString flags"

definition mull_cxx_configuration :: "32 word \<Rightarrow> cli_values \<Rightarrow> string \<Rightarrow> Configuration" where
  "mull_cxx_configuration hardware opts inputFile =
     new_Configuration\<lparr>
       dryRunEnabled := cl_DryRunOption opts,
       mutateOnly := cl_MutateOnly opts,
       skipSanityCheckRun := cl_MutateOnly opts,
       linker := cl_Linker opts,
       linkerFlags := splitFlags (cl_LinkerFlags opts),
       linkerTimeout := uint (cl_LinkerTimeout opts),
       debugEnabled := cl_DebugEnabled opts,
       timeout := sint (cl_Timeout opts),
       executable := inputFile,
       outputFile := cl_OutputFile opts,
       coverageInfo := cl_CoverageInfo opts,
       includeNotCovered := cl_IncludeNotCovered opts,
       keepObjectFiles := cl_KeepObjectFiles opts,
       keepExecutable := cl_KeepExecutable opts,
       parallelization := parallelization_of hardware opts,
       captureTestOutput := \<not> (cl_NoTestOutput opts \<or> cl_NoOutput opts),
       captureMutantOutput := \<not> (cl_NoMutantOutput opts \<or> cl_NoOutput opts)\<rparr>"

definition mull_runner_configuration :: "32 word \<Rightarrow> cli_values \<Rightarrow> string \<Rightarrow> Configuration" where
  "mull_runner_configuration hardware opts inputFile =
     new_Configuration\<lparr>
       debugEnabled := cl_DebugEnabled opts,
       timeout := sint (cl_Timeout opts),
       includeNotCovered := cl_IncludeNotCovered opts,
       executable := inputFile,
       parallelization := parallelization_of hardware opts,
       captureTestOutput := \<not> (cl_NoTestOutput opts \<or> cl_NoOutput opts),
       captureMutantOutput := \<not> (cl_NoMutantOutput opts \<or> cl_NoOutput opts)\<rparr>"

section \<open>Bitcode of the program\<close>

fun embedded_files :: "(string \<times> string option list option) list \<Rightarrow> string option list diag" where
  "embedded_files [] = diag_return []"
| "embedded_files ((arch, container) # others) =
     (case container of
        None \<Rightarrow> diag_bind (diag_warning (''No bitcode: '' @ arch)) (\<lambda>_. embedded_files others)
      | Some files \<Rightarrow> diag_bind (embedded_files others) (\<lambda>rest. diag_return (files @ rest)))"

definition load_program :: "tool_environment \<Rightarrow> Configuration \<Rightarrow> string \<Rightarrow> bitcode_file list diag" where
  "load_program env cfg inputFile =
     diag_bind (embedded_files (embedded_bitcode env inputFile)) (\<lambda>buffers d.
       (d, run_tasks (workers (parallelization cfg)) (load_embedded_task (reader env) d) buffers))"

section \<open>Filters\<close>

text \<open>
  The filters answer from the states they start with: the path filter and the junk detector are cached
  lookups (the interpretations \<open>path_cache\<close> and \<open>junk_cache\<close>), so that no query changes a later answer.
  Of what they write to the log only the effect on the process is kept.
\<close>

definition path_filter :: "cli_values \<Rightarrow> file_path_filter" where
  "path_filter opts =
     foldl (\<lambda>f r. FilePath_include r f) (foldl (\<lambda>f r. FilePath_exclude r f) new_file_path_filter (cl_ExcludePaths opts))
       (cl_IncludePaths opts)"

definition git_diff_instruction_filter ::
  "tool_environment \<Rightarrow> cli_values \<Rightarrow> (instruction \<Rightarrow> bool) list diag" where
  "git_diff_instruction_filter env opts =
     (let root = cl_GitProjectRoot opts in
      if cl_GitDiffRef opts = [] then diag_return []
      else if root = [] then
        diag_bind (diag_warning (''-git-diff-ref option has been provided but the path to the Git project root has not '' @
          ''been specified via -git-project-root. The incremental testing will be disabled.'')) (\<lambda>_. diag_return [])
      else if \<not> is_directory env root then
        diag_bind (diag_warning (''directory provided by -git-project-root does not exist, '' @
          ''the incremental testing will be disabled: '' @ root)) (\<lambda>_. diag_return [])
      else (case real_path env root of
          None \<Rightarrow>
            diag_bind (diag_warning (''could not expand -git-project-root to an absolute path: '' @ root))
              (\<lambda>_. diag_return [])
        | Some gitProjectRoot \<Rightarrow>
            diag_bind (diag_info (''Incremental testing using Git Diff is enabled.'' @ newline @
              ''- Git ref: '' @ cl_GitDiffRef opts @ newline @ ''- Git project root: '' @ gitProjectRoot)) (\<lambda>_.
            diag_bind (createFromGitDiff (absolute_path (driver_environment env)) (git_process env) gitProjectRoot
                (cl_GitDiffRef opts)) (\<lambda>gitDiffFilter.
            diag_return (case gitDiffFilter of
                None \<Rightarrow> []
              | Some info \<Rightarrow> [\<lambda>i. snd (GitDiff_shouldSkip (absolute_path (driver_environment env)) info i
                  new_diagnostics) = Inr True])))))"

definition mull_cxx_filters ::
  "tool_environment \<Rightarrow> cli_values \<Rightarrow> ast_storage \<Rightarrow> (instruction \<Rightarrow> bool) list \<Rightarrow> Filters" where
  "mull_cxx_filters env opts st gitFilters =
     (let is_abs = absolute_path (driver_environment env);
          search = regex_search env;
          paths = path_filter opts
      in \<lparr>mutationFilters =
            [only_skips (\<lambda>p. Inr (NoDebugInfo_skip_point p)),
             only_skips (\<lambda>p. bind_result (FilePath_skip_point search p paths) (\<lambda>r. Inr (fst r)))] @
            (if cl_DisableJunkDetection opts then []
             else [\<lambda>p. snd (Junk_shouldSkip (storage_environment env) p st)]),
          functionFilters =
            [\<lambda>f. Inr (NoDebugInfo_skip_function is_abs f),
             \<lambda>f. bind_result (FilePath_skip_function search is_abs f paths) (\<lambda>r. Inr (fst r))],
          instructionFilters = [NoDebugInfo_skip_instruction is_abs] @ gitFilters\<rparr>)"

section \<open>Reports\<close>

definition report_with :: "tool_environment \<Rightarrow> Result \<Rightarrow> reporter_object \<Rightarrow> unit reporter" where
  "report_with env res r =
     (case r of
        IDEReporter showKilled \<Rightarrow> IDE_reportResults (source_files env) (garbage env) showKilled res
      | SQLiteReporterAt path \<Rightarrow> SQLite_reportResults (sqlite_error env) path res
      | ElementsReporter e \<Rightarrow> Elements_reportResults (source_files env) (garbage env) (json_text env) e res)"

definition print_text :: "string \<Rightarrow> unit reporter" where
  "print_text text s = (s\<lparr>rep_stdout := rep_stdout s @ text\<rparr>, Inr ())"

definition total_time :: "tool_environment \<Rightarrow> unit reporter" where
  "total_time env = with_log (diag_info (''Total execution time: '' @ duration_text env))"

text \<open>When the arguments cannot be parsed.\<close>

definition mull_cxx_invalid :: "cli_values \<Rightarrow> int reporter" where
  "mull_cxx_invalid opts =
     (if cl_DumpCLIInterface opts
      then st_bind (st_lift (dumpCLIInterface mull_cxx_options (Some opt_ReportersOption) (Some opt_Mutators)))
        (\<lambda>text. st_bind (print_text text) (\<lambda>_. st_return 0))
      else if cl_DumpMutators opts
      then st_bind (st_lift dumpMutators) (\<lambda>text. st_bind (print_text text) (\<lambda>_. st_return 0))
      else st_return 1)"

definition mull_runner_invalid :: "cli_values \<Rightarrow> int reporter" where
  "mull_runner_invalid opts =
     (if cl_DumpCLIInterface opts
      then st_bind (st_lift (dumpCLIInterface mull_runner_options (Some opt_ReportersOption) None))
        (\<lambda>text. st_bind (print_text text) (\<lambda>_. st_return 0))
      else st_return 1)"

section \<open>mull-cxx\<close>

text \<open>The result the driver returns: the vectors it moves into it.\<close>

definition driver_result :: "run_result \<Rightarrow> Result" where
  "driver_result r = make_Result (run_mutants r) (run_results r)"

text \<open>Whether some flags for the junk detection are known; the messages on the way.\<close>

definition compilation_info :: "cli_values \<Rightarrow> (string \<times> string) list \<Rightarrow> bool diag" where
  "compilation_info opts unitFlags =
     diag_bind
       (if unitFlags \<noteq> [] then diag_info ''Found compilation flags in the input bitcode'' else diag_return ()) (\<lambda>_.
     diag_return (unitFlags \<noteq> [] \<or> cl_CompilationDatabasePath opts \<noteq> [] \<or> cl_CompilationFlags opts \<noteq> []))"

definition reporter_params :: "cli_values \<Rightarrow> bool \<Rightarrow> reporter_parameters" where
  "reporter_params opts available =
     \<lparr>reporterName = cl_ReportName opts, reporterDirectory = cl_ReportDirectory opts,
      compilationDatabaseAvailable = available, IDEReporterShowKilled = cl_IDEReporterShowKilled opts\<rparr>"

text \<open>From the start to the driver's result, the configuration and the reporters.\<close>

definition mull_cxx_run ::
  "tool_environment \<Rightarrow> cli_values \<Rightarrow> (Configuration \<times> reporter_object list \<times> Result) diag" where
  "mull_cxx_run env opts =
     diag_bind (set_modes opts) (\<lambda>_.
     diag_bind (validateInputFile env (cl_InputFile opts)) (\<lambda>inputFile.
     diag_bind
       (if cl_MutateOnly opts
        then diag_info (''Mutate-only mode on: Mull will generate mutants, but won'' @ [CHR 0x27] @ ''t run them'' @ newline)
        else diag_return ()) (\<lambda>_.
     let cfg = mull_cxx_configuration (hardware_concurrency env) opts inputFile
     in diag_bind (load_program env cfg inputFile) (\<lambda>program.
        let unitFlags = getCompilationDatabase (reader env) (absolute_path (driver_environment env)) program
        in diag_bind (compilation_info opts unitFlags) (\<lambda>available.
           diag_bind (ASTStorage (storage_environment env) (compdb_loader env) (cl_CompilationDatabasePath opts)
               (cl_CompilationFlags opts) unitFlags) (\<lambda>st.
           diag_bind (cli_reporters (now env) (cl_ReportersOption opts) (reporter_params opts available)) (\<lambda>reporters.
           diag_bind (cli_mutators (cl_Mutators opts)) (\<lambda>selected.
           diag_bind (diag_lift (map_result_list
               (\<lambda>m. case m of None \<Rightarrow> Inl (NullPointer ''mutator'') | Some m \<Rightarrow> Inr m)
               (case selected of None \<Rightarrow> [] | Some ms \<Rightarrow> ms))) (\<lambda>mutators.
           diag_bind (git_diff_instruction_filter env opts) (\<lambda>gitFilters.
           diag_bind (run (driver_environment env) cfg (mull_cxx_filters env opts st gitFilters) mutators program)
             (\<lambda>result. diag_return (cfg, reporters, driver_result result))))))))))))"

definition mull_cxx_main :: "tool_environment \<Rightarrow> bool \<Rightarrow> cli_values \<Rightarrow> int reporter" where
  "mull_cxx_main env validOptions opts =
     (if \<not> validOptions then mull_cxx_invalid opts
      else
        st_bind (with_log (mull_cxx_run env opts)) (\<lambda>(cfg, reporters, result).
        st_bind (if mutateOnly cfg then st_return () else for_each (report_with env result) reporters) (\<lambda>_.
        st_bind (total_time env) (\<lambda>_. st_return 0))))"

section \<open>mull-runner\<close>

definition runner_validateInputFile :: "tool_environment \<Rightarrow> string \<Rightarrow> string diag" where
  "runner_validateInputFile env inputFile =
     (if \<not> readable env inputFile
      then diag_error (''The provided path to an executable program is not valid: '' @ inputFile)
      else (case real_path env inputFile of
          None \<Rightarrow> diag_error (''The provided path to an executable program is not valid: '' @ inputFile)
        | Some p \<Rightarrow> diag_return p))"

lemma runner_validateInputFile [simp]: "runner_validateInputFile = validateInputFile"
  by (simp add: fun_eq_iff runner_validateInputFile_def validateInputFile_def)

definition mull_runner_run ::
  "tool_environment \<Rightarrow> cli_values \<Rightarrow> (reporter_object list \<times> Result) diag" where
  "mull_runner_run env opts =
     diag_bind (set_modes opts) (\<lambda>_.
     diag_bind (runner_validateInputFile env (cl_InputFile opts)) (\<lambda>inputFile.
     let cfg = mull_runner_configuration (hardware_concurrency env) opts inputFile
     in diag_bind (cli_reporters (now env) (cl_ReportersOption opts) (reporter_params opts False)) (\<lambda>reporters.
        diag_bind (extractMutants (open_object env inputFile)) (\<lambda>mutants.
        diag_bind (runMutants (processes (driver_environment env)) cfg
            (if cl_TestProgram opts \<noteq> [] then cl_TestProgram opts else inputFile) (cl_RunnerArgs opts) mutants)
          (\<lambda>results. diag_return (reporters, make_Result mutants results))))))"

definition mull_runner_main :: "tool_environment \<Rightarrow> bool \<Rightarrow> cli_values \<Rightarrow> int reporter" where
  "mull_runner_main env validOptions opts =
     (if \<not> validOptions then mull_runner_invalid opts
      else
        st_bind (with_log (mull_runner_run env opts)) (\<lambda>(reporters, result).
        st_bind (for_each (report_with env result) reporters) (\<lambda>_.
        st_bind (total_time env) (\<lambda>_. st_return 0))))"

section \<open>Properties\<close>

lemma path_filter_fields [simp]:
  "includeFilters (path_filter opts) = cl_IncludePaths opts" "excludeFilters (path_filter opts) = cl_ExcludePaths opts"
  "cache (path_filter opts) = []"
proof -
  have inc: "includeFilters (foldl (\<lambda>f r. FilePath_include r f) f rs) = includeFilters f @ rs"
    "excludeFilters (foldl (\<lambda>f r. FilePath_include r f) f rs) = excludeFilters f"
    "cache (foldl (\<lambda>f r. FilePath_include r f) f rs) = cache f" for f rs
    by (induction rs arbitrary: f) (simp_all add: FilePath_include_def)
  have exc: "includeFilters (foldl (\<lambda>f r. FilePath_exclude r f) f rs) = includeFilters f"
    "excludeFilters (foldl (\<lambda>f r. FilePath_exclude r f) f rs) = excludeFilters f @ rs"
    "cache (foldl (\<lambda>f r. FilePath_exclude r f) f rs) = cache f" for f rs
    by (induction rs arbitrary: f) (simp_all add: FilePath_exclude_def)
  show "includeFilters (path_filter opts) = cl_IncludePaths opts" "excludeFilters (path_filter opts) = cl_ExcludePaths opts"
    "cache (path_filter opts) = []"
    by (simp_all add: path_filter_def inc exc new_file_path_filter_def)
qed

lemma path_filter_skips:
  "fst (FilePath_shouldSkip search path (path_filter opts)) =
    (\<not> path_allowed search (cl_IncludePaths opts) (cl_ExcludePaths opts) path)"
proof -
  have "cache_valid search (path_filter opts)" by (simp add: cache_valid_def)
  from FilePath_shouldSkip_step [OF this, of path] show ?thesis by auto
qed

text \<open>What the include and exclude patterns make of a file.\<close>

definition file_selected :: "tool_environment \<Rightarrow> cli_values \<Rightarrow> string \<Rightarrow> bool" where
  "file_selected env opts path \<longleftrightarrow>
     (cl_IncludePaths opts = [] \<or> (\<exists>r \<in> set (cl_IncludePaths opts). regex_search env r path)) \<and>
     (\<forall>r \<in> set (cl_ExcludePaths opts). \<not> regex_search env r path)"

definition declared_path :: "tool_environment \<Rightarrow> debug_info \<Rightarrow> string" where
  "declared_path env d =
     (if di_filename d = [] \<or> absolute_path (driver_environment env) (di_filename d) then di_filename d
      else di_directory d @ ''/'' @ di_filename d)"

lemma path_allowed_selected:
  "path_allowed (regex_search env) (cl_IncludePaths opts) (cl_ExcludePaths opts) path \<longleftrightarrow> file_selected env opts path"
  by (auto simp: path_allowed_def file_selected_def list_ex_iff)

lemma function_null:
  "isNull (locationFromFunction (absolute_path (driver_environment env)) f) \<longleftrightarrow>
     (case subprogram f of None \<Rightarrow> True | Some d \<Rightarrow> di_line d = 0)"
  by (auto simp: locationFromFunction_def isNull_iff signed_eq_0_iff Let_def nullSourceLocation_def
      split: option.split prod.split)

lemma function_path:
  "subprogram f = Some d \<Longrightarrow>
     filePath (locationFromFunction (absolute_path (driver_environment env)) f) = declared_path env d"
  by (simp add: locationFromFunction_def declared_path_def absoluteFilePath_def Let_def split: prod.split)

text \<open>C14. What the filters \<open>mull-cxx\<close> gives the driver answer. A function is searched exactly when it has a
  subprogram with a line and the include and exclude patterns select the subprogram's file: this never
  fails, in particular the path filter's assertion about null locations cannot. A point without line and
  column, or in a file the patterns do not select, is dropped, again without a failure. Any other point is kept as it
  is when the junk detector is disabled; otherwise the detector decides: where it fails (as it does when Clang
  gave no tree for the file) the filter fails with it, and where it does not find the point junk the
  point continues in the form the detector leaves it in.\<close>

theorem mull_cxx_filters_meaning:
  "passes (functionFilters (mull_cxx_filters env opts st gitFilters)) f =
     Inr (case subprogram f of None \<Rightarrow> False
       | Some d \<Rightarrow> di_line d \<noteq> 0 \<and> file_selected env opts (declared_path env d)) \<and>
   outcome_of (mutationFilters (mull_cxx_filters env opts st gitFilters)) p =
     (let loc = sourceLocation p
      in if (line loc = 0 \<and> column loc = 0) \<or> \<not> file_selected env opts (filePath loc) then Inr None
         else if cl_DisableJunkDetection opts then Inr (Some p)
         else case snd (isJunk (storage_environment env) p st) of Inl e \<Rightarrow> Inl e
           | Inr (junk, p') \<Rightarrow> Inr (if junk then None else Some p'))"
proof -
  have r: "bind_result r (case_option (Inr None) (outcome_of [])) = r"
    for r :: "mutation_point option result"
    by (cases r) (auto split: option.split)
  have junk: "snd (Junk_shouldSkip (storage_environment env) p st) =
      (case snd (isJunk (storage_environment env) p st) of Inl e \<Rightarrow> Inl e
       | Inr (junk, p') \<Rightarrow> Inr (if junk then None else Some p'))"
    by (cases "isJunk (storage_environment env) p st")
      (auto simp: Junk_shouldSkip_def st_bind_def st_return_def split: sum.split)
  have "passes (functionFilters (mull_cxx_filters env opts st gitFilters)) f =
     Inr (case subprogram f of None \<Rightarrow> False
       | Some d \<Rightarrow> di_line d \<noteq> 0 \<and> file_selected env opts (declared_path env d))"
    by (cases "subprogram f")
      (simp_all add: mull_cxx_filters_def Let_def NoDebugInfo_skip_function_def FilePath_skip_function_def
        FilePath_skip_location_def path_filter_skips path_allowed_selected function_null function_path)
  then show ?thesis
    by (simp add: mull_cxx_filters_def Let_def NoDebugInfo_skip_point_def only_skips_def FilePath_skip_point_def
        FilePath_skip_location_def path_filter_skips path_allowed_selected r junk isNull_iff)
qed

lemma selected_a_cpp:
  assumes "regex_search env = (=)" "cl_IncludePaths opts = [''a.cpp'']" "cl_ExcludePaths opts = []"
  shows "file_selected env opts path \<longleftrightarrow> path = ''a.cpp''"
  using assms by (simp add: file_selected_def)

lemma parallelization_positive:
  assumes "uint h < 2 ^ 31" "uint (cl_Workers opts) < 2 ^ 31"
  shows "0 < workers (parallelization_of h opts)" "0 < mutantExecutionWorkers (parallelization_of h opts)"
proof -
  have "0 < sint (cl_Workers opts)" if "cl_Workers opts \<noteq> 0"
    using that assms(2) by (simp add: sint_small uint_0_iff less_le)
  then show "0 < workers (parallelization_of h opts)" "0 < mutantExecutionWorkers (parallelization_of h opts)"
    using default_workers_positive [OF assms(1)]
    by (auto simp: parallelization_of_def defaultConfig_def normalize_def new_ParallelizationConfig_def Let_def)
qed

lemma set_modes_lenient:
  assumes "\<not> cl_StrictModeEnabled opts" "\<not> strictModeEnabled d"
  shows "\<exists>d'. set_modes opts d = (d', Inr ()) \<and> \<not> strictModeEnabled d'"
  using assms by (auto simp: set_modes_def st_bind_def st_return_def diag_debug_def enableDebugMode_def)

lemma runner_results:
  assumes "\<not> cl_StrictModeEnabled opts" "readable env (cl_InputFile opts)"
    and "real_path env (cl_InputFile opts) = Some path"
    and "uint (hardware_concurrency env) < 2 ^ 31" "uint (cl_Workers opts) < 2 ^ 31"
    and "open_object env path = ObjectFile sections"
    and "map read_section sections = before @ (''.mull_mutants'', section_content ps) # after"
    and "list_all (\<lambda>(n, _). n \<noteq> ''.mull_mutants'') (before @ after)"
    and "list_all (\<lambda>(p, _). recordable p) ps" "length ps < 2 ^ 31"
    and "starts (processes (driver_environment env))"
  defines "program \<equiv> if cl_TestProgram opts \<noteq> [] then cl_TestProgram opts else path"
    and "world \<equiv> processes (driver_environment env)"
  shows "\<exists>d reporters. mull_runner_run env opts new_diagnostics = (d, Inr (reporters,
     make_Result (map (\<lambda>(p, _). decoded_mutant p) ps)
       (map (\<lambda>(k, p, _).
          \<lparr>execution_result =
             (if covered p
              then execution_of (world (2 + k)
                \<lparr>command = program # cl_RunnerArgs opts, extra_env = [(userIdentifier p, ''1'')],
                 working_directory = None,
                 wait_milliseconds = 10 * elapsed (world 1
                   \<lparr>command = program # cl_RunnerArgs opts, extra_env = [], working_directory = None,
                    wait_milliseconds = sint (cl_Timeout opts)\<rparr>)\<rparr>)
                (\<not> (cl_NoMutantOutput opts \<or> cl_NoOutput opts))
              else new_ExecutionResult\<lparr>status := NotCovered\<rparr>),
           result_mutant = decoded_mutant p\<rparr>) (enumerate 0 ps))))"
proof -
  define cfg where "cfg = mull_runner_configuration (hardware_concurrency env) opts path"
  have fields: "timeout cfg = sint (cl_Timeout opts)" "captureMutantOutput cfg = (\<not> (cl_NoMutantOutput opts \<or> cl_NoOutput opts))"
    "parallelization cfg = parallelization_of (hardware_concurrency env) opts"
    by (simp_all add: cfg_def mull_runner_configuration_def)
  obtain d1 where d1: "set_modes opts new_diagnostics = (d1, Inr ())" "\<not> strictModeEnabled d1"
    using set_modes_lenient [OF assms(1), of new_diagnostics] by (auto simp: new_diagnostics_def)
  obtain d2 reporters where d2: "cli_reporters (now env) (cl_ReportersOption opts) (reporter_params opts False) d1 =
      (d2, Inr reporters)"
    using cli_reporters_lenient [OF d1(2)] by blast
  have input: "validateInputFile env (cl_InputFile opts) = diag_return path"
    using assms(2,3) by (simp add: validateInputFile_def)
  let ?ms = "map (\<lambda>(p, _). decoded_mutant p) ps"
  have "section_mutants (map read_section sections) = Inr ?ms"
    unfolding assms(7) by (rule extract_sections) (use assms(8,9) in simp_all)
  then have ex: "extractMutants (open_object env path) d = (d, Inr ?ms)" for d
    by (simp add: extractMutants_def assms(6) st_lift_def)
  have pos: "0 < mutantExecutionWorkers (parallelization cfg)"
    unfolding fields by (rule parallelization_positive) fact+
  have small: "length ?ms < 2 ^ 31" using assms(10) by simp
  have en: "enumerate 0 ?ms = map (\<lambda>(k, p, x). (k, decoded_mutant p)) (enumerate 0 ps)"
    by (auto simp: enumerate_eq_zip zip_map2 split_beta)
  have results: "runMutants world cfg program (cl_RunnerArgs opts) ?ms d2 = (d2, Inr (map (\<lambda>(k, p, _).
          \<lparr>execution_result =
             (if covered p
              then execution_of (world (2 + k)
                \<lparr>command = program # cl_RunnerArgs opts, extra_env = [(userIdentifier p, ''1'')],
                 working_directory = None,
                 wait_milliseconds = 10 * elapsed (world 1
                   \<lparr>command = program # cl_RunnerArgs opts, extra_env = [], working_directory = None,
                    wait_milliseconds = sint (cl_Timeout opts)\<rparr>)\<rparr>)
                (\<not> (cl_NoMutantOutput opts \<or> cl_NoOutput opts))
              else new_ExecutionResult\<lparr>status := NotCovered\<rparr>),
           result_mutant = decoded_mutant p\<rparr>) (enumerate 0 ps)))"
    unfolding runMutants_starts [OF assms(11) [folded world_def] pos small] en
    by (simp add: fields baseline_request_def decoded_mutant_def Mutant_def split_beta comp_def)
  show ?thesis
    by (simp only: mull_runner_run_def runner_validateInputFile Let_def st_bind_def d1 prod.case sum.case input st_return_def
        cfg_def [symmetric] d2 st_lift_def ex program_def [symmetric] world_def [symmetric] results) blast
qed

text \<open>C12. \<open>mull-runner\<close> on a program into which mutants were recorded runs the test program once for every
  covered mutant, with the user's arguments, the mutant's identifier set in the environment and ten
  times the time the unmutated program takes as its limit, and hands the reporters one result for each
  recorded mutant, in the order of the section.\<close>

theorem runner_tests_recorded_mutants:
  assumes "\<not> cl_StrictModeEnabled opts" "readable env (cl_InputFile opts)"
    and "real_path env (cl_InputFile opts) = Some path"
    and "uint (hardware_concurrency env) < 2 ^ 31" "uint (cl_Workers opts) < 2 ^ 31"
    and "open_object env path = ObjectFile sections"
    and "map read_section sections = before @ (''.mull_mutants'', section_content ps) # after"
    and "list_all (\<lambda>(n, _). n \<noteq> ''.mull_mutants'') (before @ after)"
    and "list_all (\<lambda>(p, _). recordable p) ps" "length ps < 2 ^ 31"
    and "starts (processes (driver_environment env))"
  defines "program \<equiv> if cl_TestProgram opts \<noteq> [] then cl_TestProgram opts else path"
    and "world \<equiv> processes (driver_environment env)"
  shows "\<exists>d reporters. mull_runner_run env opts new_diagnostics = (d, Inr (reporters,
     make_Result (map (\<lambda>(p, _). decoded_mutant p) ps)
       (map (\<lambda>(k, p, _).
          \<lparr>execution_result =
             (if covered p
              then execution_of (world (2 + k)
                \<lparr>command = program # cl_RunnerArgs opts, extra_env = [(userIdentifier p, ''1'')],
                 working_directory = None,
                 wait_milliseconds = 10 * elapsed (world 1
                   \<lparr>command = program # cl_RunnerArgs opts, extra_env = [], working_directory = None,
                    wait_milliseconds = sint (cl_Timeout opts)\<rparr>)\<rparr>)
                (\<not> (cl_NoMutantOutput opts \<or> cl_NoOutput opts))
              else new_ExecutionResult\<lparr>status := NotCovered\<rparr>),
           result_mutant = decoded_mutant p\<rparr>) (enumerate 0 ps))))"
  unfolding program_def world_def by (rule runner_results [OF assms(1-11)])

definition sample_tool :: tool_environment where
  "sample_tool =
     \<lparr>readable = (\<lambda>p. True), real_path = Some, is_directory = (\<lambda>p. False), hardware_concurrency = 4,
      embedded_bitcode = (\<lambda>p. []), reader = sample_reader, driver_environment = sample_environment,
      storage_environment = sample_storage_environment, compdb_loader = (\<lambda>p. Inl []),
      regex_search = (\<lambda>r p. False), git_process = quick_world 0,
      open_object = (\<lambda>p. ObjectFile
        [\<lparr>section_name = Inr ''.text'', section_contents_of = Inr ''code''\<rparr>,
         \<lparr>section_name = Inr ''.mull_mutants'', section_contents_of = Inr (section_content [(sample_point, 3)])\<rparr>]),
      source_files = (\<lambda>p. None), garbage = CHR ''?'', now = 0, json_text = (\<lambda>j. []),
      sqlite_error = (\<lambda>s. None), duration_text = ''1ms''\<rparr>"

lemma runner_tests_recorded_mutants_witness:
  "\<exists>d reporters. mull_runner_run sample_tool (initial_values ''prog'') new_diagnostics = (d, Inr (reporters,
     make_Result [decoded_mutant sample_point]
       [\<lparr>execution_result = \<lparr>status = Failed, exitStatus = 1, runningTime = 2, stdoutOutput = [], stderrOutput = []\<rparr>,
         result_mutant = decoded_mutant sample_point\<rparr>]))"
proof -
  have c: "covered sample_point" by (simp add: sample_point_def MutationPoint_def Let_def setEndLocation_def)
  show ?thesis
    using runner_tests_recorded_mutants [of "initial_values ''prog''" sample_tool "''prog''"
        "[\<lparr>section_name = Inr ''.text'', section_contents_of = Inr ''code''\<rparr>,
          \<lparr>section_name = Inr ''.mull_mutants'', section_contents_of = Inr (section_content [(sample_point, 3)])\<rparr>]"
        "[(''.text'', ''code'')]" "[(sample_point, 3)]" "[]"] sample_recordable c
    by (simp add: read_section_def getSectionName_def getSectionContent_def initial_values_def sample_tool_def sample_environment_def starts_def quick_world_def execution_of_def)
qed

lemma mull_cxx_filters_meaning_witness:
  "let opts = (initial_values ''prog'')\<lparr>cl_IncludePaths := [''a.cpp'']\<rparr>;
       env = (\<lambda>storage. sample_tool\<lparr>regex_search := (=), storage_environment := storage\<rparr>);
       fs = (\<lambda>storage. mull_cxx_filters (env storage) opts sample_storage []);
       d = \<lparr>di_directory = ''/src'', di_filename = ''a.cpp'', di_line = 3, di_column = 0, di_unit = None\<rparr>
   in outcome_of (mutationFilters (fs plus_environment)) add_point = Inr (Some (setEndLocation 27 1 add_point)) \<and>
      outcome_of (mutationFilters (fs sample_storage_environment)) add_point = Inl (NullPointer ''ast'') \<and>
      passes (functionFilters (fs plus_environment)) (sample_function\<lparr>subprogram := None\<rparr>) = Inr False \<and>
      passes (functionFilters (fs plus_environment)) (sample_function\<lparr>subprogram := Some d\<rparr>) =
        Inr True"
proof -
  define opts where "opts = (initial_values ''prog'')\<lparr>cl_IncludePaths := [''a.cpp'']\<rparr>"
  define env where "env = (\<lambda>storage. sample_tool\<lparr>regex_search := (=), storage_environment := storage\<rparr>)"
  have sel: "file_selected (env storage) opts path \<longleftrightarrow> path = ''a.cpp''" for storage path
    by (rule selected_a_cpp) (simp_all add: env_def opts_def initial_values_def)
  have junk: "\<not> cl_DisableJunkDetection opts" by (simp add: opts_def initial_values_def)
  have storage: "storage_environment (env storage) = storage" for storage by (simp add: env_def)
  have loc: "\<not> (line (sourceLocation add_point) = 0 \<and> column (sourceLocation add_point) = 0)"
    "filePath (sourceLocation add_point) = ''a.cpp''"
    using add_point_location by (simp_all add: isNull_iff)
  note meaning = mull_cxx_filters_meaning [of "env storage" opts sample_storage "[]" f p for storage f p,
      unfolded sel storage Let_def]
  have "snd (isJunk plus_environment add_point sample_storage) = Inr (False, setEndLocation 27 1 add_point)"
    using plus_not_junk by force
  with meaning [of plus_environment sample_function add_point] loc junk
  have "outcome_of (mutationFilters (mull_cxx_filters (env plus_environment) opts sample_storage [])) add_point =
      Inr (Some (setEndLocation 27 1 add_point))" by simp
  moreover have "outcome_of (mutationFilters (mull_cxx_filters (env sample_storage_environment) opts sample_storage []))
      add_point = Inl (NullPointer ''ast'')"
    using meaning [of sample_storage_environment sample_function add_point] loc junk missing_tree_dereferenced_witness
    by simp
  ultimately show ?thesis
    unfolding Let_def opts_def [symmetric] env_def [symmetric] using meaning [of plus_environment]
    by (simp add: declared_path_def env_def sample_tool_def sample_environment_def)
qed

end
