(* ===== verification/ClangTree.thy ===== *)
theory ClangTree
  imports ASTStorage
begin

text \<open>
  The syntax tree the plugin \<open>tools/mull-cxx-frontend\<close> works on, and its node factory
  (\<open>ASTNodeFactory.cpp\<close>). Clang owns the tree: statements and declarations live in two stores and are
  named by their index, a new one goes to the end. What Clang decides is in the record
  \<open>clang_library\<close>, an argument of the operations; 0 is the null location.
\<close>

section \<open>Types, statements, declarations\<close>

datatype clang_type =
    IntTy | FloatTy | DoubleTy | VoidTy | BoolTy | CharTy
  | ConstType clang_type
  | PointerType clang_type
  | FunctionType clang_type "clang_type list"
  | ConstantArrayType clang_type nat
  | OtherTy string
  | NoTy

datatype cast_kind = CK_PointerToBoolean | CK_FunctionToPointerDecay | CK_ArrayToPointerDecay | CK_Other string

datatype value_kind = VK_RValue | VK_LValue | VK_XValue

datatype object_kind = OK_Ordinary | OK_Other

text \<open>A floating point value is a mantissa and a binary exponent; a literal says whether it is exact.\<close>

datatype stmt_kind =
    BinaryNode binary_opcode
  | CompoundAssignNode binary_opcode clang_type clang_type
  | UnaryNode unary_opcode
  | CallNode
  | IntegerNode "32 word"
  | FloatingNode "int \<times> int" bool
  | StringNode string
  | ImplicitCastNode cast_kind
  | DeclRefNode nat
  | ConditionalNode
  | IfNode
  | CompoundNode
  | ReturnNode
  | DeclStmtNode "nat list"
  | OtherNode string

record clang_stmt =
  stmt_kind :: stmt_kind
  stmt_type :: clang_type
  stmt_value :: value_kind
  stmt_object :: object_kind
  stmt_children :: "nat list"
  stmt_begin :: clang_location
  stmt_end :: clang_location
  stmt_operatorLoc :: clang_location
  stmt_exprLoc :: clang_location

datatype storage_class = SC_None | SC_Extern

record var_declaration =
  vd_name :: string
  vd_type :: clang_type
  vd_storage :: storage_class
  vd_init :: "nat option"
  vd_is_param :: bool
  vd_section :: "string option"

record function_declaration =
  fd_name :: string
  fd_type :: clang_type
  fd_storage :: storage_class
  fd_inline :: bool
  fd_prototype :: bool
  fd_constexpr :: bool
  fd_params :: "nat list"
  fd_location :: clang_location

text \<open>\<open>extern "C"\<close> with braces or not, and what is declared in it.\<close>

datatype clang_declaration =
    VarDeclaration var_declaration
  | FunctionDeclaration function_declaration
  | LinkageSpecC bool "nat list"
  | OtherDeclaration

text \<open>
  What the plugin reads and changes: the two stores of the \<open>ASTContext\<close>, the declarations of its
  translation unit, \<open>WeakTopLevelDecls\<close> of \<open>Sema\<close>, the members \<open>getenvFuncDecl\<close> of
  \<open>ASTInstrumentation\<close> and \<open>astMutator\<close> of \<open>MullASTConsumer\<close> (whether it is set), and the lines of
  output.
\<close>

record frontend_state =
  stmts :: "clang_stmt list"
  declarations :: "clang_declaration list"
  unit_declarations :: "nat list"
  WeakTopLevelDecls :: "nat list"
  getenvFuncDecl :: "nat option"
  astMutator_set :: bool
  frontend_output :: "string list"

datatype parent = StmtParent nat | VarParent nat | OtherNodeParent

text \<open>
  Clang's part: its version, the platform, the parents it knows for a statement, the type of a string
  literal, and when a variable declaration is a definition.
\<close>

record clang_library =
  llvm_major :: nat
  on_apple :: bool
  getParents :: "frontend_state \<Rightarrow> nat \<Rightarrow> parent list"
  stringLiteralArrayType :: "clang_type \<Rightarrow> 32 word \<Rightarrow> clang_type"
  isDefinition :: "var_declaration \<Rightarrow> bool"

section \<open>Stores\<close>

type_synonym 'a frontend = "frontend_state \<Rightarrow> frontend_state \<times> 'a result"

definition stmt :: "frontend_state \<Rightarrow> nat \<Rightarrow> clang_stmt" where
  "stmt s i = stmts s ! i"

definition new_stmt :: "clang_stmt \<Rightarrow> nat frontend" where
  "new_stmt n s = (s\<lparr>stmts := stmts s @ [n]\<rparr>, Inr (length (stmts s)))"

definition new_declaration :: "clang_declaration \<Rightarrow> nat frontend" where
  "new_declaration d s = (s\<lparr>declarations := declarations s @ [d]\<rparr>, Inr (length (declarations s)))"

definition set_stmt :: "nat \<Rightarrow> (clang_stmt \<Rightarrow> clang_stmt) \<Rightarrow> frontend_state \<Rightarrow> frontend_state" where
  "set_stmt i f s = s\<lparr>stmts := (stmts s)[i := f (stmts s ! i)]\<rparr>"

definition set_declaration :: "nat \<Rightarrow> clang_declaration \<Rightarrow> frontend_state \<Rightarrow> frontend_state" where
  "set_declaration d x s = s\<lparr>declarations := (declarations s)[d := x]\<rparr>"

fun var_of :: "clang_declaration \<Rightarrow> var_declaration option" where
  "var_of (VarDeclaration v) = Some v"
| "var_of _ = None"

fun function_of :: "clang_declaration \<Rightarrow> function_declaration option" where
  "function_of (FunctionDeclaration f) = Some f"
| "function_of _ = None"

definition variable :: "frontend_state \<Rightarrow> nat \<Rightarrow> var_declaration option" where
  "variable s v = (if v < length (declarations s) then var_of (declarations s ! v) else None)"

definition variable_init :: "frontend_state \<Rightarrow> nat \<Rightarrow> nat option" where
  "variable_init s v = Option.bind (variable s v) vd_init"

definition function_decl :: "frontend_state \<Rightarrow> nat \<Rightarrow> function_declaration option" where
  "function_decl s f = (if f < length (declarations s) then function_of (declarations s ! f) else None)"

text \<open>\<open>VarDecl::setInit\<close>.\<close>

definition setInit :: "nat \<Rightarrow> nat \<Rightarrow> frontend_state \<Rightarrow> frontend_state" where
  "setInit v i s =
     (case variable s v of
        None \<Rightarrow> s
      | Some d \<Rightarrow> set_declaration v (VarDeclaration (d\<lparr>vd_init := Some i\<rparr>)) s)"

section \<open>The node factory\<close>

definition plain_stmt :: "stmt_kind \<Rightarrow> clang_type \<Rightarrow> value_kind \<Rightarrow> nat list \<Rightarrow> clang_stmt" where
  "plain_stmt k t v children =
     \<lparr>stmt_kind = k, stmt_type = t, stmt_value = v, stmt_object = OK_Ordinary, stmt_children = children,
      stmt_begin = 0, stmt_end = 0, stmt_operatorLoc = 0, stmt_exprLoc = 0\<rparr>"

definition createFunctionDecl :: "string \<Rightarrow> clang_type \<Rightarrow> nat frontend" where
  "createFunctionDecl name functionType =
     new_declaration (FunctionDeclaration
       \<lparr>fd_name = name, fd_type = functionType, fd_storage = SC_Extern, fd_inline = False,
        fd_prototype = True, fd_constexpr = False, fd_params = [], fd_location = 0\<rparr>)"

definition createIntegerLiteral :: "int \<Rightarrow> nat frontend" where
  "createIntegerLiteral v = new_stmt (plain_stmt (IntegerNode (word_of_int v)) IntTy VK_RValue [])"

definition createFloatLiteral_float :: "int \<times> int \<Rightarrow> nat frontend" where
  "createFloatLiteral_float v = new_stmt (plain_stmt (FloatingNode v True) FloatTy VK_RValue [])"

definition createFloatLiteral_double :: "int \<times> int \<Rightarrow> nat frontend" where
  "createFloatLiteral_double v = new_stmt (plain_stmt (FloatingNode v True) DoubleTy VK_RValue [])"

definition getStringLiteralArrayType :: "clang_library \<Rightarrow> clang_type \<Rightarrow> 32 word \<Rightarrow> clang_type" where
  "getStringLiteralArrayType lib t sz =
     (if 9 \<le> llvm_major lib then stringLiteralArrayType lib t sz else ConstantArrayType t (unat (sz + 1)))"

definition getConstantArrayType :: "clang_library \<Rightarrow> clang_type \<Rightarrow> 32 word \<Rightarrow> clang_type" where
  "getConstantArrayType lib t sz =
     (if 10 \<le> llvm_major lib then ConstantArrayType t (unat (ucast (sz + 1) :: 8 word))
      else ConstantArrayType t (unat (sz + 1)))"

text \<open>A string literal is an lvalue for Clang.\<close>

definition createStringLiteral :: "clang_library \<Rightarrow> string \<Rightarrow> nat frontend" where
  "createStringLiteral lib v =
     new_stmt (plain_stmt (StringNode v) (getConstantArrayType lib (ConstType CharTy) (of_nat (length v))) VK_LValue [])"

definition createIfStmt :: "nat option \<Rightarrow> nat option \<Rightarrow> nat option \<Rightarrow> nat frontend" where
  "createIfStmt condExpr thenStmt elseStmt =
     st_bind (st_lift (cxx_assert ''condExpr'' (condExpr \<noteq> None))) (\<lambda>_.
     st_bind (st_lift (cxx_assert ''thenStmt'' (thenStmt \<noteq> None))) (\<lambda>_.
     new_stmt (plain_stmt IfNode NoTy VK_RValue
       (the condExpr # the thenStmt # (case elseStmt of None \<Rightarrow> [] | Some e \<Rightarrow> [e])))))"

definition createReturnStmt :: "nat option \<Rightarrow> nat frontend" where
  "createReturnStmt expr =
     new_stmt (plain_stmt ReturnNode NoTy VK_RValue (case expr of None \<Rightarrow> [] | Some e \<Rightarrow> [e]))"

definition createImplicitCastExpr :: "nat \<Rightarrow> clang_type \<Rightarrow> cast_kind \<Rightarrow> value_kind \<Rightarrow> nat frontend" where
  "createImplicitCastExpr expr qualType castKind valueKind =
     new_stmt (plain_stmt (ImplicitCastNode castKind) qualType valueKind [expr])"

definition createUnaryOperator :: "unary_opcode \<Rightarrow> nat \<Rightarrow> clang_type \<Rightarrow> value_kind \<Rightarrow> nat frontend" where
  "createUnaryOperator op expr resultType valueKind =
     new_stmt (plain_stmt (UnaryNode op) resultType valueKind [expr])"

definition createBinaryOperator ::
  "binary_opcode \<Rightarrow> nat \<Rightarrow> nat \<Rightarrow> clang_type \<Rightarrow> value_kind \<Rightarrow> nat frontend" where
  "createBinaryOperator op lhs rhs resultType valueKind =
     new_stmt (plain_stmt (BinaryNode op) resultType valueKind [lhs, rhs])"

definition createCompoundAssignOperator ::
  "binary_opcode \<Rightarrow> nat \<Rightarrow> nat \<Rightarrow> clang_type \<Rightarrow> value_kind \<Rightarrow> clang_type \<Rightarrow> clang_type \<Rightarrow> nat frontend" where
  "createCompoundAssignOperator op lhs rhs resultType valueKind compLHSType compResultType =
     new_stmt (plain_stmt (CompoundAssignNode op compLHSType compResultType) resultType valueKind [lhs, rhs])"

definition createCallExprSingleArg :: "nat \<Rightarrow> nat \<Rightarrow> clang_type \<Rightarrow> value_kind \<Rightarrow> nat frontend" where
  "createCallExprSingleArg fn argument returnType valueKind =
     new_stmt (plain_stmt CallNode returnType valueKind [fn, argument])"

text \<open>The attribute is the section's name.\<close>

definition createSectionAttr :: "string \<Rightarrow> string" where
  "createSectionAttr sectionName = sectionName"

lemmas factory_defs =
  createIntegerLiteral_def createFloatLiteral_float_def createFloatLiteral_double_def
  createImplicitCastExpr_def createUnaryOperator_def createBinaryOperator_def
  createCompoundAssignOperator_def createCallExprSingleArg_def

lemma st_bind_new_stmt [simp]:
  "st_bind (new_stmt n) f s = f (length (stmts s)) (s\<lparr>stmts := stmts s @ [n]\<rparr>)"
  by (simp add: st_bind_def new_stmt_def)

lemma st_bind_new_declaration [simp]:
  "st_bind (new_declaration d) f s = f (length (declarations s)) (s\<lparr>declarations := declarations s @ [d]\<rparr>)"
  by (simp add: st_bind_def new_declaration_def)

text \<open>The type \<open>getConstantArrayType\<close> gives a string has room for it only up to 254 characters from LLVM 10 on.\<close>

lemma getConstantArrayType_room:
  assumes "n < 2 ^ 32 - 1"
  shows "getConstantArrayType lib t (of_nat n) =
     ConstantArrayType t (if 10 \<le> llvm_major lib then (n + 1) mod 256 else n + 1)"
proof -
  have "unat (of_nat n + 1 :: 32 word) = n + 1"
    using assms by (simp add: unat_word_ariths unat_of_nat take_bit_eq_mod)
  then show ?thesis
    by (simp add: getConstantArrayType_def unsigned_ucast_eq take_bit_eq_mod)
qed

end
