(* ===== verification/ClangInstrumentation.thy ===== *)
theory ClangInstrumentation
  imports ClangTree
begin

text \<open>
  \<open>ASTInstrumentation.cpp\<close>: the declaration of \<open>getenv\<close> and the strings of the mutants section;
  \<open>ClangASTMutator.cpp\<close>: an expression or a statement is replaced by a conditional on \<open>getenv\<close>.
\<close>

section \<open>ASTInstrumentation\<close>

definition createGetEnvFuncDecl :: "nat frontend" where
  "createGetEnvFuncDecl =
     (let parameterType = PointerType (ConstType CharTy);
          returnType = PointerType CharTy;
          getenvFuncType = FunctionType returnType [parameterType]
      in st_bind (createFunctionDecl ''getenv'' getenvFuncType) (\<lambda>f.
         st_bind (new_declaration (VarDeclaration
           \<lparr>vd_name = ''name'', vd_type = parameterType, vd_storage = SC_None, vd_init = None,
            vd_is_param = True, vd_section = None\<rparr>)) (\<lambda>p s.
         case function_decl s f of
           None \<Rightarrow> (s, Inl (NullPointer ''getEnvFuncDecl''))
         | Some d \<Rightarrow> (set_declaration f (FunctionDeclaration (d\<lparr>fd_params := [p]\<rparr>)) s, Inr f))))"

definition instrumentTranslationUnit :: "unit frontend" where
  "instrumentTranslationUnit =
     st_bind (new_declaration (LinkageSpecC True [])) (\<lambda>l.
     st_bind createGetEnvFuncDecl (\<lambda>f s.
       st_return ()
         ((set_declaration l (LinkageSpecC True [f]) s)
            \<lparr>getenvFuncDecl := Some f, unit_declarations := unit_declarations s @ [l]\<rparr>)))"

definition mutant_variable_name :: "int \<Rightarrow> int \<Rightarrow> int \<Rightarrow> string" where
  "mutant_variable_name mutator ln col =
     ''mull_mutation_'' @ string_of_int mutator @ ''_'' @ string_of_int ln @ ''_'' @ string_of_int col"

definition mullSection :: "clang_library \<Rightarrow> string" where
  "mullSection lib = (if on_apple lib then ''__mull,.mull_mutants'' else ''.mull_mutants'')"

definition mutant_variable :: "clang_library \<Rightarrow> string \<Rightarrow> int \<Rightarrow> int \<Rightarrow> int \<Rightarrow> nat \<Rightarrow> var_declaration" where
  "mutant_variable lib identifier mutator ln col literal =
     \<lparr>vd_name = mutant_variable_name mutator ln col,
      vd_type = getStringLiteralArrayType lib (ConstType CharTy) (of_nat (length identifier)),
      vd_storage = SC_Extern, vd_init = Some literal, vd_is_param = False,
      vd_section = Some (createSectionAttr (mullSection lib))\<rparr>"

definition addMutantStringDefinition :: "clang_library \<Rightarrow> string \<Rightarrow> int \<Rightarrow> int \<Rightarrow> int \<Rightarrow> unit frontend" where
  "addMutantStringDefinition lib identifier mutator ln col =
     st_bind (createStringLiteral lib identifier) (\<lambda>literal s.
       (let s1 = set_stmt literal (\<lambda>n. n\<lparr>stmt_value := VK_RValue\<rparr>) s;
            v = mutant_variable lib identifier mutator ln col literal
        in st_bind (new_declaration (VarDeclaration v)) (\<lambda>d.
           st_bind (\<lambda>s. st_return () (s\<lparr>unit_declarations := unit_declarations s @ [d]\<rparr>)) (\<lambda>_.
           st_bind (st_lift (cxx_assert ''isThisDeclarationADefinition'' (isDefinition lib v))) (\<lambda>_ s.
             st_return () (s\<lparr>WeakTopLevelDecls := WeakTopLevelDecls s @ [d]\<rparr>)))) s1))"

definition getGetenvFuncDecl :: "nat frontend" where
  "getGetenvFuncDecl s =
     (case getenvFuncDecl s of
        None \<Rightarrow> (s, Inl (AssertFailed ''getenvFuncDecl''))
      | Some f \<Rightarrow> (s, Inr f))"

section \<open>ClangASTMutator\<close>

fun return_type :: "clang_type \<Rightarrow> clang_type" where
  "return_type (FunctionType r ps) = r"
| "return_type t = NoTy"

text \<open>The seven nodes of \<open>(bool) getenv(identifier)\<close>, of which the call is the last but one.\<close>

definition createGetenvCallExpr :: "clang_library \<Rightarrow> string \<Rightarrow> nat frontend" where
  "createGetenvCallExpr lib identifier =
     st_bind getGetenvFuncDecl (\<lambda>g s.
       case function_decl s g of
         None \<Rightarrow> (s, Inl (NullPointer ''getenvFuncDecl''))
       | Some fd \<Rightarrow>
           st_bind (new_stmt (plain_stmt (DeclRefNode g) (fd_type fd) VK_LValue [])) (\<lambda>declRefExpr.
           st_bind (createImplicitCastExpr declRefExpr (PointerType (fd_type fd))
                      CK_FunctionToPointerDecay VK_RValue) (\<lambda>implicitCastExpr.
           st_bind (new_stmt (plain_stmt (StringNode identifier)
                      (getStringLiteralArrayType lib CharTy (of_nat (length identifier))) VK_LValue [])) (\<lambda>stringLiteral.
           st_bind (new_stmt (plain_stmt (ImplicitCastNode CK_ArrayToPointerDecay)
                      (PointerType (ConstType CharTy)) VK_RValue [stringLiteral])) (\<lambda>implicitCastExpr2.
           createCallExprSingleArg implicitCastExpr implicitCastExpr2 (return_type (fd_type fd)) VK_RValue)))) s)"

definition createMutatedStatement ::
  "clang_library \<Rightarrow> nat \<Rightarrow> nat option \<Rightarrow> string \<Rightarrow> nat frontend" where
  "createMutatedStatement lib oldStmt newStmt identifier =
     st_bind (createGetenvCallExpr lib identifier) (\<lambda>getenvCallExpr.
     st_bind (new_stmt (plain_stmt (ImplicitCastNode CK_PointerToBoolean) BoolTy VK_RValue [getenvCallExpr]))
       (\<lambda>implicitCastExpr.
     st_bind (new_stmt (plain_stmt CompoundNode NoTy VK_RValue (case newStmt of None \<Rightarrow> [] | Some n \<Rightarrow> [n])))
       (\<lambda>compoundThenStmt.
     st_bind (new_stmt (plain_stmt CompoundNode NoTy VK_RValue [oldStmt])) (\<lambda>compoundElseStmt.
     createIfStmt (Some implicitCastExpr) (Some compoundThenStmt) (Some compoundElseStmt)))))"

definition createMutatedExpression :: "clang_library \<Rightarrow> nat \<Rightarrow> nat \<Rightarrow> string \<Rightarrow> nat frontend" where
  "createMutatedExpression lib oldExpr newExpr identifier =
     st_bind (createGetenvCallExpr lib identifier) (\<lambda>mullShouldMutateCallExpr.
     st_bind (new_stmt (plain_stmt (ImplicitCastNode CK_PointerToBoolean) BoolTy VK_RValue
                [mullShouldMutateCallExpr])) (\<lambda>implicitCastExpr3 s.
     new_stmt ((plain_stmt ConditionalNode (stmt_type (stmt s newExpr)) (stmt_value (stmt s newExpr))
                 [implicitCastExpr3, newExpr, oldExpr])\<lparr>stmt_object := stmt_object (stmt s newExpr)\<rparr>) s))"

fun find_child :: "'a \<Rightarrow> 'a list \<Rightarrow> nat option" where
  "find_child x [] = None"
| "find_child x (y # ys) = (if x = y then Some 0 else map_option Suc (find_child x ys))"

text \<open>\<open>std::find\<close> among the parent's children, the assertion that it is there, and the assignment.\<close>

definition replace_child :: "nat \<Rightarrow> nat \<Rightarrow> nat \<Rightarrow> unit frontend" where
  "replace_child q old new s =
     (case find_child old (stmt_children (stmt s q)) of
        None \<Rightarrow> (s, Inl (AssertFailed ''parentChildrenIterator''))
      | Some k \<Rightarrow> (set_stmt q (\<lambda>n. n\<lparr>stmt_children := (stmt_children n)[k := new]\<rparr>) s, Inr ()))"

text \<open>Both loops over the parents return in their first round.\<close>

definition replaceExpression :: "clang_library \<Rightarrow> nat \<Rightarrow> nat \<Rightarrow> string \<Rightarrow> unit frontend" where
  "replaceExpression lib oldExpr newExpr identifier =
     st_bind (createMutatedExpression lib oldExpr newExpr identifier) (\<lambda>conditionalExpr s.
       case getParents lib s oldExpr of
         [] \<Rightarrow> (s, Inl (AssertFailed ''Should not reach here''))
       | StmtParent q # _ \<Rightarrow> replace_child q oldExpr conditionalExpr s
       | VarParent v # _ \<Rightarrow> (setInit v conditionalExpr s, Inr ())
       | OtherNodeParent # _ \<Rightarrow> (s, Inl (AssertFailed ''error: not implemented'')))"

definition replaceStatement :: "clang_library \<Rightarrow> nat \<Rightarrow> nat option \<Rightarrow> string \<Rightarrow> unit frontend" where
  "replaceStatement lib oldStmt newStmt identifier =
     st_bind (createMutatedStatement lib oldStmt newStmt identifier) (\<lambda>ifCondition s.
       case getParents lib s oldStmt of
         [] \<Rightarrow> (s, Inl (AssertFailed ''Should not reach here''))
       | StmtParent q # _ \<Rightarrow> replace_child q oldStmt ifCondition s
       | _ # _ \<Rightarrow> (s, Inl (AssertFailed ''parentStmt'')))"

section \<open>What the operations build\<close>

lemma st_bind_lift_Inr [simp]: "st_bind (st_lift (Inr x)) f = f x"
  by (simp add: st_bind_def st_lift_def fun_eq_iff)

text \<open>The condition on \<open>getenv(identifier)\<close> put behind \<open>n\<close> statements: its root is the sixth node.\<close>

definition guard_nodes :: "clang_library \<Rightarrow> nat \<Rightarrow> clang_type \<Rightarrow> nat \<Rightarrow> string \<Rightarrow> clang_stmt list" where
  "guard_nodes lib g gtype n identifier =
     [plain_stmt (DeclRefNode g) gtype VK_LValue [],
      plain_stmt (ImplicitCastNode CK_FunctionToPointerDecay) (PointerType gtype) VK_RValue [n],
      plain_stmt (StringNode identifier) (getStringLiteralArrayType lib CharTy (of_nat (length identifier)))
        VK_LValue [],
      plain_stmt (ImplicitCastNode CK_ArrayToPointerDecay) (PointerType (ConstType CharTy)) VK_RValue [n + 2],
      plain_stmt CallNode (return_type gtype) VK_RValue [n + 1, n + 3],
      plain_stmt (ImplicitCastNode CK_PointerToBoolean) BoolTy VK_RValue [n + 4]]"

definition mutated_expression ::
  "clang_library \<Rightarrow> nat \<Rightarrow> clang_type \<Rightarrow> string \<Rightarrow> nat \<Rightarrow> nat \<Rightarrow> clang_stmt list \<Rightarrow> clang_stmt list" where
  "mutated_expression lib g gtype identifier old new ss =
     guard_nodes lib g gtype (length ss) identifier @
     [(plain_stmt ConditionalNode (stmt_type (ss ! new)) (stmt_value (ss ! new))
         [length ss + 5, new, old])\<lparr>stmt_object := stmt_object (ss ! new)\<rparr>]"

definition mutated_statement ::
  "clang_library \<Rightarrow> nat \<Rightarrow> clang_type \<Rightarrow> string \<Rightarrow> nat \<Rightarrow> nat option \<Rightarrow> clang_stmt list \<Rightarrow> clang_stmt list" where
  "mutated_statement lib g gtype identifier old new ss =
     guard_nodes lib g gtype (length ss) identifier @
     [plain_stmt CompoundNode NoTy VK_RValue (case new of None \<Rightarrow> [] | Some n \<Rightarrow> [n]),
      plain_stmt CompoundNode NoTy VK_RValue [old],
      plain_stmt IfNode NoTy VK_RValue [length ss + 5, length ss + 6, length ss + 7]]"

lemma createMutatedExpression_eq:
  assumes "getenvFuncDecl s = Some g" "function_decl s g = Some fd" "new < length (stmts s)"
  shows "createMutatedExpression lib old new identifier s =
    (s\<lparr>stmts := stmts s @ mutated_expression lib g (fd_type fd) identifier old new (stmts s)\<rparr>,
     Inr (length (stmts s) + 6))"
  using assms
  by (simp add: createMutatedExpression_def createGetenvCallExpr_def getGetenvFuncDecl_def st_bind_def
      factory_defs new_stmt_def mutated_expression_def guard_nodes_def stmt_def nth_append eval_nat_numeral)

lemma createMutatedStatement_eq:
  assumes "getenvFuncDecl s = Some g" "function_decl s g = Some fd"
  shows "createMutatedStatement lib old new identifier s =
    (s\<lparr>stmts := stmts s @ mutated_statement lib g (fd_type fd) identifier old new (stmts s)\<rparr>,
     Inr (length (stmts s) + 8))"
  using assms
  by (simp add: createMutatedStatement_def createGetenvCallExpr_def getGetenvFuncDecl_def st_bind_def
      factory_defs new_stmt_def mutated_statement_def guard_nodes_def createIfStmt_def st_lift_def
      eval_nat_numeral)

lemma addMutantStringDefinition_eq:
  assumes "isDefinition lib (mutant_variable lib rec mutator ln col (length (stmts s)))"
  shows "addMutantStringDefinition lib rec mutator ln col s =
    (s\<lparr>stmts := stmts s @ [plain_stmt (StringNode rec)
          (getConstantArrayType lib (ConstType CharTy) (of_nat (length rec))) VK_RValue []],
       declarations := declarations s @ [VarDeclaration (mutant_variable lib rec mutator ln col (length (stmts s)))],
       unit_declarations := unit_declarations s @ [length (declarations s)],
       WeakTopLevelDecls := WeakTopLevelDecls s @ [length (declarations s)]\<rparr>, Inr ())"
  using assms
  by (simp add: addMutantStringDefinition_def createStringLiteral_def Let_def set_stmt_def st_bind_def
      st_return_def new_stmt_def new_declaration_def plain_stmt_def st_lift_def nth_append)

end
