(* ===== verification/FrontendSearch.thy ===== *)
theory FrontendSearch
  imports ClangInstrumentation JunkDetector
begin

text \<open>
  The search of the plugin \<open>tools/mull-cxx-frontend\<close>: the table of its mutators (\<open>MutationMap.cpp\<close>),
  the point it records (\<open>ASTMutationPoint.cpp\<close>, \<open>ASTMutation.h\<close>), and the visitor that finds the points
  of a function (\<open>ASTMutationsSearchVisitor.cpp\<close>). Clang's source manager is a record of its answers.
\<close>

section \<open>The table of mutators\<close>

definition MUTATIONS_MAP :: "(string \<times> mutator_kind) list" where
  "MUTATIONS_MAP = [
     (''cxx_add_to_sub'', Kind_CXX_AddToSub),
     (''cxx_sub_to_add'', Kind_CXX_SubToAdd),
     (''cxx_mul_to_div'', Kind_CXX_MulToDiv),
     (''cxx_div_to_mul'', Kind_CXX_DivToMul),
     (''cxx_rem_to_div'', Kind_CXX_RemToDiv),
     (''cxx_eq_to_ne'', Kind_CXX_EqualToNotEqual),
     (''cxx_ne_to_eq'', Kind_CXX_NotEqualToEqual),
     (''cxx_ge_to_gt'', Kind_CXX_GreaterOrEqualToGreaterThan),
     (''cxx_ge_to_lt'', Kind_CXX_GreaterOrEqualToLessThan),
     (''cxx_gt_to_ge'', Kind_CXX_GreaterThanToGreaterOrEqual),
     (''cxx_gt_to_le'', Kind_CXX_GreaterThanToLessOrEqual),
     (''cxx_le_to_gt'', Kind_CXX_LessOrEqualToGreaterThan),
     (''cxx_le_to_lt'', Kind_CXX_LessOrEqualToLessThan),
     (''cxx_lt_to_ge'', Kind_CXX_LessThanToGreaterOrEqual),
     (''cxx_lt_to_le'', Kind_CXX_LessThanToLessOrEqual),
     (''cxx_add_assign_to_sub_assign'', Kind_CXX_AddAssignToSubAssign),
     (''cxx_sub_assign_to_add_assign'', Kind_CXX_SubAssignToAddAssign),
     (''cxx_mul_assign_to_div_assign'', Kind_CXX_MulAssignToDivAssign),
     (''cxx_div_assign_to_mul_assign'', Kind_CXX_DivAssignToMulAssign),
     (''cxx_rem_assign_to_div_assign'', Kind_CXX_RemAssignToDivAssign),
     (''cxx_and_to_or'', Kind_CXX_Bitwise_AndToOr),
     (''cxx_or_to_and'', Kind_CXX_Bitwise_OrToAnd),
     (''cxx_xor_to_or'', Kind_CXX_Bitwise_XorToOr),
     (''cxx_lshift_to_rshift'', Kind_CXX_LShiftToRShift),
     (''cxx_rshift_to_lshift'', Kind_CXX_RShiftToLShift),
     (''cxx_and_assign_to_or_assign'', Kind_CXX_Bitwise_AndAssignToOrAssign),
     (''cxx_or_assign_to_and_assign'', Kind_CXX_Bitwise_OrAssignToAndAssign),
     (''cxx_xor_assign_to_or_assign'', Kind_CXX_Bitwise_XorAssignToOrAssign),
     (''cxx_lshift_assign_to_rshift_assign'', Kind_CXX_LShiftAssignToRShiftAssign),
     (''cxx_rshift_assign_to_lshift_assign'', Kind_CXX_RShiftAssignToLShiftAssign),
     (''cxx_post_inc_to_post_dec'', Kind_CXX_PostIncToPostDec),
     (''cxx_post_dec_to_post_inc'', Kind_CXX_PostDecToPostInc),
     (''cxx_pre_inc_to_pre_dec'', Kind_CXX_PreIncToPreDec),
     (''cxx_pre_dec_to_pre_inc'', Kind_CXX_PreDecToPreInc),
     (''cxx_logical_and_to_or'', Kind_CXX_Logical_AndToOr),
     (''cxx_logical_or_to_and'', Kind_CXX_Logical_OrToAnd),
     (''cxx_remove_void_call'', Kind_CXX_RemoveVoidCall),
     (''cxx_minus_to_noop'', Kind_CXX_UnaryMinusToNoop),
     (''cxx_bitwise_not_to_noop'', Kind_CXX_BitwiseNotToNoop),
     (''cxx_remove_negation'', Kind_CXX_RemoveNegation),
     (''cxx_assign_const'', Kind_CXX_AssignConst),
     (''cxx_init_const'', Kind_CXX_InitConst),
     (''cxx_replace_scalar_call'', Kind_CXX_ReplaceScalarCall)]"

record mutation_map =
  usedMutatorSet :: "mutator_kind set"
  mapKindsToIdentifiers :: "mutator_kind \<Rightarrow> string option"
  mapIdentifiersToKinds :: "string \<Rightarrow> mutator_kind option"

definition MutationMap :: "mutation_map result" where
  "MutationMap =
     (let m = foldl (\<lambda>m (identifier, kind).
                m\<lparr>mapKindsToIdentifiers := (mapKindsToIdentifiers m)(kind \<mapsto> identifier),
                  mapIdentifiersToKinds := (mapIdentifiersToKinds m)(identifier \<mapsto> kind)\<rparr>)
              \<lparr>usedMutatorSet = {}, mapKindsToIdentifiers = Map.empty, mapIdentifiersToKinds = Map.empty\<rparr>
              MUTATIONS_MAP
      in bind_result (cxx_assert ''mapKindsToIdentifiers'' (mapKindsToIdentifiers m Kind_CXX_AddToSub \<noteq> None))
           (\<lambda>_. Inr m))"

definition isValidMutation :: "mutation_map \<Rightarrow> mutator_kind \<Rightarrow> bool" where
  "isValidMutation m kind \<longleftrightarrow> kind \<in> usedMutatorSet m"

text \<open>\<open>operator[]\<close> adds an empty entry for a missing kind; every later read of it gives the empty string too.\<close>

definition getIdentifier :: "mutation_map \<Rightarrow> mutator_kind \<Rightarrow> string" where
  "getIdentifier m kind = (case mapKindsToIdentifiers m kind of None \<Rightarrow> [] | Some identifier \<Rightarrow> identifier)"

definition MutationMap_addMutation :: "string \<Rightarrow> mutation_map \<Rightarrow> mutation_map result" where
  "MutationMap_addMutation identifier m =
     (case mapIdentifiersToKinds m identifier of
        None \<Rightarrow> Inl (AssertFailed ''mapIdentifiersToKinds'')
      | Some kind \<Rightarrow> Inr (m\<lparr>usedMutatorSet := insert kind (usedMutatorSet m)\<rparr>))"

definition setDefaultMutationsIfNotSpecified :: "mutation_map \<Rightarrow> mutation_map" where
  "setDefaultMutationsIfNotSpecified m =
     (if usedMutatorSet m \<noteq> {} then m
      else foldl (\<lambda>m (identifier, kind). m\<lparr>usedMutatorSet := insert kind (usedMutatorSet m)\<rparr>) m MUTATIONS_MAP)"

section \<open>Mutation points\<close>

datatype ast_mutation =
    BinaryMutation binary_opcode
  | RemoveVoidMutation
  | ReplaceScalarCallMutation nat
  | UnaryOperatorOpcodeMutation nat unary_opcode
  | UnaryOperatorRemovalMutation nat
  | ReplaceNumericAssignmentMutation nat
  | ReplaceNumericInitAssignmentMutation nat

record ast_mutation_point =
  amp_mutation :: ast_mutation
  amp_mutationType :: mutator_kind
  amp_mutableStmt :: nat
  amp_sourceFilePath :: string
  amp_beginLine :: int
  amp_beginColumn :: int
  amp_endLine :: int
  amp_endColumn :: int
  mutationIdentifier :: string
  mutationBinaryRecord :: string

definition ASTMutationPoint ::
  "ast_mutation \<Rightarrow> mutator_kind \<Rightarrow> string \<Rightarrow> nat \<Rightarrow> string \<Rightarrow> int \<Rightarrow> int \<Rightarrow> int \<Rightarrow> int \<Rightarrow> ast_mutation_point" where
  "ASTMutationPoint mutation kind identifier toBeMutatedStmt path bl bc el ec =
     \<lparr>amp_mutation = mutation, amp_mutationType = kind, amp_mutableStmt = toBeMutatedStmt,
      amp_sourceFilePath = path, amp_beginLine = bl, amp_beginColumn = bc, amp_endLine = el, amp_endColumn = ec,
      mutationIdentifier =
        identifier @ '':'' @ path @ '':'' @ string_of_int bl @ '':'' @ string_of_int bc,
      mutationBinaryRecord =
        identifier @ '':'' @ path @ '':'' @ string_of_int bl @ '':'' @ string_of_int bc @
        '':'' @ string_of_int el @ '':'' @ string_of_int ec @ '':1''\<rparr>"

section \<open>Places in the source\<close>

record frontend_source_manager = clang_source_manager +
  isInSystemMacro :: "clang_location \<Rightarrow> bool"
  isMacroID :: "clang_location \<Rightarrow> bool"
  getSpellingLoc :: "clang_location \<Rightarrow> clang_location"
  source_getFilename :: "clang_location \<Rightarrow> string"
  locForEndOfToken :: "clang_location \<Rightarrow> clang_location"

text \<open>\<open>std::string::find\<close> of a text, as the question whether it is there.\<close>

fun found_in :: "string \<Rightarrow> string \<Rightarrow> bool" where
  "found_in p [] \<longleftrightarrow> p = []"
| "found_in p (c # s) \<longleftrightarrow> take (length p) (c # s) = p \<or> found_in p s"

definition getBeginEndMutationLocation ::
  "frontend_source_manager \<Rightarrow> clang_stmt \<Rightarrow> clang_location \<Rightarrow> bool \<Rightarrow> clang_location \<times> clang_location" where
  "getBeginEndMutationLocation sm n mutationLocation locationIsExpression =
     (let endLocation = (if locationIsExpression then stmt_end n else mutationLocation);
          (updatedMutationLocation, endLocation) =
            (if \<not> isMacroID sm mutationLocation then (mutationLocation, endLocation)
             else (getSpellingLoc sm mutationLocation, getSpellingLoc sm endLocation))
      in (updatedMutationLocation, locForEndOfToken sm endLocation))"

section \<open>The visitor\<close>

record search_state =
  astMutations :: "ast_mutation_point list"
  search_output :: "string list"

definition recordMutationPoint ::
  "frontend_source_manager \<Rightarrow> mutation_map \<Rightarrow> frontend_state \<Rightarrow> mutator_kind \<Rightarrow> ast_mutation \<Rightarrow> nat \<Rightarrow>
   clang_location \<Rightarrow> bool \<Rightarrow> search_state \<Rightarrow> search_state" where
  "recordMutationPoint sm mm s kind mutation i mutationLocation locationIsExpression st =
     (if inSystemHeader sm mutationLocation then st
      else if isInSystemMacro sm mutationLocation then st
      else
        let (beginLocation, endLocation) =
              getBeginEndMutationLocation sm (stmt s i) mutationLocation locationIsExpression;
            sourceFilePath = source_getFilename sm beginLocation
        in if sourceFilePath = [] then
             st\<lparr>search_output := search_output st @
               [''ASTMutationsSearchVisitor: Not implemented: A mutation location has no source file path. '' @
                ''Parent AST statement dump:'']\<rparr>
           else if found_in ''include/gtest'' sourceFilePath then st
           else
             let beginLine = getExpansionLineNumber sm beginLocation;
                 beginColumn = getExpansionColumnNumber sm beginLocation;
                 endLine = getExpansionLineNumber sm endLocation;
                 endColumn = getExpansionColumnNumber sm endLocation;
                 p = ASTMutationPoint mutation kind (getIdentifier mm kind) i sourceFilePath
                       beginLine beginColumn endLine endColumn
             in st\<lparr>search_output := search_output st @
                     [''Recording mutation point: '' @ mutationIdentifier p @ '' (end: '' @
                      string_of_int endLine @ '':'' @ string_of_int endColumn @ '')''],
                   astMutations := astMutations st @ [p]\<rparr>)"

definition VisitUnaryOperator_search ::
  "frontend_source_manager \<Rightarrow> mutation_map \<Rightarrow> frontend_state \<Rightarrow> nat \<Rightarrow> unary_opcode \<Rightarrow> search_state \<Rightarrow> search_state" where
  "VisitUnaryOperator_search sm mm s i op st =
     (let loc = stmt_operatorLoc (stmt s i);
          replace_opcode = (\<lambda>kind op'. recordMutationPoint sm mm s kind (UnaryOperatorOpcodeMutation i op') i loc False st);
          remove = (\<lambda>kind. recordMutationPoint sm mm s kind (UnaryOperatorRemovalMutation i) i loc False st)
      in if op = UO_PostDec \<and> isValidMutation mm Kind_CXX_PostDecToPostInc
           then replace_opcode Kind_CXX_PostDecToPostInc UO_PostInc
         else if op = UO_PostInc \<and> isValidMutation mm Kind_CXX_PostIncToPostDec
           then replace_opcode Kind_CXX_PostIncToPostDec UO_PostDec
         else if op = UO_PreInc \<and> isValidMutation mm Kind_CXX_PreIncToPreDec
           then replace_opcode Kind_CXX_PreIncToPreDec UO_PreDec
         else if op = UO_PreDec \<and> isValidMutation mm Kind_CXX_PreDecToPreInc
           then replace_opcode Kind_CXX_PreDecToPreInc UO_PreInc
         else if op = UO_LNot \<and> isValidMutation mm Kind_CXX_RemoveNegation
           then remove Kind_CXX_RemoveNegation
         else if op = UO_Minus \<and> isValidMutation mm Kind_CXX_UnaryMinusToNoop
           then remove Kind_CXX_UnaryMinusToNoop
         else if op = UO_Not \<and> isValidMutation mm Kind_CXX_BitwiseNotToNoop
           then remove Kind_CXX_BitwiseNotToNoop
         else st)"

text \<open>\<open>getLHS\<close> and \<open>getRHS\<close> of a binary operator are its two children.\<close>

definition rhs_of :: "frontend_state \<Rightarrow> nat \<Rightarrow> nat" where
  "rhs_of s i = stmt_children (stmt s i) ! 1"

definition numeric_type :: "clang_type \<Rightarrow> bool" where
  "numeric_type t \<longleftrightarrow> t = IntTy \<or> t = FloatTy \<or> t = DoubleTy"

fun binary_mutations_loop ::
  "frontend_source_manager \<Rightarrow> mutation_map \<Rightarrow> frontend_state \<Rightarrow> nat \<Rightarrow> binary_opcode \<Rightarrow>
   (binary_opcode \<times> mutator_kind \<times> binary_opcode) list \<Rightarrow> search_state \<Rightarrow> search_state" where
  "binary_mutations_loop sm mm s i op [] st = st"
| "binary_mutations_loop sm mm s i op ((from_op, kind, to_op) # mutations) st =
     binary_mutations_loop sm mm s i op mutations
       (if op = from_op \<and> isValidMutation mm kind
        then recordMutationPoint sm mm s kind (BinaryMutation to_op) i (stmt_operatorLoc (stmt s i)) False st
        else st)"

definition VisitBinaryOperator_search ::
  "frontend_source_manager \<Rightarrow> mutation_map \<Rightarrow> frontend_state \<Rightarrow> nat \<Rightarrow> binary_opcode \<Rightarrow> search_state \<Rightarrow> search_state" where
  "VisitBinaryOperator_search sm mm s i op st =
     (if op = BO_Assign \<and> isValidMutation mm Kind_CXX_AssignConst
      then (if numeric_type (stmt_type (stmt s (rhs_of s i)))
            then recordMutationPoint sm mm s Kind_CXX_AssignConst (ReplaceNumericAssignmentMutation i) i
                   (stmt_operatorLoc (stmt s i)) True st
            else st)
      else binary_mutations_loop sm mm s i op BinaryMutations st)"

definition VisitCallExpr_search ::
  "frontend_source_manager \<Rightarrow> mutation_map \<Rightarrow> frontend_state \<Rightarrow> nat \<Rightarrow> search_state \<Rightarrow> search_state" where
  "VisitCallExpr_search sm mm s i st =
     (let st1 = (if stmt_type (stmt s i) = VoidTy \<and> isValidMutation mm Kind_CXX_RemoveVoidCall
                 then recordMutationPoint sm mm s Kind_CXX_RemoveVoidCall RemoveVoidMutation i
                        (stmt_begin (stmt s i)) True st
                 else st)
      in if stmt_type (stmt s i) = IntTy \<and> isValidMutation mm Kind_CXX_ReplaceScalarCall
         then recordMutationPoint sm mm s Kind_CXX_ReplaceScalarCall (ReplaceScalarCallMutation i) i
                (stmt_begin (stmt s i)) True st1
         else st1)"

definition VisitVarDecl_search ::
  "frontend_source_manager \<Rightarrow> mutation_map \<Rightarrow> frontend_state \<Rightarrow> nat \<Rightarrow> var_declaration \<Rightarrow>
   search_state \<Rightarrow> search_state result" where
  "VisitVarDecl_search sm mm s v d st =
     (if vd_is_param d then Inr st
      else if isValidMutation mm Kind_CXX_InitConst \<and> numeric_type (vd_type d)
      then (case vd_init d of
              None \<Rightarrow> Inl (NullPointer ''getInit'')
            | Some i \<Rightarrow> Inr (recordMutationPoint sm mm s Kind_CXX_InitConst
                              (ReplaceNumericInitAssignmentMutation v) i (stmt_exprLoc (stmt s i)) True st))
      else Inr st)"

text \<open>What Clang's traversal of a function calls the visitor with, in its order.\<close>

datatype visited = VisitedStmt nat | VisitedVar nat

fun visit :: "frontend_source_manager \<Rightarrow> mutation_map \<Rightarrow> frontend_state \<Rightarrow> visited \<Rightarrow> search_state \<Rightarrow> search_state result" where
  "visit sm mm s (VisitedStmt i) st =
     Inr (case stmt_kind (stmt s i) of
            UnaryNode op \<Rightarrow> VisitUnaryOperator_search sm mm s i op st
          | BinaryNode op \<Rightarrow> VisitBinaryOperator_search sm mm s i op st
          | CompoundAssignNode op _ _ \<Rightarrow> VisitBinaryOperator_search sm mm s i op st
          | CallNode \<Rightarrow> VisitCallExpr_search sm mm s i st
          | _ \<Rightarrow> st)"
| "visit sm mm s (VisitedVar v) st =
     (case variable s v of None \<Rightarrow> Inr st | Some d \<Rightarrow> VisitVarDecl_search sm mm s v d st)"

fun visit_all ::
  "frontend_source_manager \<Rightarrow> mutation_map \<Rightarrow> frontend_state \<Rightarrow> visited list \<Rightarrow> search_state \<Rightarrow> search_state result" where
  "visit_all sm mm s [] st = Inr st"
| "visit_all sm mm s (x # xs) st = bind_result (visit sm mm s x st) (visit_all sm mm s xs)"

end
