(* ===== verification/FrontendPlugin.thy ===== *)
theory FrontendPlugin
  imports FrontendSearch Mutants
begin

text \<open>
  The plugin itself: \<open>MullASTMutator.cpp\<close> performs the recorded mutations, \<open>MullClangPlugin.cpp\<close> reads
  the plugin's arguments and treats each top level declaration Clang hands over.
\<close>

section \<open>Performing a mutation\<close>

text \<open>The values of \<open>enum class MutatorKind\<close>.\<close>

definition MutatorKind_values :: "mutator_kind list" where
  "MutatorKind_values = [
     Kind_InvalidKind, Kind_NegateMutator, Kind_ScalarValueMutator, Kind_CXX_RemoveVoidCall,
     Kind_CXX_ReplaceScalarCall, Kind_CXX_AddToSub, Kind_CXX_AddAssignToSubAssign, Kind_CXX_PreIncToPreDec,
     Kind_CXX_PostIncToPostDec, Kind_CXX_SubToAdd, Kind_CXX_SubAssignToAddAssign, Kind_CXX_PreDecToPreInc,
     Kind_CXX_PostDecToPostInc, Kind_CXX_MulToDiv, Kind_CXX_MulAssignToDivAssign, Kind_CXX_DivToMul,
     Kind_CXX_DivAssignToMulAssign, Kind_CXX_RemToDiv, Kind_CXX_RemAssignToDivAssign, Kind_CXX_BitwiseNotToNoop,
     Kind_CXX_UnaryMinusToNoop, Kind_CXX_LShiftToRShift, Kind_CXX_LShiftAssignToRShiftAssign,
     Kind_CXX_RShiftToLShift, Kind_CXX_RShiftAssignToLShiftAssign, Kind_CXX_Logical_AndToOr,
     Kind_CXX_Logical_OrToAnd, Kind_CXX_Bitwise_OrToAnd, Kind_CXX_Bitwise_OrAssignToAndAssign,
     Kind_CXX_Bitwise_AndToOr, Kind_CXX_Bitwise_AndAssignToOrAssign, Kind_CXX_Bitwise_XorToOr,
     Kind_CXX_Bitwise_XorAssignToOrAssign, Kind_CXX_LessThanToLessOrEqual, Kind_CXX_LessOrEqualToLessThan,
     Kind_CXX_GreaterThanToGreaterOrEqual, Kind_CXX_GreaterOrEqualToGreaterThan,
     Kind_CXX_GreaterThanToLessOrEqual, Kind_CXX_GreaterOrEqualToLessThan, Kind_CXX_LessThanToGreaterOrEqual,
     Kind_CXX_LessOrEqualToGreaterThan, Kind_CXX_EqualToNotEqual, Kind_CXX_NotEqualToEqual,
     Kind_CXX_AssignConst, Kind_CXX_InitConst, Kind_CXX_RemoveNegation]"

definition mutator_number :: "mutator_kind \<Rightarrow> int" where
  "mutator_number kind =
     (case find_child kind MutatorKind_values of None \<Rightarrow> -1 | Some n \<Rightarrow> int n)"

text \<open>The enumeration is complete, so that a statement on all kinds can be computed, and no two kinds have
  the same number.\<close>

instantiation mutator_kind :: enum
begin

definition enum_mutator_kind :: "mutator_kind list" where
  "enum_mutator_kind = MutatorKind_values"

definition enum_all_mutator_kind :: "(mutator_kind \<Rightarrow> bool) \<Rightarrow> bool" where
  "enum_all_mutator_kind P = list_all P MutatorKind_values"

definition enum_ex_mutator_kind :: "(mutator_kind \<Rightarrow> bool) \<Rightarrow> bool" where
  "enum_ex_mutator_kind P = list_ex P MutatorKind_values"

instance
proof
  have all: "k \<in> set MutatorKind_values" for k by (cases k) (simp_all add: MutatorKind_values_def)
  then show "(UNIV :: mutator_kind set) = set enum_class.enum" by (auto simp: enum_mutator_kind_def)
  show "distinct (enum_class.enum :: mutator_kind list)"
    by (simp add: enum_mutator_kind_def MutatorKind_values_def)
  show "enum_class.enum_all P = Ball UNIV P" "enum_class.enum_ex P = Bex UNIV P" for P :: "mutator_kind \<Rightarrow> bool"
    using all by (auto simp: enum_all_mutator_kind_def enum_ex_mutator_kind_def list_all_iff list_ex_iff)
qed

end

lemma find_child_nth: "find_child x xs = Some n \<Longrightarrow> n < length xs \<and> xs ! n = x"
  by (induction xs arbitrary: n) (auto split: if_splits option.splits)

lemma find_child_member: "x \<in> set xs \<Longrightarrow> find_child x xs \<noteq> None"
  by (induction xs) auto

lemma find_child_inject:
  assumes "x \<in> set xs" "y \<in> set xs" "find_child x xs = find_child y xs"
  shows "x = y"
proof -
  obtain n where "find_child x xs = Some n" using find_child_member [OF assms(1)] by blast
  with assms(3) have "xs ! n = x" "xs ! n = y" by (metis find_child_nth)+
  then show ?thesis by (rule subst)
qed

lemma mutator_number_inject:
  assumes "mutator_number k = mutator_number l"
  shows "k = l"
proof -
  have all: "x \<in> set MutatorKind_values" for x :: mutator_kind
    using enum_UNIV [where ?'a = mutator_kind] by (metis UNIV_I enum_mutator_kind_def)
  obtain m n where "find_child k MutatorKind_values = Some m" "find_child l MutatorKind_values = Some n"
    using find_child_member all by (metis not_None_eq)
  then show ?thesis
    using find_child_inject [OF all all, of k l] assms by (simp add: mutator_number_def)
qed

definition add_record :: "clang_library \<Rightarrow> ast_mutation_point \<Rightarrow> unit frontend" where
  "add_record lib p =
     addMutantStringDefinition lib (mutationBinaryRecord p) (mutator_number (amp_mutationType p))
       (amp_beginLine p) (amp_beginColumn p)"

text \<open>\<open>getSubExpr\<close> of a unary operator is its only child.\<close>

definition sub_expr :: "frontend_state \<Rightarrow> nat \<Rightarrow> nat" where
  "sub_expr s i = stmt_children (stmt s i) ! 0"

definition performUnaryOperatorOpcodeMutation ::
  "clang_library \<Rightarrow> ast_mutation_point \<Rightarrow> unary_opcode \<Rightarrow> unit frontend" where
  "performUnaryOperatorOpcodeMutation lib p replacementOpCode s =
     (let i = amp_mutableStmt p in
      case stmt_kind (stmt s i) of
        UnaryNode _ \<Rightarrow>
          st_bind (createUnaryOperator replacementOpCode (sub_expr s i) (stmt_type (stmt s i))
                     (stmt_value (stmt s i))) (\<lambda>newUnaryOperator.
          st_bind (replaceExpression lib i newUnaryOperator (mutationIdentifier p)) (\<lambda>_.
          add_record lib p)) s
      | _ \<Rightarrow> (s, Inl (NullPointer ''oldUnaryOperator'')))"

definition performUnaryOperatorRemovalMutation ::
  "clang_library \<Rightarrow> ast_mutation_point \<Rightarrow> nat \<Rightarrow> unit frontend" where
  "performUnaryOperatorRemovalMutation lib p unaryOperator s =
     st_bind (replaceExpression lib unaryOperator (sub_expr s unaryOperator) (mutationIdentifier p)) (\<lambda>_.
     add_record lib p) s"

definition performBinaryMutation :: "clang_library \<Rightarrow> ast_mutation_point \<Rightarrow> binary_opcode \<Rightarrow> unit frontend" where
  "performBinaryMutation lib p replacementOpCode s =
     (let i = amp_mutableStmt p; n = stmt s i; lhs = stmt_children n ! 0; rhs = stmt_children n ! 1;
          finish = (\<lambda>newBinaryOperator.
            st_bind (replaceExpression lib i newBinaryOperator (mutationIdentifier p)) (\<lambda>_. add_record lib p))
      in case stmt_kind n of
           CompoundAssignNode _ compLHSType compResultType \<Rightarrow>
             st_bind (createCompoundAssignOperator replacementOpCode lhs rhs (stmt_type n) (stmt_value n)
                        compLHSType compResultType) finish s
         | BinaryNode _ \<Rightarrow>
             st_bind (createBinaryOperator replacementOpCode lhs rhs (stmt_type n) (stmt_value n)) finish s
         | _ \<Rightarrow> (s, Inl (NullPointer ''oldBinaryOperator'')))"

definition performRemoveVoidMutation :: "clang_library \<Rightarrow> ast_mutation_point \<Rightarrow> unit frontend" where
  "performRemoveVoidMutation lib p s =
     (case stmt_kind (stmt s (amp_mutableStmt p)) of
        CallNode \<Rightarrow>
          st_bind (replaceStatement lib (amp_mutableStmt p) None (mutationIdentifier p)) (\<lambda>_.
          add_record lib p) s
      | _ \<Rightarrow> (s, Inl (NullPointer ''callExpr'')))"

text \<open>The literal of the type of the replaced expression, written out three times in the code.\<close>

definition replacement_literal :: "clang_type \<Rightarrow> nat frontend" where
  "replacement_literal t =
     (if t = IntTy then createIntegerLiteral 42
      else if t = FloatTy then createFloatLiteral_float (42, 0)
      else if t = DoubleTy then createFloatLiteral_double (42, 0)
      else (\<lambda>s. (s, Inl (AssertFailed ''Not implemented''))))"

definition performReplaceScalarMutation :: "clang_library \<Rightarrow> ast_mutation_point \<Rightarrow> nat \<Rightarrow> unit frontend" where
  "performReplaceScalarMutation lib p callExpr s =
     st_bind (replacement_literal (stmt_type (stmt s callExpr))) (\<lambda>replacementLiteral.
     st_bind (replaceExpression lib callExpr replacementLiteral (mutationIdentifier p)) (\<lambda>_.
     add_record lib p)) s"

definition performReplaceNumericAssignmentMutation ::
  "clang_library \<Rightarrow> ast_mutation_point \<Rightarrow> nat \<Rightarrow> unit frontend" where
  "performReplaceNumericAssignmentMutation lib p assignmentBinaryOperator s =
     (let oldAssignedExpr = rhs_of s assignmentBinaryOperator in
      st_bind (replacement_literal (stmt_type (stmt s oldAssignedExpr))) (\<lambda>replacementLiteral s.
      st_bind (replaceExpression lib (rhs_of s assignmentBinaryOperator) replacementLiteral
                 (mutationIdentifier p)) (\<lambda>_. add_record lib p) s) s)"

definition performReplaceNumericInitAssignmentMutation ::
  "clang_library \<Rightarrow> ast_mutation_point \<Rightarrow> nat \<Rightarrow> unit frontend" where
  "performReplaceNumericInitAssignmentMutation lib p varDecl s =
     (case variable s varDecl of
        None \<Rightarrow> (s, Inl (NullPointer ''varDecl''))
      | Some d \<Rightarrow>
          st_bind (st_lift (cxx_assert ''getKind'' (\<not> vd_is_param d))) (\<lambda>_ s.
          case vd_init d of
            None \<Rightarrow> (s, Inl (NullPointer ''oldAssignedExpr''))
          | Some oldAssignedExpr \<Rightarrow>
              st_bind (replacement_literal (stmt_type (stmt s oldAssignedExpr))) (\<lambda>replacementLiteral.
              st_bind (replaceExpression lib oldAssignedExpr replacementLiteral (mutationIdentifier p)) (\<lambda>_.
              add_record lib p)) s) s)"

text \<open>\<open>ASTMutation::performMutation\<close>, and \<open>ASTMutationPoint::performMutation\<close> which calls it.\<close>

definition performMutation :: "clang_library \<Rightarrow> ast_mutation_point \<Rightarrow> unit frontend" where
  "performMutation lib p =
     (case amp_mutation p of
        BinaryMutation op \<Rightarrow> performBinaryMutation lib p op
      | RemoveVoidMutation \<Rightarrow> performRemoveVoidMutation lib p
      | ReplaceScalarCallMutation c \<Rightarrow> performReplaceScalarMutation lib p c
      | UnaryOperatorOpcodeMutation u op \<Rightarrow> performUnaryOperatorOpcodeMutation lib p op
      | UnaryOperatorRemovalMutation u \<Rightarrow> performUnaryOperatorRemovalMutation lib p u
      | ReplaceNumericAssignmentMutation b \<Rightarrow> performReplaceNumericAssignmentMutation lib p b
      | ReplaceNumericInitAssignmentMutation v \<Rightarrow> performReplaceNumericInitAssignmentMutation lib p v)"

fun perform_all :: "clang_library \<Rightarrow> ast_mutation_point list \<Rightarrow> unit frontend" where
  "perform_all lib [] = st_return ()"
| "perform_all lib (p # ps) = st_bind (performMutation lib p) (\<lambda>_. perform_all lib ps)"

section \<open>The consumer\<close>

text \<open>Clang's source manager, and the order in which it traverses a function.\<close>

record clang_frontend =
  fe_library :: clang_library
  fe_source :: frontend_source_manager
  fe_traversal :: "frontend_state \<Rightarrow> nat \<Rightarrow> visited list"

definition print_frontend :: "string list \<Rightarrow> unit frontend" where
  "print_frontend ls s = (s\<lparr>frontend_output := frontend_output s @ ls\<rparr>, Inr ())"

definition ensure_mutator :: "unit frontend" where
  "ensure_mutator s =
     (if astMutator_set s then (s, Inr ()) else instrumentTranslationUnit (s\<lparr>astMutator_set := True\<rparr>))"

definition search_function ::
  "clang_frontend \<Rightarrow> mutation_map \<Rightarrow> nat \<Rightarrow> ast_mutation_point list frontend" where
  "search_function fe mm f s =
     (case visit_all (fe_source fe) mm s (fe_traversal fe s f) \<lparr>astMutations = [], search_output = []\<rparr> of
        Inl e \<Rightarrow> (s, Inl e)
      | Inr st \<Rightarrow> st_bind (print_frontend (search_output st)) (\<lambda>_. st_return (astMutations st)) s)"

definition mutated_function :: "clang_frontend \<Rightarrow> frontend_state \<Rightarrow> nat \<Rightarrow> bool" where
  "mutated_function fe s f =
     (case function_decl s f of
        None \<Rightarrow> False
      | Some d \<Rightarrow>
          if fd_name d = ''main'' then False
          else if inSystemHeader (fe_source fe) (fd_location d) then False
          else if found_in ''include/gtest'' (source_getFilename (fe_source fe) (fd_location d)) then False
          else True)"

text \<open>One declaration of the group; a declaration that is no plain function is skipped.\<close>

definition handle_declaration :: "clang_frontend \<Rightarrow> mutation_map \<Rightarrow> nat \<Rightarrow> unit frontend" where
  "handle_declaration fe mm f s =
     (if \<not> mutated_function fe s f then (s, Inr ())
      else st_bind (print_frontend [''HandleTopLevelDecl: Looking at function: '' @
                                    fd_name (the (function_decl s f))]) (\<lambda>_.
           st_bind (search_function fe mm f) (perform_all (fe_library fe))) s)"

fun handle_declarations :: "clang_frontend \<Rightarrow> mutation_map \<Rightarrow> nat list \<Rightarrow> unit frontend" where
  "handle_declarations fe mm [] = st_return ()"
| "handle_declarations fe mm (d # ds) = st_bind (handle_declaration fe mm d) (\<lambda>_. handle_declarations fe mm ds)"

definition HandleTopLevelDecl :: "clang_frontend \<Rightarrow> mutation_map \<Rightarrow> nat list \<Rightarrow> unit frontend" where
  "HandleTopLevelDecl fe mm DG = st_bind ensure_mutator (\<lambda>_. handle_declarations fe mm DG)"

section \<open>The arguments\<close>

text \<open>The pieces between the equality signs, the last one included.\<close>

fun split_equals :: "string \<Rightarrow> string \<Rightarrow> string list" where
  "split_equals acc [] = [acc]"
| "split_equals acc (c # s) = (if c = CHR ''='' then acc # split_equals [] s else split_equals (acc @ [c]) s)"

definition parse_arg :: "string \<Rightarrow> string list \<times> mutation_map \<Rightarrow> (string list \<times> mutation_map) result" where
  "parse_arg arg st =
     (let (diagnostics, mm) = st;
          components = split_equals [] arg;
          diagnostics = (if components ! 0 \<noteq> ''mutators''
                         then diagnostics @ [''Only 'mutator=' argument is supported.''] else diagnostics)
      in bind_result (cxx_assert ''components.size() == 2'' (length components = 2)) (\<lambda>_.
         bind_result (MutationMap_addMutation (components ! 1) mm) (\<lambda>mm. Inr (diagnostics, mm))))"

fun parse_plugin_args :: "string list \<Rightarrow> string list \<times> mutation_map \<Rightarrow> (string list \<times> mutation_map) result" where
  "parse_plugin_args [] st = Inr st"
| "parse_plugin_args (a # as) st = bind_result (parse_arg a st) (parse_plugin_args as)"

definition ParseArgs :: "string list \<Rightarrow> mutation_map \<Rightarrow> (string list \<times> mutation_map) result" where
  "ParseArgs args mm =
     bind_result (parse_plugin_args args ([], mm)) (\<lambda>(diagnostics, mm).
       Inr (diagnostics, setDefaultMutationsIfNotSpecified mm))"

end
