(* ===== verification/FrontendDispatch.thy ===== *)
theory FrontendDispatch
  imports FrontendPlugin
begin

text \<open>
  What the tree the plugin leaves behind means. Running it, a conditional on \<open>getenv(identifier)\<close> takes
  its branch by the environment; \<open>resolve\<close> reads the tree that remains. The specification is
  \<open>program_tree\<close>: the source's own tree, with at most one node replaced.
\<close>

section \<open>Reading a tree under an environment\<close>

datatype syntax_tree = Tree stmt_kind clang_type value_kind "syntax_tree list" | EmptyTree

text \<open>The identifier whose variable a condition asks for, when it is \<open>(bool) getenv("...")\<close>.\<close>

definition guard_of :: "frontend_state \<Rightarrow> nat \<Rightarrow> string option" where
  "guard_of s c =
     (if stmt_kind (stmt s c) \<noteq> ImplicitCastNode CK_PointerToBoolean then None
      else case stmt_children (stmt s c) of
        [k] \<Rightarrow> if stmt_kind (stmt s k) \<noteq> CallNode then None
          else (case stmt_children (stmt s k) of
            [f, a] \<Rightarrow> if stmt_kind (stmt s f) \<noteq> ImplicitCastNode CK_FunctionToPointerDecay then None
              else (case stmt_children (stmt s f) of
                [r] \<Rightarrow> (case stmt_kind (stmt s r) of
                    DeclRefNode g \<Rightarrow> if getenvFuncDecl s \<noteq> Some g then None
                      else (case stmt_children (stmt s a) of
                          [l] \<Rightarrow> (case stmt_kind (stmt s l) of StringNode t \<Rightarrow> Some t | _ \<Rightarrow> None)
                        | _ \<Rightarrow> None)
                  | _ \<Rightarrow> None)
              | _ \<Rightarrow> None)
          | _ \<Rightarrow> None)
      | _ \<Rightarrow> None)"

text \<open>
  A dispatch: its identifier, what runs when the variable is set (nothing, for an empty block) and what
  runs when it is not. A block of one statement stands for that statement.
\<close>

definition block_of :: "frontend_state \<Rightarrow> nat \<Rightarrow> nat list option" where
  "block_of s b = (if stmt_kind (stmt s b) = CompoundNode then Some (stmt_children (stmt s b)) else None)"

definition dispatch_of :: "frontend_state \<Rightarrow> nat \<Rightarrow> (string \<times> nat option \<times> nat) option" where
  "dispatch_of s i =
     (case (stmt_kind (stmt s i), stmt_children (stmt s i)) of
        (ConditionalNode, [c, t, e]) \<Rightarrow> map_option (\<lambda>identifier. (identifier, Some t, e)) (guard_of s c)
      | (IfNode, [c, t, e]) \<Rightarrow>
          (case (guard_of s c, block_of s t, block_of s e) of
             (Some identifier, Some [], Some [x]) \<Rightarrow> Some (identifier, None, x)
           | (Some identifier, Some [y], Some [x]) \<Rightarrow> Some (identifier, Some y, x)
           | _ \<Rightarrow> None)
      | _ \<Rightarrow> None)"

text \<open>The parts of a statement; a declaration statement's are the initialisers of its variables.\<close>

definition parts :: "frontend_state \<Rightarrow> nat \<Rightarrow> nat list" where
  "parts s i =
     stmt_children (stmt s i) @
     (case stmt_kind (stmt s i) of DeclStmtNode vs \<Rightarrow> List.map_filter (variable_init s) vs | _ \<Rightarrow> [])"

fun resolve :: "(string \<Rightarrow> bool) \<Rightarrow> frontend_state \<Rightarrow> nat \<Rightarrow> nat \<Rightarrow> syntax_tree option" where
  "resolve en s 0 i = None"
| "resolve en s (Suc k) i =
     (if length (stmts s) \<le> i then None
      else case dispatch_of s i of
             Some (identifier, t, e) \<Rightarrow>
               (if en identifier then (case t of None \<Rightarrow> Some EmptyTree | Some r \<Rightarrow> resolve en s k r)
                else resolve en s k e)
           | None \<Rightarrow> map_option (Tree (stmt_kind (stmt s i)) (stmt_type (stmt s i)) (stmt_value (stmt s i)))
                       (those (map (resolve en s k) (parts s i))))"

text \<open>Two steps for every statement are enough.\<close>

definition resolved :: "(string \<Rightarrow> bool) \<Rightarrow> frontend_state \<Rightarrow> nat \<Rightarrow> syntax_tree option" where
  "resolved en s i = resolve en s (2 * length (stmts s)) i"

section \<open>The mutated program\<close>

datatype node_replacement = NewNode stmt_kind clang_type value_kind "nat list" | SubExpression nat | NoStatement

definition target :: "frontend_state \<Rightarrow> ast_mutation_point \<Rightarrow> nat" where
  "target s p =
     (case amp_mutation p of
        BinaryMutation op \<Rightarrow> amp_mutableStmt p
      | RemoveVoidMutation \<Rightarrow> amp_mutableStmt p
      | ReplaceScalarCallMutation c \<Rightarrow> c
      | UnaryOperatorOpcodeMutation u op \<Rightarrow> amp_mutableStmt p
      | UnaryOperatorRemovalMutation u \<Rightarrow> u
      | ReplaceNumericAssignmentMutation b \<Rightarrow> rhs_of s b
      | ReplaceNumericInitAssignmentMutation v \<Rightarrow> the (variable_init s v))"

definition literal_node :: "clang_type \<Rightarrow> node_replacement" where
  "literal_node t =
     NewNode (if t = IntTy then IntegerNode 42 else FloatingNode (42, 0) True) t VK_RValue []"

definition replacement :: "frontend_state \<Rightarrow> ast_mutation_point \<Rightarrow> node_replacement" where
  "replacement s p =
     (let n = stmt s (target s p); cs = stmt_children n in
      case amp_mutation p of
        BinaryMutation op \<Rightarrow>
          NewNode (case stmt_kind n of CompoundAssignNode _ l r \<Rightarrow> CompoundAssignNode op l r | _ \<Rightarrow> BinaryNode op)
            (stmt_type n) (stmt_value n) [cs ! 0, cs ! 1]
      | RemoveVoidMutation \<Rightarrow> NoStatement
      | UnaryOperatorOpcodeMutation u op \<Rightarrow> NewNode (UnaryNode op) (stmt_type n) (stmt_value n) [cs ! 0]
      | UnaryOperatorRemovalMutation u \<Rightarrow> SubExpression (cs ! 0)
      | _ \<Rightarrow> literal_node (stmt_type n))"

fun program_tree_at :: "frontend_state \<Rightarrow> ast_mutation_point option \<Rightarrow> nat \<Rightarrow> nat \<Rightarrow> syntax_tree option" where
  "program_tree_at s q 0 i = None"
| "program_tree_at s q (Suc k) i =
     (if length (stmts s) \<le> i then None
      else case q of
        Some p \<Rightarrow>
          (if target s p = i then
             (case replacement s p of
                NewNode kd t v cs \<Rightarrow> map_option (Tree kd t v) (those (map (program_tree_at s q k) cs))
              | SubExpression y \<Rightarrow> program_tree_at s q k y
              | NoStatement \<Rightarrow> Some EmptyTree)
           else map_option (Tree (stmt_kind (stmt s i)) (stmt_type (stmt s i)) (stmt_value (stmt s i)))
                  (those (map (program_tree_at s q k) (parts s i))))
      | None \<Rightarrow> map_option (Tree (stmt_kind (stmt s i)) (stmt_type (stmt s i)) (stmt_value (stmt s i)))
                  (those (map (program_tree_at s q k) (parts s i))))"

definition program_tree :: "frontend_state \<Rightarrow> ast_mutation_point option \<Rightarrow> nat \<Rightarrow> syntax_tree option" where
  "program_tree s q i = program_tree_at s q (length (stmts s)) i"

section \<open>Source trees and their points\<close>

text \<open>
  A tree as the parser leaves it: a statement is built after its parts, an operator has its operands,
  and nothing refers to the plugin's own declaration of \<open>getenv\<close>.
\<close>

definition operands :: "stmt_kind \<Rightarrow> nat \<Rightarrow> bool" where
  "operands kd n \<longleftrightarrow>
     (case kd of BinaryNode _ \<Rightarrow> n = 2 | CompoundAssignNode _ _ _ \<Rightarrow> n = 2 | UnaryNode _ \<Rightarrow> n = 1 | _ \<Rightarrow> True)"

definition source_tree :: "frontend_state \<Rightarrow> bool" where
  "source_tree s \<longleftrightarrow>
     (\<forall>i < length (stmts s).
        (\<forall>c \<in> set (parts s i). c < i) \<and> operands (stmt_kind (stmt s i)) (length (stmt_children (stmt s i))) \<and>
        (\<forall>g. getenvFuncDecl s = Some g \<longrightarrow> stmt_kind (stmt s i) \<noteq> DeclRefNode g) \<and>
        (\<forall>vs. stmt_kind (stmt s i) = DeclStmtNode vs \<longrightarrow> (\<forall>v \<in> set vs. v < length (declarations s)))) \<and>
     (\<exists>g fd. getenvFuncDecl s = Some g \<and> function_decl s g = Some fd)"

text \<open>The statement or variable a node hangs in, once and nowhere else.\<close>

fun hangs_in :: "frontend_state \<Rightarrow> nat \<Rightarrow> parent \<Rightarrow> bool" where
  "hangs_in s x (StmtParent q) \<longleftrightarrow>
     q < length (stmts s) \<and> count_list (stmt_children (stmt s q)) x = 1 \<and>
     (\<forall>i < length (stmts s). i \<noteq> q \<longrightarrow> x \<notin> set (stmt_children (stmt s i))) \<and>
     (\<forall>v. variable_init s v \<noteq> Some x)"
| "hangs_in s x (VarParent v) \<longleftrightarrow>
     variable_init s v = Some x \<and> (\<forall>w. w \<noteq> v \<longrightarrow> variable_init s w \<noteq> Some x) \<and>
     (\<forall>i < length (stmts s). x \<notin> set (stmt_children (stmt s i)))"
| "hangs_in s x OtherNodeParent \<longleftrightarrow> False"

text \<open>Clang builds its map of parents when it is first asked and keeps it.\<close>

definition known_parent :: "clang_library \<Rightarrow> frontend_state \<Rightarrow> nat \<Rightarrow> parent \<Rightarrow> bool" where
  "known_parent lib s x q \<longleftrightarrow> hangs_in s x q \<and> (\<forall>s'. \<exists>qs. getParents lib s' x = q # qs)"

definition fits :: "frontend_state \<Rightarrow> ast_mutation_point \<Rightarrow> bool" where
  "fits s p \<longleftrightarrow> target s p < length (stmts s) \<and>
     (case amp_mutation p of
        BinaryMutation op \<Rightarrow> (\<exists>op'. stmt_kind (stmt s (target s p)) = BinaryNode op') \<or>
          (\<exists>op' l r. stmt_kind (stmt s (target s p)) = CompoundAssignNode op' l r)
      | RemoveVoidMutation \<Rightarrow> stmt_kind (stmt s (target s p)) = CallNode
      | ReplaceScalarCallMutation c \<Rightarrow> numeric_type (stmt_type (stmt s c))
      | UnaryOperatorOpcodeMutation u op \<Rightarrow> \<exists>op'. stmt_kind (stmt s (target s p)) = UnaryNode op'
      | UnaryOperatorRemovalMutation u \<Rightarrow> \<exists>op'. stmt_kind (stmt s u) = UnaryNode op'
      | ReplaceNumericAssignmentMutation b \<Rightarrow>
          b < length (stmts s) \<and> length (stmt_children (stmt s b)) = 2 \<and>
          numeric_type (stmt_type (stmt s (rhs_of s b)))
      | ReplaceNumericInitAssignmentMutation v \<Rightarrow>
          (\<exists>d i. variable s v = Some d \<and> \<not> vd_is_param d \<and> vd_init d = Some i \<and>
             numeric_type (stmt_type (stmt s i))))"

text \<open>A removed call must hang in a statement; the others may be the initialiser of a variable.\<close>

definition placed :: "clang_library \<Rightarrow> frontend_state \<Rightarrow> ast_mutation_point \<Rightarrow> bool" where
  "placed lib s p \<longleftrightarrow>
     (\<exists>q. known_parent lib s (target s p) q \<and>
          (amp_mutation p = RemoveVoidMutation \<longrightarrow> (\<exists>n. q = StmtParent n)))"

text \<open>For Clang a declaration with an initialiser is a definition.\<close>

definition initialised_is_defined :: "clang_library \<Rightarrow> bool" where
  "initialised_is_defined lib \<longleftrightarrow> (\<forall>v. vd_init v \<noteq> None \<longrightarrow> isDefinition lib v)"

end
