(* ===== verification/DispatchRefinement.thy ===== *)
theory DispatchRefinement
  imports FrontendDispatch
begin

text \<open>
  The proof that the plugin's tree is the source's tree with a dispatch at each mutated node: what a
  mutation builds behind the old statements, what it changes of them, and what the dispatches read as.
\<close>

section \<open>Statements that have been built\<close>

definition built :: "frontend_state \<Rightarrow> nat \<Rightarrow> stmt_kind \<Rightarrow> nat list \<Rightarrow> bool" where
  "built s i kd cs \<longleftrightarrow> i < length (stmts s) \<and> stmt_kind (stmt s i) = kd \<and> stmt_children (stmt s i) = cs"

definition guard_built :: "frontend_state \<Rightarrow> nat \<Rightarrow> string \<Rightarrow> bool" where
  "guard_built s n identifier \<longleftrightarrow>
     (\<exists>g. getenvFuncDecl s = Some g \<and> built s n (DeclRefNode g) []) \<and>
     built s (n + 1) (ImplicitCastNode CK_FunctionToPointerDecay) [n] \<and>
     built s (n + 2) (StringNode identifier) [] \<and>
     built s (n + 3) (ImplicitCastNode CK_ArrayToPointerDecay) [n + 2] \<and>
     built s (n + 4) CallNode [n + 1, n + 3] \<and>
     built s (n + 5) (ImplicitCastNode CK_PointerToBoolean) [n + 4]"

text \<open>The dispatch \<open>d\<close> between \<open>t\<close> and the old statement \<open>x\<close>, built from statement \<open>n0\<close> on.\<close>

definition dispatch_built :: "nat \<Rightarrow> frontend_state \<Rightarrow> nat \<Rightarrow> string \<Rightarrow> nat option \<Rightarrow> nat \<Rightarrow> bool" where
  "dispatch_built n0 s d identifier t x \<longleftrightarrow>
     (\<exists>n \<ge> n0. guard_built s n identifier \<and>
        (case t of
           Some r \<Rightarrow> d = n + 6 \<and> built s d ConditionalNode [n + 5, r, x]
         | None \<Rightarrow> d = n + 8 \<and> built s (n + 6) CompoundNode [] \<and> built s (n + 7) CompoundNode [x] \<and>
                   built s d IfNode [n + 5, n + 6, n + 7]))"

text \<open>States that agree on the statements from \<open>n0\<close> on.\<close>

definition grown :: "nat \<Rightarrow> frontend_state \<Rightarrow> frontend_state \<Rightarrow> bool" where
  "grown n0 s s' \<longleftrightarrow>
     length (stmts s) \<le> length (stmts s') \<and> getenvFuncDecl s' = getenvFuncDecl s \<and>
     (\<forall>i. n0 \<le> i \<longrightarrow> i < length (stmts s) \<longrightarrow> stmt s' i = stmt s i)"

lemma built_grown: "grown n0 s s' \<Longrightarrow> n0 \<le> i \<Longrightarrow> built s i kd cs \<Longrightarrow> built s' i kd cs"
  by (auto simp: grown_def built_def)

lemma guard_built_grown: "grown n0 s s' \<Longrightarrow> n0 \<le> n \<Longrightarrow> guard_built s n t \<Longrightarrow> guard_built s' n t"
  unfolding guard_built_def
  by (elim conjE exE, intro conjI exI; (rule built_grown, assumption)?) (auto simp: grown_def)

lemma dispatch_built_grown:
  assumes "grown n0 s s'" "dispatch_built n0 s d identifier t x"
  shows "dispatch_built n0 s' d identifier t x"
proof -
  obtain n where n: "n0 \<le> n" "guard_built s n identifier"
      "case t of
         Some r \<Rightarrow> d = n + 6 \<and> built s d ConditionalNode [n + 5, r, x]
       | None \<Rightarrow> d = n + 8 \<and> built s (n + 6) CompoundNode [] \<and> built s (n + 7) CompoundNode [x] \<and>
                 built s d IfNode [n + 5, n + 6, n + 7]"
    using assms(2) by (auto simp: dispatch_built_def)
  show ?thesis
    unfolding dispatch_built_def
    by (rule exI [of _ n])
       (use n assms(1) in \<open>auto intro: guard_built_grown built_grown split: option.splits\<close>)
qed

lemma guard_of_built: "guard_built s n identifier \<Longrightarrow> guard_of s (n + 5) = Some identifier"
  by (auto simp: guard_built_def built_def guard_of_def)

lemma dispatch_of_built: "dispatch_built n0 s d identifier t x \<Longrightarrow> dispatch_of s d = Some (identifier, t, x)"
  by (auto simp: dispatch_built_def dispatch_of_def built_def block_of_def guard_of_built split: option.splits)

lemma dispatch_built_range: "dispatch_built n0 s d identifier t x \<Longrightarrow> n0 < d \<and> d < length (stmts s)"
  by (auto simp: dispatch_built_def built_def split: option.splits)

lemma dispatch_built_kind:
  "dispatch_built n0 s d identifier t x \<Longrightarrow> stmt_kind (stmt s d) = ConditionalNode \<or> stmt_kind (stmt s d) = IfNode"
  by (auto simp: dispatch_built_def built_def split: option.splits)

section \<open>The state after some mutations\<close>

fun redirect_declaration :: "(nat \<Rightarrow> nat) \<Rightarrow> clang_declaration \<Rightarrow> clang_declaration" where
  "redirect_declaration D (VarDeclaration d) = VarDeclaration (d\<lparr>vd_init := map_option D (vd_init d)\<rparr>)"
| "redirect_declaration D d = d"

text \<open>What a dispatch takes when its variable is set: parts may already stand behind a dispatch of their own.\<close>

fun replacement_built :: "(nat \<Rightarrow> nat) \<Rightarrow> nat \<Rightarrow> frontend_state \<Rightarrow> node_replacement \<Rightarrow> nat option \<Rightarrow> bool" where
  "replacement_built D n0 s (NewNode kd ty v cs) (Some r) \<longleftrightarrow>
     (\<exists>cs'. n0 \<le> r \<and> built s r kd cs' \<and> list_all2 (\<lambda>y c. c = y \<or> c = D y) cs cs') \<and>
     stmt_type (stmt s r) = ty \<and> stmt_value (stmt s r) = v"
| "replacement_built D n0 s (SubExpression y) (Some r) \<longleftrightarrow> r = y \<or> r = D y"
| "replacement_built D n0 s NoStatement None \<longleftrightarrow> True"
| "replacement_built D n0 s _ _ \<longleftrightarrow> False"

definition links ::
  "frontend_state \<Rightarrow> ast_mutation_point list \<Rightarrow> (nat \<Rightarrow> nat) \<Rightarrow> frontend_state \<Rightarrow> bool" where
  "links s0 ps D s \<longleftrightarrow>
     getenvFuncDecl s = getenvFuncDecl s0 \<and>
     length (stmts s0) \<le> length (stmts s) \<and> length (declarations s0) \<le> length (declarations s) \<and>
     (\<forall>i < length (stmts s0). stmt s i = (stmt s0 i)\<lparr>stmt_children := map D (stmt_children (stmt s0 i))\<rparr>) \<and>
     (\<forall>v < length (declarations s0). declarations s ! v = redirect_declaration D (declarations s0 ! v)) \<and>
     (\<forall>x. x \<notin> target s0 ` set ps \<longrightarrow> D x = x) \<and>
     (\<forall>p \<in> set ps. \<exists>t. dispatch_built (length (stmts s0)) s (D (target s0 p)) (mutationIdentifier p) t (target s0 p) \<and>
        replacement_built D (length (stmts s0)) s (replacement s0 p) t)"

lemma links_dispatch:
  "links s0 ps D s \<Longrightarrow> p \<in> set ps \<Longrightarrow>
   \<exists>t. dispatch_built (length (stmts s0)) s (D (target s0 p)) (mutationIdentifier p) t (target s0 p) \<and>
     replacement_built D (length (stmts s0)) s (replacement s0 p) t"
  by (simp add: links_def)

lemma replacement_built_mono:
  assumes "replacement_built D n0 s rep t" "grown n0 s s'" "\<And>y. D y = y \<or> D' y = D y"
  shows "replacement_built D' n0 s' rep t"
proof (cases rep)
  case (NewNode kd ty v cs)
  then obtain r cs' where r: "t = Some r" "n0 \<le> r" "built s r kd cs'" "list_all2 (\<lambda>y c. c = y \<or> c = D y) cs cs'"
      "stmt_type (stmt s r) = ty" "stmt_value (stmt s r) = v"
    using assms(1) by (cases t) auto
  have "list_all2 (\<lambda>y c. c = y \<or> c = D' y) cs cs'"
    using r(4) by (rule list_all2_mono) (metis assms(3))
  moreover have "built s' r kd cs'" using built_grown [OF assms(2) r(2,3)] .
  moreover have "stmt s' r = stmt s r" using assms(2) r(2,3) by (auto simp: grown_def built_def)
  ultimately show ?thesis using r NewNode by auto
next
  case (SubExpression y)
  then show ?thesis using assms(1) assms(3) [of y] by (cases t) auto
next
  case NoStatement
  then show ?thesis using assms(1) by (cases t) auto
qed

text \<open>Statements and declarations put behind the others change nothing.\<close>

lemma links_append:
  assumes "links s0 ps D s" "stmts s' = stmts s @ ss" "declarations s' = declarations s @ ds"
    "getenvFuncDecl s' = getenvFuncDecl s"
  shows "links s0 ps D s'"
proof -
  let ?n0 = "length (stmts s0)"
  have g: "grown ?n0 s s'" using assms(2,4) by (auto simp: grown_def stmt_def nth_append)
  have o: "stmt s' i = stmt s i" if "i < ?n0" for i
    using that assms(1,2) by (simp add: links_def stmt_def nth_append)
  have p: "\<exists>t. dispatch_built ?n0 s' (D (target s0 p)) (mutationIdentifier p) t (target s0 p) \<and>
      replacement_built D ?n0 s' (replacement s0 p) t" if "p \<in> set ps" for p
    using assms(1) that dispatch_built_grown [OF g] replacement_built_mono [OF _ g, of D _ _ D]
    by (fastforce simp: links_def)
  show ?thesis
    using assms p by (auto simp: links_def o nth_append)
qed

section \<open>Putting a dispatch into its place\<close>

lemma find_child_map:
  assumes "count_list cs x = 1" "\<And>c. D c = x \<longleftrightarrow> c = x"
  shows "\<exists>k. find_child x (map D cs) = Some k \<and> (map D cs)[k := d] = map (D(x := d)) cs"
  using assms(1)
proof (induction cs)
  case (Cons c cs)
  show ?case
  proof (cases "c = x")
    case True
    then have "x \<notin> set cs" using Cons.prems by (simp add: count_list_0_iff)
    then have "map D cs = map (D(x := d)) cs" by auto
    then show ?thesis using True assms(2) [of x] by simp
  next
    case False
    then obtain k where "find_child x (map D cs) = Some k" "(map D cs)[k := d] = map (D(x := d)) cs"
      using Cons by auto
    then show ?thesis using False assms(2) [of c] by auto
  qed
qed simp

lemma links_fixed:
  assumes "links s0 ps D s" "x < length (stmts s0)" "x \<notin> target s0 ` set ps"
  shows "D c = x \<longleftrightarrow> c = x"
proof (cases "c \<in> target s0 ` set ps")
  case True
  then obtain p t where "p \<in> set ps" "c = target s0 p"
      "dispatch_built (length (stmts s0)) s (D c) (mutationIdentifier p) t c"
    using assms(1) by (auto simp: links_def)
  then have "length (stmts s0) < D c" using dispatch_built_range by blast
  then show ?thesis using assms(2,3) True by auto
next
  case False
  then show ?thesis using assms by (auto simp: links_def)
qed

lemma variable_init_links:
  assumes "links s0 ps D s" "v < length (declarations s0)"
  shows "variable_init s v = map_option D (variable_init s0 v)"
  using assms
  by (cases "declarations s0 ! v") (auto simp: links_def variable_init_def variable_def)

lemma variable_in_range: "variable s v = Some d \<Longrightarrow> v < length (declarations s)"
  by (simp add: variable_def split: if_splits)

lemma variable_init_in_range: "variable_init s v = Some i \<Longrightarrow> v < length (declarations s)"
  by (auto simp: variable_init_def variable_def split: if_splits)

lemma redirect_declaration_fresh:
  assumes "\<And>d. e = VarDeclaration d \<Longrightarrow> vd_init d \<noteq> Some x"
  shows "redirect_declaration (D(x := y)) e = redirect_declaration D e"
proof (cases e)
  case (VarDeclaration d)
  then show ?thesis using assms by (cases "vd_init d") auto
qed auto

lemma stmt_set_stmt:
  "q < length (stmts s) \<Longrightarrow> stmt (set_stmt q f s) i = (if i = q then f (stmt s q) else stmt s i)"
  by (simp add: stmt_def set_stmt_def)

text \<open>The assignment to the parent's child, or \<open>setInit\<close>.\<close>

fun place :: "parent \<Rightarrow> nat \<Rightarrow> nat \<Rightarrow> unit frontend" where
  "place (StmtParent q) x d s = replace_child q x d s"
| "place (VarParent v) x d s = (setInit v d s, Inr ())"
| "place OtherNodeParent x d s = (s, Inr ())"

lemma links_add:
  assumes l: "links s0 ps D s"
    and x: "x = target s0 p" "x < length (stmts s0)" "x \<notin> target s0 ` set ps"
    and d: "dispatch_built (length (stmts s0)) s d (mutationIdentifier p) t x"
    and r: "replacement_built D (length (stmts s0)) s (replacement s0 p) t"
    and g: "grown (length (stmts s0)) s s'" "length (stmts s') = length (stmts s)"
    and n: "\<And>i. i < length (stmts s0) \<Longrightarrow>
      stmt s' i = (stmt s0 i)\<lparr>stmt_children := map (D(x := d)) (stmt_children (stmt s0 i))\<rparr>"
    and v: "length (declarations s') = length (declarations s)"
      "\<And>v. v < length (declarations s0) \<Longrightarrow>
        declarations s' ! v = redirect_declaration (D(x := d)) (declarations s0 ! v)"
  shows "links s0 (p # ps) (D(x := d)) s'"
proof -
  let ?n0 = "length (stmts s0)"
  have D: "D y = y \<or> (D(x := d)) y = D y" for y using l x by (auto simp: links_def)
  have p: "\<exists>t. dispatch_built ?n0 s' ((D(x := d)) (target s0 p')) (mutationIdentifier p') t (target s0 p') \<and>
      replacement_built (D(x := d)) ?n0 s' (replacement s0 p') t" if "p' \<in> set (p # ps)" for p'
  proof (cases "p' = p")
    case True
    then show ?thesis
      using dispatch_built_grown [OF g(1) d] replacement_built_mono [OF r g(1), of "D(x := d)"] D x(1)
      by (metis fun_upd_same)
  next
    case False
    then have p': "p' \<in> set ps" using that by simp
    then have "target s0 p' \<noteq> x" using x(3) by auto
    moreover obtain t' where "dispatch_built ?n0 s (D (target s0 p')) (mutationIdentifier p') t' (target s0 p')"
        "replacement_built D ?n0 s (replacement s0 p') t'"
      using l p' by (auto simp: links_def)
    ultimately show ?thesis
      using dispatch_built_grown [OF g(1)] replacement_built_mono [OF _ g(1), of D _ _ "D(x := d)"] D
      by (metis fun_upd_other)
  qed
  show ?thesis
    using l g v x n p by (simp add: links_def grown_def)
qed

lemma place_links:
  assumes l: "links s0 ps D s" and h: "hangs_in s0 x q"
    and x: "x = target s0 p" "x < length (stmts s0)" "x \<notin> target s0 ` set ps"
    and d: "dispatch_built (length (stmts s0)) s d (mutationIdentifier p) t x"
    and r: "replacement_built D (length (stmts s0)) s (replacement s0 p) t"
  shows "\<exists>s'. place q x d s = (s', Inr ()) \<and> links s0 (p # ps) (D(x := d)) s'"
proof (cases q)
  case (StmtParent m)
  let ?f = "\<lambda>k n. n\<lparr>stmt_children := (stmt_children n)[k := d]\<rparr>"
  have m: "m < length (stmts s0)" "m < length (stmts s)"
      and c: "count_list (stmt_children (stmt s0 m)) x = 1"
      and o: "\<And>i. i < length (stmts s0) \<Longrightarrow> i \<noteq> m \<Longrightarrow> x \<notin> set (stmt_children (stmt s0 i))"
      and i: "\<And>v. variable_init s0 v \<noteq> Some x"
    using h StmtParent l by (auto simp: links_def)
  have n0: "stmt s i = (stmt s0 i)\<lparr>stmt_children := map D (stmt_children (stmt s0 i))\<rparr>"
    if "i < length (stmts s0)" for i using l that by (simp add: links_def)
  obtain k where k: "find_child x (map D (stmt_children (stmt s0 m))) = Some k"
      "(map D (stmt_children (stmt s0 m)))[k := d] = map (D(x := d)) (stmt_children (stmt s0 m))"
    using find_child_map [OF c links_fixed [OF l x(2,3)]] by blast
  have "links s0 (p # ps) (D(x := d)) (set_stmt m (?f k) s)"
  proof (rule links_add [OF l x d r])
    show "grown (length (stmts s0)) s (set_stmt m (?f k) s)"
      using m by (simp add: grown_def stmt_set_stmt) (simp add: set_stmt_def)
    show "stmt (set_stmt m (?f k) s) i =
        (stmt s0 i)\<lparr>stmt_children := map (D(x := d)) (stmt_children (stmt s0 i))\<rparr>"
      if "i < length (stmts s0)" for i
      using that m(2) k(2) n0 o [OF that] by (simp add: stmt_set_stmt del: map_fun_upd)
    show "declarations (set_stmt m (?f k) s) ! v = redirect_declaration (D(x := d)) (declarations s0 ! v)"
      if "v < length (declarations s0)" for v
      using that l i [of v]
      by (subst redirect_declaration_fresh) (auto simp: links_def set_stmt_def variable_init_def variable_def)
  qed (simp_all add: set_stmt_def)
  then show ?thesis
    using StmtParent m k n0 by (auto simp: replace_child_def)
next
  case (VarParent v)
  have v: "variable_init s0 v = Some x" and w: "\<And>w. w \<noteq> v \<Longrightarrow> variable_init s0 w \<noteq> Some x"
      and o: "\<And>i. i < length (stmts s0) \<Longrightarrow> x \<notin> set (stmt_children (stmt s0 i))"
    using h VarParent by auto
  have v0: "v < length (declarations s0)" using v by (rule variable_init_in_range)
  obtain e where e: "declarations s0 ! v = VarDeclaration e" "vd_init e = Some x"
    using v v0 by (cases "declarations s0 ! v") (auto simp: variable_init_def variable_def)
  have dv: "declarations s ! v = VarDeclaration (e\<lparr>vd_init := Some (D x)\<rparr>)" "v < length (declarations s)"
    using l v0 e by (auto simp: links_def)
  have s': "setInit v d s = set_declaration v (VarDeclaration (e\<lparr>vd_init := Some d\<rparr>)) s"
    using dv by (simp add: setInit_def variable_def)
  have "links s0 (p # ps) (D(x := d)) (setInit v d s)"
    unfolding s'
  proof (rule links_add [OF l x d r])
    show "grown (length (stmts s0)) s (set_declaration v (VarDeclaration (e\<lparr>vd_init := Some d\<rparr>)) s)"
      by (simp add: grown_def set_declaration_def stmt_def)
    show "stmt (set_declaration v (VarDeclaration (e\<lparr>vd_init := Some d\<rparr>)) s) i =
        (stmt s0 i)\<lparr>stmt_children := map (D(x := d)) (stmt_children (stmt s0 i))\<rparr>"
      if "i < length (stmts s0)" for i
      using that l o [OF that] by (simp add: links_def stmt_def set_declaration_def del: map_fun_upd)
    show "declarations (set_declaration v (VarDeclaration (e\<lparr>vd_init := Some d\<rparr>)) s) ! u =
        redirect_declaration (D(x := d)) (declarations s0 ! u)" if u: "u < length (declarations s0)" for u
    proof (cases "u = v")
      case True
      then show ?thesis using dv e by (simp add: set_declaration_def)
    next
      case False
      then show ?thesis using w [OF False] l u
        by (subst redirect_declaration_fresh) (auto simp: links_def set_declaration_def variable_init_def variable_def)
    qed
  qed (simp_all add: set_declaration_def)
  then show ?thesis using VarParent by simp
qed (use h in simp)

section \<open>One mutation\<close>

text \<open>States that differ in the source's part of the stores and in what is new.\<close>

definition kept_new :: "frontend_state \<Rightarrow> frontend_state \<Rightarrow> frontend_state \<Rightarrow> bool" where
  "kept_new s0 s s' \<longleftrightarrow>
     length (stmts s) \<le> length (stmts s') \<and>
     (\<forall>i. length (stmts s0) \<le> i \<longrightarrow> i < length (stmts s) \<longrightarrow> stmt s' i = stmt s i) \<and>
     length (declarations s) \<le> length (declarations s') \<and>
     (\<forall>v. length (declarations s0) \<le> v \<longrightarrow> v < length (declarations s) \<longrightarrow> declarations s' ! v = declarations s ! v) \<and>
     WeakTopLevelDecls s' = WeakTopLevelDecls s"

lemma kept_trans: "kept_new s0 s s1 \<Longrightarrow> kept_new s0 s1 s2 \<Longrightarrow> kept_new s0 s s2"
  by (simp add: kept_new_def)

lemma kept_append:
  "stmts s' = stmts s @ ss \<Longrightarrow> declarations s' = declarations s \<Longrightarrow>
   WeakTopLevelDecls s' = WeakTopLevelDecls s \<Longrightarrow> kept_new s0 s s'"
  by (simp add: kept_new_def stmt_def nth_append)

lemma place_kept:
  assumes "links s0 ps D s" "hangs_in s0 x q" "place q x d s = (s', Inr ())"
  shows "kept_new s0 s s'"
proof (cases q)
  case (StmtParent m)
  then show ?thesis
    using assms
    by (auto simp: kept_new_def replace_child_def links_def set_stmt_def stmt_def split: option.splits)
next
  case (VarParent v)
  then have "v < length (declarations s0)" using assms(2) variable_init_in_range by auto
  then show ?thesis
    using assms VarParent
    by (auto simp: kept_new_def setInit_def set_declaration_def stmt_def split: option.splits)
qed (use assms in simp)

text \<open>How the replacement of a node ends, and how the whole mutation does.\<close>

definition leads ::
  "frontend_state \<Rightarrow> frontend_state \<Rightarrow> ast_mutation_point list \<Rightarrow> frontend_state \<times> unit result \<Rightarrow> bool" where
  "leads s0 s ps r \<longleftrightarrow> (\<exists>s' D'. r = (s', Inr ()) \<and> links s0 ps D' s' \<and> kept_new s0 s s')"

definition finishes ::
  "clang_library \<Rightarrow> frontend_state \<Rightarrow> frontend_state \<Rightarrow> ast_mutation_point \<Rightarrow> ast_mutation_point list \<Rightarrow>
   frontend_state \<times> unit result \<Rightarrow> bool" where
  "finishes lib s0 s p ps r \<longleftrightarrow>
     (\<exists>s1 s' D'. r = (s', Inr ()) \<and> links s0 ps D' s' \<and> kept_new s0 s s1 \<and> add_record lib p s1 = (s', Inr ()))"

lemma function_decl_links:
  assumes "links s0 ps D s" "function_decl s0 g = Some fd"
  shows "function_decl s g = Some fd"
  using assms
  by (cases "declarations s0 ! g") (auto simp: links_def function_decl_def split: if_splits)

lemma guard_built_append:
  assumes "getenvFuncDecl s = Some g" "stmts s' = stmts s @ guard_nodes lib g gt (length (stmts s)) t @ rest"
    "getenvFuncDecl s' = getenvFuncDecl s"
  shows "guard_built s' (length (stmts s)) t"
  using assms by (auto simp: guard_built_def built_def guard_nodes_def stmt_def nth_append plain_stmt_def)

lemma dispatch_built_expression:
  assumes "getenvFuncDecl s = Some g" "n0 \<le> length (stmts s)"
    "stmts s' = stmts s @ mutated_expression lib g gt t x r (stmts s)" "getenvFuncDecl s' = getenvFuncDecl s"
  shows "dispatch_built n0 s' (length (stmts s) + 6) t (Some r) x"
proof -
  have "guard_built s' (length (stmts s)) t"
    using assms by (intro guard_built_append) (auto simp: mutated_expression_def)
  moreover have "built s' (length (stmts s) + 6) ConditionalNode [length (stmts s) + 5, r, x]"
    using assms(3) by (simp add: built_def mutated_expression_def guard_nodes_def stmt_def nth_append plain_stmt_def)
  ultimately show ?thesis using assms(2) by (auto simp: dispatch_built_def)
qed

lemma dispatch_built_statement:
  assumes "getenvFuncDecl s = Some g" "n0 \<le> length (stmts s)"
    "stmts s' = stmts s @ mutated_statement lib g gt t x None (stmts s)" "getenvFuncDecl s' = getenvFuncDecl s"
  shows "dispatch_built n0 s' (length (stmts s) + 8) t None x"
proof -
  let ?n = "length (stmts s)"
  have "guard_built s' ?n t"
    using assms by (intro guard_built_append) (auto simp: mutated_statement_def)
  moreover have "built s' (?n + 6) CompoundNode []" "built s' (?n + 7) CompoundNode [x]"
      "built s' (?n + 8) IfNode [?n + 5, ?n + 6, ?n + 7]"
    using assms(3)
    by (simp_all add: built_def mutated_statement_def guard_nodes_def stmt_def nth_append plain_stmt_def)
  ultimately show ?thesis using assms(2) by (auto simp: dispatch_built_def)
qed

text \<open>What the steps share: the state so far, the point, and the known parent of its node.\<close>

definition ready_point :: "clang_library \<Rightarrow> frontend_state \<Rightarrow> ast_mutation_point list \<Rightarrow> (nat \<Rightarrow> nat) \<Rightarrow>
    frontend_state \<Rightarrow> ast_mutation_point \<Rightarrow> bool" where
  "ready_point lib s0 ps D s p \<longleftrightarrow>
     links s0 ps D s \<and> source_tree s0 \<and> fits s0 p \<and> placed lib s0 p \<and> target s0 p \<notin> target s0 ` set ps"

lemma readyD:
  assumes "ready_point lib s0 ps D s p"
  obtains g fd q where "links s0 ps D s" "getenvFuncDecl s = Some g" "function_decl s g = Some fd"
    "hangs_in s0 (target s0 p) q" "\<And>s'. \<exists>qs. getParents lib s' (target s0 p) = q # qs"
    "amp_mutation p = RemoveVoidMutation \<Longrightarrow> \<exists>n. q = StmtParent n"
    "target s0 p < length (stmts s0)" "target s0 p \<notin> target s0 ` set ps" "D (target s0 p) = target s0 p"
    "length (stmts s0) \<le> length (stmts s)"
proof -
  have l: "links s0 ps D s" and s: "source_tree s0" and f: "fits s0 p" and pl: "placed lib s0 p"
      and t: "target s0 p \<notin> target s0 ` set ps"
    using assms by (simp_all add: ready_point_def)
  obtain g fd where g: "getenvFuncDecl s0 = Some g" "function_decl s0 g = Some fd"
    using s by (auto simp: source_tree_def)
  obtain q where q: "known_parent lib s0 (target s0 p) q"
      "amp_mutation p = RemoveVoidMutation \<longrightarrow> (\<exists>n. q = StmtParent n)"
    using pl by (auto simp: placed_def)
  show thesis
  proof (rule that [OF l])
    show "getenvFuncDecl s = Some g" using l g(1) by (simp add: links_def)
    show "function_decl s g = Some fd" using function_decl_links [OF l g(2)] .
    show "hangs_in s0 (target s0 p) q" "\<And>s'. \<exists>qs. getParents lib s' (target s0 p) = q # qs"
      using q(1) by (simp_all add: known_parent_def)
    show "target s0 p < length (stmts s0)" using f by (simp add: fits_def)
    show "D (target s0 p) = target s0 p" "length (stmts s0) \<le> length (stmts s)"
      using l t by (simp_all add: links_def)
  qed (use q(2) t in simp_all)
qed

lemma replaceExpression_links:
  assumes "ready_point lib s0 ps D s p" "replacement_built D (length (stmts s0)) s (replacement s0 p) (Some r)"
    "r < length (stmts s)"
  shows "leads s0 s (p # ps) (replaceExpression lib (target s0 p) r (mutationIdentifier p) s)"
proof -
  obtain g fd q where a: "links s0 ps D s" "getenvFuncDecl s = Some g" "function_decl s g = Some fd"
      "hangs_in s0 (target s0 p) q" "\<And>s'. \<exists>qs. getParents lib s' (target s0 p) = q # qs"
      "target s0 p < length (stmts s0)" "target s0 p \<notin> target s0 ` set ps"
      "length (stmts s0) \<le> length (stmts s)"
    using readyD [OF assms(1)] by metis
  let ?x = "target s0 p" and ?t = "mutationIdentifier p"
  let ?s = "s\<lparr>stmts := stmts s @ mutated_expression lib g (fd_type fd) ?t ?x r (stmts s)\<rparr>"
  let ?d = "length (stmts s) + 6"
  have l: "links s0 ps D ?s" using a(1) by (rule links_append [where ds = "[]"]) auto
  have gr: "grown (length (stmts s0)) s ?s" by (simp add: grown_def stmt_def nth_append)
  have d: "dispatch_built (length (stmts s0)) ?s ?d ?t (Some r) ?x"
    using a by (intro dispatch_built_expression) auto
  have rb: "replacement_built D (length (stmts s0)) ?s (replacement s0 p) (Some r)"
    by (rule replacement_built_mono [OF assms(2) gr]) simp
  obtain s' where s': "place q ?x ?d ?s = (s', Inr ())" "links s0 (p # ps) (D(?x := ?d)) s'"
    using place_links [OF l a(4) refl a(6,7) d rb] by auto
  have k: "kept_new s0 s s'"
    by (rule kept_trans [OF kept_append place_kept [OF l a(4) s'(1)]]) auto
  obtain qs where "getParents lib ?s ?x = q # qs" using a(5) by blast
  then have "replaceExpression lib ?x r ?t s = place q ?x ?d ?s"
    using a(4) by (cases q)
      (simp_all add: replaceExpression_def st_bind_def createMutatedExpression_eq [OF a(2,3) assms(3)])
  then show ?thesis using s' k by (auto simp: leads_def)
qed

lemma replaceStatement_links:
  assumes "ready_point lib s0 ps D s p" "replacement s0 p = NoStatement" "amp_mutation p = RemoveVoidMutation"
  shows "leads s0 s (p # ps) (replaceStatement lib (target s0 p) None (mutationIdentifier p) s)"
proof -
  obtain g fd n where a: "links s0 ps D s" "getenvFuncDecl s = Some g" "function_decl s g = Some fd"
      "hangs_in s0 (target s0 p) (StmtParent n)" "\<And>s'. \<exists>qs. getParents lib s' (target s0 p) = StmtParent n # qs"
      "target s0 p < length (stmts s0)" "target s0 p \<notin> target s0 ` set ps"
      "length (stmts s0) \<le> length (stmts s)"
    using readyD [OF assms(1)] assms(3) by metis
  let ?x = "target s0 p" and ?t = "mutationIdentifier p"
  let ?s = "s\<lparr>stmts := stmts s @ mutated_statement lib g (fd_type fd) ?t ?x None (stmts s)\<rparr>"
  let ?d = "length (stmts s) + 8"
  have l: "links s0 ps D ?s" using a(1) by (rule links_append [where ds = "[]"]) auto
  have d: "dispatch_built (length (stmts s0)) ?s ?d ?t None ?x"
    using a by (intro dispatch_built_statement) auto
  have rb: "replacement_built D (length (stmts s0)) ?s (replacement s0 p) None" by (simp add: assms(2))
  obtain s' where s': "place (StmtParent n) ?x ?d ?s = (s', Inr ())" "links s0 (p # ps) (D(?x := ?d)) s'"
    using place_links [OF l a(4) refl a(6,7) d rb] by auto
  have k: "kept_new s0 s s'"
    by (rule kept_trans [OF kept_append place_kept [OF l a(4) s'(1)]]) auto
  obtain qs where "getParents lib ?s ?x = StmtParent n # qs" using a(5) by blast
  then have "replaceStatement lib ?x None ?t s = place (StmtParent n) ?x ?d ?s"
    by (simp add: replaceStatement_def st_bind_def createMutatedStatement_eq [OF a(2,3)])
  then show ?thesis using s' k by (auto simp: leads_def)
qed

text \<open>The record of the mutant: its string and its variable are put behind the rest.\<close>

lemma add_record_links:
  assumes "links s0 ps D s" "initialised_is_defined lib"
  shows "\<exists>s'. add_record lib p s = (s', Inr ()) \<and> links s0 ps D s'"
  unfolding add_record_def
  by (subst addMutantStringDefinition_eq)
     (use assms(2) in \<open>auto intro: links_append [OF assms(1)]
       simp: mutant_variable_def initialised_is_defined_def\<close>)

lemma finish_links:
  assumes "leads s0 s ps (m s1)" "initialised_is_defined lib"
  shows "finishes lib s0 s p ps (st_bind m (\<lambda>_. add_record lib p) s1)"
proof -
  obtain s2 D' where s2: "m s1 = (s2, Inr ())" "links s0 ps D' s2" "kept_new s0 s s2"
    using assms(1) by (auto simp: leads_def)
  obtain s' where "add_record lib p s2 = (s', Inr ())" "links s0 ps D' s'"
    using add_record_links [OF s2(2) assms(2)] by blast
  then show ?thesis using s2 by (auto simp: finishes_def st_bind_def)
qed

text \<open>A new node is built, and put into the place of the old one.\<close>

lemma new_node_links:
  assumes a: "ready_point lib s0 ps D s p" and i: "initialised_is_defined lib"
    and n: "replacement s0 p = NewNode (stmt_kind nd) (stmt_type nd) (stmt_value nd) cs"
      "list_all2 (\<lambda>y c. c = y \<or> c = D y) cs (stmt_children nd)"
    and x: "x = target s0 p"
  shows "finishes lib s0 s p (p # ps) (st_bind (new_stmt nd) (\<lambda>r. st_bind (replaceExpression lib x r (mutationIdentifier p))
      (\<lambda>_. add_record lib p)) s)"
proof -
  let ?s = "s\<lparr>stmts := stmts s @ [nd]\<rparr>"
  have l: "links s0 ps D s" using a by (simp add: ready_point_def)
  have "links s0 ps D ?s" using l by (rule links_append [where ds = "[]"]) auto
  then have r: "ready_point lib s0 ps D ?s p" using a by (simp add: ready_point_def)
  have "replacement_built D (length (stmts s0)) ?s (replacement s0 p) (Some (length (stmts s)))"
    using l n by (simp add: built_def stmt_def links_def)
  then have "leads s0 ?s (p # ps) (replaceExpression lib x (length (stmts s)) (mutationIdentifier p) ?s)"
    unfolding x by (intro replaceExpression_links [OF r]) auto
  moreover have "kept_new s0 s ?s" by (rule kept_append) auto
  ultimately have "leads s0 s (p # ps) (replaceExpression lib x (length (stmts s)) (mutationIdentifier p) ?s)"
    using kept_trans by (auto simp: leads_def)
  then have "finishes lib s0 s p (p # ps) (st_bind (replaceExpression lib x (length (stmts s)) (mutationIdentifier p))
      (\<lambda>_. add_record lib p) ?s)"
    by (rule finish_links) (rule i)
  then show ?thesis by simp
qed

lemma stmt_links:
  "links s0 ps D s \<Longrightarrow> i < length (stmts s0) \<Longrightarrow>
   stmt s i = (stmt s0 i)\<lparr>stmt_children := map D (stmt_children (stmt s0 i))\<rparr>"
  by (simp add: links_def)

lemma links_in_range:
  assumes "links s0 ps D s" "y < length (stmts s0)"
  shows "D y < length (stmts s)"
proof (cases "y \<in> target s0 ` set ps")
  case True
  then obtain p where p: "p \<in> set ps" "y = target s0 p" by blast
  have "\<exists>t. dispatch_built (length (stmts s0)) s (D y) (mutationIdentifier p) t y"
    using links_dispatch [OF assms(1) p(1)] p(2) by blast
  then show ?thesis using dispatch_built_range by blast
next
  case False
  then show ?thesis using assms by (auto simp: links_def)
qed

lemma source_children:
  assumes "source_tree s" "i < length (stmts s)"
  shows "operands (stmt_kind (stmt s i)) (length (stmt_children (stmt s i)))"
    "\<And>c. c \<in> set (stmt_children (stmt s i)) \<Longrightarrow> c < i"
  using assms by (auto simp: source_tree_def parts_def)

lemma two_elements: "length xs = 2 \<Longrightarrow> \<exists>a b. xs = [a, b]"
  by (auto simp: length_Suc_conv eval_nat_numeral)

lemma literal_links:
  assumes a: "ready_point lib s0 ps D s p" and i: "initialised_is_defined lib"
    and t: "numeric_type t" and r: "replacement s0 p = literal_node t" and x: "x = target s0 p"
  shows "finishes lib s0 s p (p # ps) (st_bind (replacement_literal t) (\<lambda>r. st_bind (replaceExpression lib x r (mutationIdentifier p))
      (\<lambda>_. add_record lib p)) s)"
proof -
  obtain nd where nd: "replacement_literal t = new_stmt nd"
      "stmt_kind nd = (if t = IntTy then IntegerNode 42 else FloatingNode (42, 0) True)"
      "stmt_type nd = t" "stmt_value nd = VK_RValue" "stmt_children nd = []"
    using t by (auto simp: replacement_literal_def numeric_type_def factory_defs plain_stmt_def)
  show ?thesis
    unfolding nd(1)
    by (rule new_node_links [OF a i _ _ x, where cs = "[]"]) (simp_all add: r literal_node_def nd)
qed

lemma performMutation_links:
  assumes a: "ready_point lib s0 ps D s p" and i: "initialised_is_defined lib"
  shows "finishes lib s0 s p (p # ps) (performMutation lib p s)"
proof -
  let ?x = "target s0 p"
  have l: "links s0 ps D s" and st: "source_tree s0" and f: "fits s0 p" using a by (simp_all add: ready_point_def)
  have x: "?x < length (stmts s0)" "D ?x = ?x" using readyD [OF a] by metis+
  have n: "stmt s ?x = (stmt s0 ?x)\<lparr>stmt_children := map D (stmt_children (stmt s0 ?x))\<rparr>"
    by (rule stmt_links [OF l x(1)])
  note op = source_children(1) [OF st x(1)]
  show ?thesis
  proof (cases "amp_mutation p")
    case (BinaryMutation op')
    have t: "amp_mutableStmt p = ?x" by (simp add: target_def BinaryMutation)
    have "length (stmt_children (stmt s0 ?x)) = 2"
      using f op by (auto simp: fits_def BinaryMutation operands_def)
    then obtain y z where c: "stmt_children (stmt s0 ?x) = [y, z]" by (auto dest: two_elements)
    consider w where "stmt_kind (stmt s0 ?x) = BinaryNode w"
      | w l r where "stmt_kind (stmt s0 ?x) = CompoundAssignNode w l r"
      using f by (auto simp: fits_def BinaryMutation)
    then show ?thesis
    proof cases
      case 1
      show ?thesis
        by (simp add: 1 performMutation_def BinaryMutation performBinaryMutation_def t n c Let_def factory_defs
              del: st_bind_new_stmt,
            rule new_node_links [OF a i _ _ refl, where cs = "[y, z]"])
           (simp_all add: 1 replacement_def BinaryMutation plain_stmt_def c Let_def)
    next
      case 2
      show ?thesis
        by (simp add: 2 performMutation_def BinaryMutation performBinaryMutation_def t n c Let_def factory_defs
              del: st_bind_new_stmt,
            rule new_node_links [OF a i _ _ refl, where cs = "[y, z]"])
           (simp_all add: 2 replacement_def BinaryMutation plain_stmt_def c Let_def)
    qed
  next
    case RemoveVoidMutation
    have t: "amp_mutableStmt p = ?x" by (simp add: target_def RemoveVoidMutation)
    have k: "stmt_kind (stmt s ?x) = CallNode" using f n by (simp add: fits_def RemoveVoidMutation)
    have "leads s0 s (p # ps) (replaceStatement lib ?x None (mutationIdentifier p) s)"
      by (rule replaceStatement_links [OF a]) (simp_all add: replacement_def RemoveVoidMutation)
    from finish_links [where m = "replaceStatement lib ?x None (mutationIdentifier p)", OF this i]
    show ?thesis
      by (simp add: performMutation_def RemoveVoidMutation performRemoveVoidMutation_def t k)
  next
    case (ReplaceScalarCallMutation c)
    have t: "c = ?x" by (simp add: target_def ReplaceScalarCallMutation)
    have ty: "stmt_type (stmt s c) = stmt_type (stmt s0 ?x)" using n t by simp
    show ?thesis
      by (simp add: performMutation_def ReplaceScalarCallMutation performReplaceScalarMutation_def ty,
          rule literal_links [OF a i _ _ t])
         (use f in \<open>simp_all add: fits_def replacement_def ReplaceScalarCallMutation Let_def t [symmetric]\<close>)
  next
    case (UnaryOperatorOpcodeMutation u op')
    have t: "amp_mutableStmt p = ?x" by (simp add: target_def UnaryOperatorOpcodeMutation)
    obtain w where k: "stmt_kind (stmt s0 ?x) = UnaryNode w"
      using f by (auto simp: fits_def UnaryOperatorOpcodeMutation)
    then obtain y where c: "stmt_children (stmt s0 ?x) = [y]" using op by (auto simp: operands_def length_Suc_conv)
    show ?thesis
      by (simp add: performMutation_def UnaryOperatorOpcodeMutation performUnaryOperatorOpcodeMutation_def t n k c
            sub_expr_def Let_def factory_defs del: st_bind_new_stmt,
          rule new_node_links [OF a i _ _ refl, where cs = "[y]"])
         (simp_all add: replacement_def UnaryOperatorOpcodeMutation plain_stmt_def c Let_def)
  next
    case (UnaryOperatorRemovalMutation u)
    have t: "u = ?x" by (simp add: target_def UnaryOperatorRemovalMutation)
    obtain w where "stmt_kind (stmt s0 ?x) = UnaryNode w"
      using f t by (auto simp: fits_def UnaryOperatorRemovalMutation)
    then obtain y where c: "stmt_children (stmt s0 ?x) = [y]" using op by (auto simp: operands_def length_Suc_conv)
    have y: "D y < length (stmts s)"
      using links_in_range [OF l, of y] source_children(2) [OF st x(1), of y] c x(1) by simp
    have "leads s0 s (p # ps) (replaceExpression lib ?x (D y) (mutationIdentifier p) s)"
      by (rule replaceExpression_links [OF a _ y])
         (simp add: replacement_def UnaryOperatorRemovalMutation c Let_def)
    from finish_links [where m = "replaceExpression lib ?x (D y) (mutationIdentifier p)", OF this i]
    show ?thesis
      by (simp add: performMutation_def UnaryOperatorRemovalMutation performUnaryOperatorRemovalMutation_def t
          sub_expr_def n c)
  next
    case (ReplaceNumericAssignmentMutation b)
    have t: "?x = rhs_of s0 b" by (simp add: target_def ReplaceNumericAssignmentMutation)
    have b: "b < length (stmts s0)" "length (stmt_children (stmt s0 b)) = 2"
        "numeric_type (stmt_type (stmt s0 (rhs_of s0 b)))"
      using f by (simp_all add: fits_def ReplaceNumericAssignmentMutation)
    have r: "rhs_of s b = ?x" using stmt_links [OF l b(1)] b(2) x(2) by (simp add: rhs_of_def t)
    have r': "rhs_of (s\<lparr>stmts := stmts s @ ss\<rparr>) b = ?x" for ss
      using r b(1) l by (simp add: rhs_of_def stmt_def nth_append links_def)
    obtain nd where nd: "replacement_literal (stmt_type (stmt s0 ?x)) = new_stmt nd"
      using b(3) t by (auto simp: replacement_literal_def numeric_type_def factory_defs)
    have "finishes lib s0 s p (p # ps) (st_bind (replacement_literal (stmt_type (stmt s0 ?x))) (\<lambda>r. st_bind (replaceExpression lib ?x r
        (mutationIdentifier p)) (\<lambda>_. add_record lib p)) s)"
      by (rule literal_links [OF a i _ _ refl])
         (use b(3) t in \<open>simp_all add: replacement_def ReplaceNumericAssignmentMutation Let_def\<close>)
    then show ?thesis
      by (simp add: performMutation_def ReplaceNumericAssignmentMutation performReplaceNumericAssignmentMutation_def
          r r' n nd)
  next
    case (ReplaceNumericInitAssignmentMutation v)
    obtain d where v: "variable s0 v = Some d" "\<not> vd_is_param d" "vd_init d = Some ?x"
        "numeric_type (stmt_type (stmt s0 ?x))"
      using f by (auto simp: fits_def ReplaceNumericInitAssignmentMutation target_def variable_init_def)
    have "variable s v = Some (d\<lparr>vd_init := Some ?x\<rparr>)"
      using l v x(2) variable_in_range [OF v(1)]
      by (cases "declarations s0 ! v") (auto simp: links_def variable_def)
    moreover have "finishes lib s0 s p (p # ps) (st_bind (replacement_literal (stmt_type (stmt s0 ?x))) (\<lambda>r. st_bind (replaceExpression lib ?x r
        (mutationIdentifier p)) (\<lambda>_. add_record lib p)) s)"
      by (rule literal_links [OF a i v(4) _ refl])
         (simp add: replacement_def ReplaceNumericInitAssignmentMutation Let_def)
    ultimately show ?thesis
      using v(2) n by (simp add: performMutation_def ReplaceNumericInitAssignmentMutation
          performReplaceNumericInitAssignmentMutation_def)
  qed
qed

section \<open>All mutations\<close>

text \<open>The strings of the mutants recorded since the state \<open>s0\<close>, in order.\<close>

definition record_at :: "clang_library \<Rightarrow> frontend_state \<Rightarrow> frontend_state \<Rightarrow> ast_mutation_point \<Rightarrow> nat \<Rightarrow> bool" where
  "record_at lib s0 s p d \<longleftrightarrow>
     length (declarations s0) \<le> d \<and> d < length (declarations s) \<and>
     (\<exists>l. length (stmts s0) \<le> l \<and> l < length (stmts s) \<and>
        declarations s ! d = VarDeclaration (mutant_variable lib (mutationBinaryRecord p)
          (mutator_number (amp_mutationType p)) (amp_beginLine p) (amp_beginColumn p) l) \<and>
        stmt s l = plain_stmt (StringNode (mutationBinaryRecord p))
          (getConstantArrayType lib (ConstType CharTy) (of_nat (length (mutationBinaryRecord p)))) VK_RValue [])"

definition records :: "clang_library \<Rightarrow> frontend_state \<Rightarrow> ast_mutation_point list \<Rightarrow> frontend_state \<Rightarrow> bool" where
  "records lib s0 ps s \<longleftrightarrow>
     (\<exists>ws. WeakTopLevelDecls s = WeakTopLevelDecls s0 @ ws \<and> list_all2 (record_at lib s0 s) ps ws)"

lemma record_at_kept:
  assumes "record_at lib s0 s p d" "kept_new s0 s s'"
  shows "record_at lib s0 s' p d"
proof -
  have d: "declarations s' ! d = declarations s ! d" "d < length (declarations s')" "length (declarations s0) \<le> d"
    using assms by (auto simp: record_at_def kept_new_def)
  obtain l where l: "length (stmts s0) \<le> l" "l < length (stmts s)"
      "declarations s ! d = VarDeclaration (mutant_variable lib (mutationBinaryRecord p)
          (mutator_number (amp_mutationType p)) (amp_beginLine p) (amp_beginColumn p) l)"
      "stmt s l = plain_stmt (StringNode (mutationBinaryRecord p))
          (getConstantArrayType lib (ConstType CharTy) (of_nat (length (mutationBinaryRecord p)))) VK_RValue []"
    using assms(1) by (auto simp: record_at_def)
  have "stmt s' l = stmt s l" "l < length (stmts s')" using l(1,2) assms(2) by (auto simp: kept_new_def)
  then show ?thesis using l d unfolding record_at_def by auto
qed

lemma records_cong:
  assumes "records lib s0 ps s" "WeakTopLevelDecls s' = WeakTopLevelDecls s"
    "\<And>q w. record_at lib s0 s q w \<Longrightarrow> record_at lib s0 s' q w"
  shows "records lib s0 ps s'"
proof -
  obtain ws where ws: "WeakTopLevelDecls s = WeakTopLevelDecls s0 @ ws" "list_all2 (record_at lib s0 s) ps ws"
    using assms(1) by (auto simp: records_def)
  have "list_all2 (record_at lib s0 s') ps ws" using ws(2) by (rule list_all2_mono) (rule assms(3))
  then show ?thesis using ws(1) assms(2) by (auto simp: records_def)
qed

lemma records_kept:
  assumes "records lib s0 ps s" "kept_new s0 s s'"
  shows "records lib s0 ps s'"
proof (rule records_cong [OF assms(1)])
  show "WeakTopLevelDecls s' = WeakTopLevelDecls s" using assms(2) by (simp add: kept_new_def)
qed (rule record_at_kept [OF _ assms(2)])

lemma records_add:
  assumes r: "records lib s0 ps s" and a: "add_record lib p s = (s', Inr ())" "initialised_is_defined lib"
    and n: "length (stmts s0) \<le> length (stmts s)" "length (declarations s0) \<le> length (declarations s)"
  shows "records lib s0 (ps @ [p]) s'"
proof -
  let ?rec = "mutationBinaryRecord p" and ?d = "length (declarations s)"
  have s': "stmts s' = stmts s @ [plain_stmt (StringNode ?rec)
        (getConstantArrayType lib (ConstType CharTy) (of_nat (length ?rec))) VK_RValue []]"
      "declarations s' = declarations s @ [VarDeclaration (mutant_variable lib ?rec
          (mutator_number (amp_mutationType p)) (amp_beginLine p) (amp_beginColumn p) (length (stmts s)))]"
      "WeakTopLevelDecls s' = WeakTopLevelDecls s @ [?d]"
    using a addMutantStringDefinition_eq [of lib ?rec "mutator_number (amp_mutationType p)" "amp_beginLine p"
        "amp_beginColumn p" s]
    by (auto simp: add_record_def initialised_is_defined_def mutant_variable_def)
  obtain ws where ws: "WeakTopLevelDecls s = WeakTopLevelDecls s0 @ ws" "list_all2 (record_at lib s0 s) ps ws"
    using r by (auto simp: records_def)
  have k: "kept_new s0 (s\<lparr>WeakTopLevelDecls := WeakTopLevelDecls s'\<rparr>) s'"
    by (simp add: kept_new_def s' stmt_def nth_append)
  have "record_at lib s0 s' q w" if "record_at lib s0 s q w" for q w
    by (rule record_at_kept [OF _ k]) (use that in \<open>simp add: record_at_def stmt_def\<close>)
  then have "list_all2 (record_at lib s0 s') ps ws" by (rule list_all2_mono [OF ws(2)])
  moreover have "record_at lib s0 s' p ?d"
    unfolding record_at_def
    by (intro conjI exI [of _ "length (stmts s)"]) (use n in \<open>simp_all add: s' stmt_def\<close>)
  ultimately have "list_all2 (record_at lib s0 s') (ps @ [p]) (ws @ [?d])"
    by (simp add: list_all2_appendI)
  then show ?thesis using ws(1) s'(3) by (auto simp: records_def)
qed

lemma perform_all_links:
  assumes "links s0 ps D s" "source_tree s0" "initialised_is_defined lib"
    "\<And>p. p \<in> set qs \<Longrightarrow> fits s0 p \<and> placed lib s0 p"
    "distinct (map (target s0) qs)" "target s0 ` set qs \<inter> target s0 ` set ps = {}" "records lib s0 rs s"
  shows "\<exists>s' D'. perform_all lib qs s = (s', Inr ()) \<and> links s0 (rev qs @ ps) D' s' \<and> records lib s0 (rs @ qs) s'"
  using assms(1,4-7)
proof (induction qs arbitrary: ps D s rs)
  case Nil
  then show ?case by (auto simp: st_return_def)
next
  case (Cons p qs)
  have "ready_point lib s0 ps D s p"
    using Cons.prems assms(2) by (simp add: ready_point_def)
  then obtain s0' s1 D1 where s1: "performMutation lib p s = (s1, Inr ())" "links s0 (p # ps) D1 s1"
      "kept_new s0 s s0'" "add_record lib p s0' = (s1, Inr ())"
    using performMutation_links assms(3) unfolding finishes_def by blast
  have "length (stmts s0) \<le> length (stmts s0')" "length (declarations s0) \<le> length (declarations s0')"
    using s1(3) Cons.prems(1) by (auto simp: kept_new_def links_def)
  then have "records lib s0 (rs @ [p]) s1"
    using records_add [OF records_kept [OF Cons.prems(5) s1(3)] s1(4) assms(3)] by blast
  then have "\<exists>s' D'. perform_all lib qs s1 = (s', Inr ()) \<and> links s0 (rev qs @ p # ps) D' s' \<and>
      records lib s0 ((rs @ [p]) @ qs) s'"
    using Cons.prems by (intro Cons.IH [OF s1(2)]) auto
  then show ?case by (simp add: st_bind_def s1(1))
qed

section \<open>Reading the tree\<close>

abbreviation branching :: "stmt_kind \<Rightarrow> bool" where
  "branching kd \<equiv> kd = ConditionalNode \<or> kd = IfNode"

lemma links_not_dispatch:
  assumes "links s0 ps D s" "i < length (stmts s0)" "\<not> branching (stmt_kind (stmt s (D i)))"
  shows "D i = i \<and> stmt_kind (stmt s (D i)) = stmt_kind (stmt s0 i) \<and>
    stmt_children (stmt s (D i)) = map D (stmt_children (stmt s0 i))"
proof -
  have "D i = i"
  proof (cases "i \<in> target s0 ` set ps")
    case True
    then obtain p where p: "p \<in> set ps" "i = target s0 p" by blast
    have "branching (stmt_kind (stmt s (D i)))"
      using links_dispatch [OF assms(1) p(1)] p(2) dispatch_built_kind by blast
    then show ?thesis using assms(3) by blast
  next
    case False
    then show ?thesis using assms(1) by (simp add: links_def)
  qed
  then show ?thesis using stmt_links [OF assms(1,2)] by simp
qed

text \<open>A part of a source statement that is no dispatch is where the source has it, with its parts redirected.\<close>

lemma links_child:
  assumes l: "links s0 ps D s" "source_tree s0" and i: "i < length (stmts s0)"
    and c: "c \<in> set (stmt_children (stmt s (D i)))" "\<not> branching (stmt_kind (stmt s (D i)))"
  obtains c0 where "c = D c0" "c0 < length (stmts s0)"
proof -
  obtain c0 where c0: "c0 \<in> set (stmt_children (stmt s0 i))" "c = D c0"
    using links_not_dispatch [OF l(1) i c(2)] c(1) by auto
  moreover have "c0 < length (stmts s0)" using source_children(2) [OF l(2) i c0(1)] i by simp
  ultimately show thesis using that by blast
qed

lemma guard_of_Some:
  assumes "guard_of s c = Some t"
  obtains k f a r g where "stmt_kind (stmt s c) = ImplicitCastNode CK_PointerToBoolean" "stmt_children (stmt s c) = [k]"
    "stmt_kind (stmt s k) = CallNode" "stmt_children (stmt s k) = [f, a]"
    "stmt_kind (stmt s f) = ImplicitCastNode CK_FunctionToPointerDecay" "stmt_children (stmt s f) = [r]"
    "stmt_kind (stmt s r) = DeclRefNode g" "getenvFuncDecl s = Some g"
  using assms
  by (auto simp: guard_of_def split: if_splits list.splits stmt_kind.splits)

lemma links_no_guard:
  assumes l: "links s0 ps D s" "source_tree s0" and c: "c < length (stmts s0)"
  shows "guard_of s (D c) = None"
proof (rule ccontr)
  assume "guard_of s (D c) \<noteq> None"
  then obtain t where "guard_of s (D c) = Some t" by blast
  then obtain k f a r g where g: "stmt_kind (stmt s (D c)) = ImplicitCastNode CK_PointerToBoolean"
    "stmt_children (stmt s (D c)) = [k]"
    "stmt_kind (stmt s k) = CallNode" "stmt_children (stmt s k) = [f, a]"
    "stmt_kind (stmt s f) = ImplicitCastNode CK_FunctionToPointerDecay" "stmt_children (stmt s f) = [r]"
    "stmt_kind (stmt s r) = DeclRefNode g" "getenvFuncDecl s = Some g"
    by (rule guard_of_Some)
  obtain k0 where k0: "k = D k0" "k0 < length (stmts s0)" by (rule links_child [OF l c, of k]) (simp_all add: g)
  obtain f0 where f0: "f = D f0" "f0 < length (stmts s0)"
    by (rule links_child [OF l k0(2), of f]) (simp_all add: g k0(1) [symmetric])
  obtain r0 where r0: "r = D r0" "r0 < length (stmts s0)"
    by (rule links_child [OF l f0(2), of r]) (simp_all add: g f0(1) [symmetric])
  have "stmt_kind (stmt s0 r0) = DeclRefNode g"
    using links_not_dispatch [OF l(1) r0(2)] g(7) r0(1) by simp
  then show False using l r0(2) g(8) by (simp add: source_tree_def links_def)
qed

lemma links_no_dispatch:
  assumes l: "links s0 ps D s" "source_tree s0" and i: "i < length (stmts s0)"
  shows "dispatch_of s i = None"
proof -
  have n: "stmt_kind (stmt s i) = stmt_kind (stmt s0 i)" "stmt_children (stmt s i) = map D (stmt_children (stmt s0 i))"
    using stmt_links [OF l(1) i] by simp_all
  have "guard_of s c = None" if ch: "stmt_children (stmt s i) = c # cs" for c cs
  proof -
    obtain c0 where c0: "c = D c0" "c0 \<in> set (stmt_children (stmt s0 i))"
      using ch n(2) by (cases "stmt_children (stmt s0 i)") auto
    then have "c0 < length (stmts s0)" using source_children(2) [OF l(2) i] i by fastforce
    then show ?thesis using links_no_guard [OF l] c0(1) by simp
  qed
  then show ?thesis
    by (auto simp: dispatch_of_def split: stmt_kind.splits list.splits)
qed

lemma links_parts:
  assumes l: "links s0 ps D s" "source_tree s0" and i: "i < length (stmts s0)"
  shows "parts s i = map D (parts s0 i)"
proof (cases "\<exists>vs. stmt_kind (stmt s0 i) = DeclStmtNode vs")
  case True
  then obtain vs where vs: "stmt_kind (stmt s0 i) = DeclStmtNode vs" by blast
  have "\<forall>v \<in> set vs. v < length (declarations s0)" using l(2) i vs by (simp add: source_tree_def)
  then have "List.map_filter (variable_init s) vs = map D (List.map_filter (variable_init s0) vs)"
    by (induction vs) (auto simp: map_filter_simps variable_init_links [OF l(1)] split: option.split)
  then show ?thesis using stmt_links [OF l(1) i] vs by (simp add: parts_def)
next
  case False
  then show ?thesis using stmt_links [OF l(1) i] by (simp add: parts_def split: stmt_kind.split)
qed

lemma replacement_new_node:
  assumes "source_tree s" "fits s p" "replacement s p = NewNode kd t v cs"
  shows "\<not> branching kd" "\<And>vs. kd \<noteq> DeclStmtNode vs" "\<And>c. c \<in> set cs \<Longrightarrow> c < target s p"
proof -
  let ?x = "target s p"
  have x: "?x < length (stmts s)" using assms(2) by (simp add: fits_def)
  have c: "stmt_children (stmt s ?x) ! k < ?x" if "k < length (stmt_children (stmt s ?x))" for k
    using source_children(2) [OF assms(1) x] that by simp
  show "\<not> branching kd" "\<And>vs. kd \<noteq> DeclStmtNode vs"
    using assms(3)
    by (auto simp: replacement_def Let_def literal_node_def split: ast_mutation.splits stmt_kind.splits if_splits)
  show "c < ?x" if "c \<in> set cs" for c
    using assms that source_children(1) [OF assms(1) x] c [of 0] c [of 1]
    by (auto simp: replacement_def Let_def literal_node_def fits_def operands_def
        simp del: length_greater_0_conv split: ast_mutation.splits stmt_kind.splits)
qed

lemma replacement_sub_expression:
  assumes "source_tree s" "fits s p" "replacement s p = SubExpression y"
  shows "y < target s p"
proof -
  have x: "target s p < length (stmts s)" using assms(2) by (simp add: fits_def)
  show ?thesis
    using assms source_children [OF assms(1) x]
    by (auto simp: replacement_def Let_def literal_node_def fits_def operands_def target_def
        split: ast_mutation.splits)
qed

text \<open>Which mutation an environment selects: at most one of the points.\<close>

definition selects :: "(string \<Rightarrow> bool) \<Rightarrow> ast_mutation_point list \<Rightarrow> ast_mutation_point option \<Rightarrow> bool" where
  "selects en ps q \<longleftrightarrow>
     (\<forall>p \<in> set ps. en (mutationIdentifier p) \<longleftrightarrow> q = Some p) \<and> (\<forall>p. q = Some p \<longrightarrow> p \<in> set ps)"

lemma map_eq_list_all2: "list_all2 (\<lambda>y c. f c = g y) cs cs' \<Longrightarrow> map f cs' = map g cs"
  by (induction rule: list_all2_induct) auto

lemma resolve_links:
  assumes l: "links s0 ps D s" "source_tree s0" and f: "\<And>p. p \<in> set ps \<Longrightarrow> fits s0 p"
    and inj: "inj_on (target s0) (set ps)" and en: "selects en ps q"
    and i: "i < length (stmts s0)" "2 * i + 1 \<le> k" "i + 1 \<le> k'"
  shows "resolve en s (Suc k) (D i) = program_tree_at s0 q k' i \<and>
    ((\<forall>p. q = Some p \<longrightarrow> target s0 p \<noteq> i) \<longrightarrow> resolve en s k i = program_tree_at s0 q k' i)"
  using i
proof (induction i arbitrary: k k' rule: less_induct)
  case (less i)
  obtain m where m: "k = Suc m" using less.prems(2) by (cases k) auto
  obtain m' where m': "k' = Suc m'" using less.prems(3) by (cases k') auto
  have IH: "resolve en s m (D c) = program_tree_at s0 q m' c" "resolve en s k (D c) = program_tree_at s0 q m' c"
    if "c < i" for c
    using less.IH [OF that, of "m - 1" m'] less.IH [OF that, of m m'] that less.prems m m' by simp_all
  have IH': "resolve en s m c = program_tree_at s0 q m' c" "resolve en s k c = program_tree_at s0 q m' c"
    if "c < i" "\<forall>p. q = Some p \<longrightarrow> target s0 p \<noteq> c" for c
    using less.IH [OF that(1), of m m'] less.IH [OF that(1), of k m'] that less.prems m m' by simp_all
  have plain: "resolve en s (Suc n) i = program_tree_at s0 q k' i"
    if n: "\<forall>p. q = Some p \<longrightarrow> target s0 p \<noteq> i" and IHn: "\<And>c. c < i \<Longrightarrow> resolve en s n (D c) = program_tree_at s0 q m' c" for n
  proof -
    have c: "map (resolve en s n) (parts s i) = map (program_tree_at s0 q m') (parts s0 i)"
      using l(2) less.prems(1) IHn by (auto simp: links_parts [OF l less.prems(1)] source_tree_def)
    have "resolve en s (Suc n) i =
        map_option (Tree (stmt_kind (stmt s0 i)) (stmt_type (stmt s0 i)) (stmt_value (stmt s0 i)))
          (those (map (program_tree_at s0 q m') (parts s0 i)))"
      using l(1) less.prems(1) c stmt_links [OF l(1) less.prems(1)]
      by (simp add: links_no_dispatch [OF l less.prems(1)] links_def)
    then show ?thesis using n less.prems(1) by (auto simp: m' split: option.split)
  qed
  have here: "resolve en s k i = program_tree_at s0 q k' i" if "\<forall>p. q = Some p \<longrightarrow> target s0 p \<noteq> i"
    unfolding m using that IH(1) by (rule plain)
  have there: "resolve en s (Suc k) (D i) = program_tree_at s0 q k' i"
  proof (cases "i \<in> target s0 ` set ps")
    case False
    then have "D i = i" using l(1) by (simp add: links_def)
    moreover have "\<forall>p. q = Some p \<longrightarrow> target s0 p \<noteq> i" using False en by (auto simp: selects_def)
    ultimately show ?thesis using plain [OF _ IH(2)] by simp
  next
    case True
    then obtain p where p: "p \<in> set ps" "target s0 p = i" by blast
    obtain t where t: "dispatch_built (length (stmts s0)) s (D i) (mutationIdentifier p) t i"
        "replacement_built D (length (stmts s0)) s (replacement s0 p) t"
      using links_dispatch [OF l(1) p(1)] p(2) by blast
    have d: "dispatch_of s (D i) = Some (mutationIdentifier p, t, i)" "D i < length (stmts s)"
      using dispatch_of_built [OF t(1)] dispatch_built_range [OF t(1)] by simp_all
    show ?thesis
    proof (cases "q = Some p")
      case False
      then have "\<forall>p'. q = Some p' \<longrightarrow> target s0 p' \<noteq> i"
        using en inj p by (auto simp: selects_def dest: inj_onD)
      moreover have "\<not> en (mutationIdentifier p)" using en p(1) False by (simp add: selects_def)
      ultimately show ?thesis using here d by simp
    next
      case q: True
      have e: "en (mutationIdentifier p)" using en p(1) q by (simp add: selects_def)
      have part: "resolve en s n c = program_tree_at s0 q m' y"
        if "y < i" "c = y \<or> c = D y" "n = m \<or> n = k" for y c n
        using that IH(1) [OF that(1)] IH(2) [OF that(1)] IH' [OF that(1)] q p(2) by auto
      show ?thesis
      proof (cases "replacement s0 p")
        case (NewNode kd ty v cs)
        then obtain r cs' where r: "t = Some r" "built s r kd cs'"
            "list_all2 (\<lambda>y c. c = y \<or> c = D y) cs cs'" "stmt_type (stmt s r) = ty" "stmt_value (stmt s r) = v"
          using t(2) by (cases t) auto
        note kd = replacement_new_node [OF l(2) f [OF p(1)] NewNode]
        have "list_all2 (\<lambda>y c. resolve en s m c = program_tree_at s0 q m' y) cs cs'"
          using r(3) part kd(3) p(2) by (auto simp: list_all2_conv_all_nth)
        then have "map (resolve en s m) cs' = map (program_tree_at s0 q m') cs" by (rule map_eq_list_all2)
        moreover have "dispatch_of s r = None" "parts s r = cs'"
          using kd r(2) by (auto simp: dispatch_of_def parts_def built_def split: stmt_kind.splits)
        ultimately have "resolve en s k r = map_option (Tree kd ty v) (those (map (program_tree_at s0 q m') cs))"
          using r by (simp add: m built_def)
        then show ?thesis using e d q p(2) less.prems(1) NewNode r(1) by (simp add: m')
      next
        case (SubExpression y)
        then obtain r where r: "t = Some r" "r = y \<or> r = D y" using t(2) by (cases t) auto
        have "y < i" using replacement_sub_expression [OF l(2) f [OF p(1)] SubExpression] p(2) by simp
        then have "resolve en s k r = program_tree_at s0 q m' y" using part r(2) by blast
        then show ?thesis using e d q p(2) less.prems(1) SubExpression r(1) by (simp add: m')
      next
        case NoStatement
        then have "t = None" using t(2) by (cases t) auto
        then show ?thesis using e d q p(2) less.prems(1) NoStatement by (simp add: m')
      qed
    qed
  qed
  show ?case using here there by blast
qed

text \<open>The size of the store is fuel enough for a source tree, also for the mutated one.\<close>

lemma those_Some: "(\<And>x. x \<in> set xs \<Longrightarrow> f x \<noteq> None) \<Longrightarrow> those (map f xs) \<noteq> None"
  by (induction xs) (auto split: option.split)

lemma program_tree_at_Some:
  assumes "source_tree s" "\<And>p. q = Some p \<Longrightarrow> fits s p" "i < length (stmts s)" "i + 1 \<le> k"
  shows "program_tree_at s q k i \<noteq> None"
  using assms(3,4)
proof (induction i arbitrary: k rule: less_induct)
  case (less i)
  obtain m where m: "k = Suc m" using less.prems(2) by (cases k) auto
  have IH: "program_tree_at s q m c \<noteq> None" if "c < i" for c
    using less.IH [OF that, of m] that less.prems m by simp
  have c: "those (map (program_tree_at s q m) (parts s i)) \<noteq> None"
    by (rule those_Some) (use assms(1) less.prems(1) IH in \<open>auto simp: source_tree_def\<close>)
  show ?case
  proof (cases "\<exists>p. q = Some p \<and> target s p = i")
    case False
    then show ?thesis using c less.prems(1) by (auto simp: m split: option.splits)
  next
    case True
    then obtain p where p: "q = Some p" "target s p = i" by blast
    note f = assms(2) [OF p(1)]
    show ?thesis
    proof (cases "replacement s p")
      case (NewNode kd t v cs)
      have "those (map (program_tree_at s q m) cs) \<noteq> None"
        by (rule those_Some) (use replacement_new_node(3) [OF assms(1) f NewNode] IH p(2) in auto)
      then show ?thesis using NewNode p less.prems(1) by (simp add: m)
    next
      case (SubExpression y)
      then show ?thesis
        using replacement_sub_expression [OF assms(1) f SubExpression] IH p less.prems(1) by (simp add: m)
    next
      case NoStatement
      then show ?thesis using p less.prems(1) by (simp add: m)
    qed
  qed
qed

text \<open>Under any environment, whatever it selects, reading the mutated tree comes to an end.\<close>

lemma resolve_links_Some:
  assumes l: "links s0 ps D s" "source_tree s0" and f: "\<And>p. p \<in> set ps \<Longrightarrow> fits s0 p"
    and i: "i < length (stmts s0)" "2 * i + 1 \<le> k"
  shows "resolve en s (Suc k) (D i) \<noteq> None \<and> resolve en s k i \<noteq> None"
  using i
proof (induction i arbitrary: k rule: less_induct)
  case (less i)
  obtain m where m: "k = Suc m" using less.prems(2) by (cases k) auto
  have IH: "resolve en s m (D c) \<noteq> None" "resolve en s k (D c) \<noteq> None" "resolve en s m c \<noteq> None" "resolve en s k c \<noteq> None"
    if "c < i" for c
    using less.IH [OF that, of "m - 1"] less.IH [OF that, of m] less.IH [OF that, of k] that less.prems m by simp_all
  have plain: "resolve en s (Suc n) i \<noteq> None" if n: "\<And>c. c < i \<Longrightarrow> resolve en s n (D c) \<noteq> None" for n
  proof -
    have "those (map (resolve en s n) (parts s i)) \<noteq> None"
      by (rule those_Some)
         (use l(2) less.prems(1) n in \<open>auto simp: links_parts [OF l less.prems(1)] source_tree_def\<close>)
    then show ?thesis
      using l(1) less.prems(1) by (simp add: links_no_dispatch [OF l less.prems(1)] links_def)
  qed
  have here: "resolve en s k i \<noteq> None" unfolding m by (rule plain) (rule IH(1))
  have there: "resolve en s (Suc k) (D i) \<noteq> None"
  proof (cases "i \<in> target s0 ` set ps")
    case False
    then have "D i = i" using l(1) by (simp add: links_def)
    then show ?thesis using plain [OF IH(2)] by simp
  next
    case True
    then obtain p where p: "p \<in> set ps" "target s0 p = i" by blast
    obtain t where t: "dispatch_built (length (stmts s0)) s (D i) (mutationIdentifier p) t i"
        "replacement_built D (length (stmts s0)) s (replacement s0 p) t"
      using links_dispatch [OF l(1) p(1)] p(2) by blast
    have d: "dispatch_of s (D i) = Some (mutationIdentifier p, t, i)" "D i < length (stmts s)"
      using dispatch_of_built [OF t(1)] dispatch_built_range [OF t(1)] by simp_all
    have "resolve en s k r \<noteq> None" if "t = Some r" for r
    proof (cases "replacement s0 p")
      case (NewNode kd ty v cs)
      then obtain cs' where r: "built s r kd cs'" "list_all2 (\<lambda>y c. c = y \<or> c = D y) cs cs'"
        using t(2) \<open>t = Some r\<close> by auto
      note kd = replacement_new_node [OF l(2) f [OF p(1)] NewNode]
      have "those (map (resolve en s m) cs') \<noteq> None"
      proof (rule those_Some)
        fix c assume "c \<in> set cs'"
        then obtain j where "j < length cs'" "c = cs' ! j" by (auto simp: in_set_conv_nth)
        then have "cs ! j \<in> set cs" "c = cs ! j \<or> c = D (cs ! j)" using r(2) by (auto simp: list_all2_conv_all_nth)
        then show "resolve en s m c \<noteq> None" using kd(3) p(2) IH by blast
      qed
      moreover have "dispatch_of s r = None" "parts s r = cs'"
        using kd r(1) by (auto simp: dispatch_of_def parts_def built_def split: stmt_kind.splits)
      ultimately show ?thesis using r(1) by (simp add: m built_def)
    next
      case (SubExpression y)
      then have "y < i" using replacement_sub_expression [OF l(2) f [OF p(1)] SubExpression] p(2) by simp
      then show ?thesis using SubExpression t(2) \<open>t = Some r\<close> IH by auto
    next
      case NoStatement
      then show ?thesis using t(2) \<open>t = Some r\<close> by simp
    qed
    then show ?thesis using here d by (auto split: option.split)
  qed
  show ?case using here there by blast
qed

end
