(* ===== verification/FrontendProperties.thy ===== *)
theory FrontendProperties
  imports DispatchRefinement
begin

text \<open>
  The properties of the plugin \<open>tools/mull-cxx-frontend\<close>: what its visitor finds, and what the
  tree it leaves means.
\<close>

section \<open>What the visitor finds\<close>

text \<open>The unary operators the visitor knows; no replacement opcode stands for the removal.\<close>

definition unary_table :: "(unary_opcode \<times> mutator_kind \<times> unary_opcode option) list" where
  "unary_table = [
     (UO_PostDec, Kind_CXX_PostDecToPostInc, Some UO_PostInc),
     (UO_PostInc, Kind_CXX_PostIncToPostDec, Some UO_PostDec),
     (UO_PreInc, Kind_CXX_PreIncToPreDec, Some UO_PreDec),
     (UO_PreDec, Kind_CXX_PreDecToPreInc, Some UO_PreInc),
     (UO_LNot, Kind_CXX_RemoveNegation, None),
     (UO_Minus, Kind_CXX_UnaryMinusToNoop, None),
     (UO_Not, Kind_CXX_BitwiseNotToNoop, None)]"

text \<open>A mutation on offer: its mutator, its statement, its place, and whether the place is an expression.\<close>

type_synonym offer = "mutator_kind \<times> ast_mutation \<times> nat \<times> clang_location \<times> bool"

definition unary_offers :: "frontend_state \<Rightarrow> nat \<Rightarrow> unary_opcode \<Rightarrow> offer list" where
  "unary_offers s i op =
     [(kind, case r of Some op' \<Rightarrow> UnaryOperatorOpcodeMutation i op' | None \<Rightarrow> UnaryOperatorRemovalMutation i,
       i, stmt_operatorLoc (stmt s i), False).
      (from_op, kind, r) \<leftarrow> unary_table, from_op = op]"

definition binary_offers :: "frontend_state \<Rightarrow> nat \<Rightarrow> binary_opcode \<Rightarrow> offer list" where
  "binary_offers s i op =
     (if op = BO_Assign
      then (if numeric_type (stmt_type (stmt s (rhs_of s i)))
            then [(Kind_CXX_AssignConst, ReplaceNumericAssignmentMutation i, i, stmt_operatorLoc (stmt s i), True)]
            else [])
      else [(kind, BinaryMutation to_op, i, stmt_operatorLoc (stmt s i), False).
            (from_op, kind, to_op) \<leftarrow> BinaryMutations, from_op = op])"

definition call_offers :: "frontend_state \<Rightarrow> nat \<Rightarrow> offer list" where
  "call_offers s i =
     (if stmt_type (stmt s i) = VoidTy
      then [(Kind_CXX_RemoveVoidCall, RemoveVoidMutation, i, stmt_begin (stmt s i), True)]
      else if stmt_type (stmt s i) = IntTy
      then [(Kind_CXX_ReplaceScalarCall, ReplaceScalarCallMutation i, i, stmt_begin (stmt s i), True)]
      else [])"

text \<open>A variable that is no parameter, of type \<open>int\<close>, \<open>float\<close> or \<open>double\<close>.\<close>

definition numeric_variable :: "frontend_state \<Rightarrow> nat \<Rightarrow> bool" where
  "numeric_variable s v \<longleftrightarrow>
     (case variable s v of None \<Rightarrow> False | Some d \<Rightarrow> \<not> vd_is_param d \<and> numeric_type (vd_type d))"

fun offers_at :: "frontend_state \<Rightarrow> visited \<Rightarrow> offer list" where
  "offers_at s (VisitedStmt i) =
     (case stmt_kind (stmt s i) of
        UnaryNode op \<Rightarrow> unary_offers s i op
      | BinaryNode op \<Rightarrow> binary_offers s i op
      | CompoundAssignNode op _ _ \<Rightarrow> binary_offers s i op
      | CallNode \<Rightarrow> call_offers s i
      | _ \<Rightarrow> [])"
| "offers_at s (VisitedVar v) =
     (case variable_init s v of
        None \<Rightarrow> []
      | Some i \<Rightarrow> if numeric_variable s v
                  then [(Kind_CXX_InitConst, ReplaceNumericInitAssignmentMutation v, i, stmt_exprLoc (stmt s i), True)]
                  else [])"

text \<open>The point of an offer, unless its place is a system's, has no file, or is gtest's.\<close>

definition offer_points :: "frontend_source_manager \<Rightarrow> mutation_map \<Rightarrow> frontend_state \<Rightarrow> offer \<Rightarrow> ast_mutation_point list" where
  "offer_points sm mm s x =
     (case x of (kind, mutation, i, loc, whole) \<Rightarrow>
        let (b, e) = getBeginEndMutationLocation sm (stmt s i) loc whole; path = source_getFilename sm b
        in if inSystemHeader sm loc \<or> isInSystemMacro sm loc \<or> path = [] \<or> found_in ''include/gtest'' path then []
           else [ASTMutationPoint mutation kind (getIdentifier mm kind) i path
                   (getExpansionLineNumber sm b) (getExpansionColumnNumber sm b)
                   (getExpansionLineNumber sm e) (getExpansionColumnNumber sm e)])"

definition uninitialised :: "mutation_map \<Rightarrow> frontend_state \<Rightarrow> visited \<Rightarrow> bool" where
  "uninitialised mm s x \<longleftrightarrow>
     (case x of
        VisitedStmt i \<Rightarrow> False
      | VisitedVar v \<Rightarrow> isValidMutation mm Kind_CXX_InitConst \<and> numeric_variable s v \<and> variable_init s v = None)"

lemma recordMutationPoint_points:
  "astMutations (recordMutationPoint sm mm s kind mutation i loc whole st) =
   astMutations st @ offer_points sm mm s (kind, mutation, i, loc, whole)"
  by (simp add: recordMutationPoint_def offer_points_def Let_def split: prod.split)

text \<open>The points of the offers whose mutator is in use.\<close>

definition valid_points :: "frontend_source_manager \<Rightarrow> mutation_map \<Rightarrow> frontend_state \<Rightarrow> offer list \<Rightarrow> ast_mutation_point list" where
  "valid_points sm mm s xs = concat (map (offer_points sm mm s) (filter (\<lambda>(kind, _). isValidMutation mm kind) xs))"

lemma valid_points_simps [simp]:
  "valid_points sm mm s [] = []"
  "valid_points sm mm s ((kind, r) # xs) =
     (if isValidMutation mm kind then offer_points sm mm s (kind, r) else []) @ valid_points sm mm s xs"
  "valid_points sm mm s (xs @ ys) = valid_points sm mm s xs @ valid_points sm mm s ys"
  by (simp_all add: valid_points_def)

lemma VisitUnaryOperator_search_points:
  "astMutations (VisitUnaryOperator_search sm mm s i op st) =
   astMutations st @ valid_points sm mm s (unary_offers s i op)"
  by (cases op)
     (simp_all add: VisitUnaryOperator_search_def unary_offers_def unary_table_def recordMutationPoint_points Let_def)

lemma binary_mutations_loop_points:
  "astMutations (binary_mutations_loop sm mm s i op table st) =
   astMutations st @ valid_points sm mm s
     [(kind, BinaryMutation to_op, i, stmt_operatorLoc (stmt s i), False). (from_op, kind, to_op) \<leftarrow> table, from_op = op]"
  by (induction table arbitrary: st) (auto simp: recordMutationPoint_points)

lemma VisitBinaryOperator_search_points:
  "astMutations (VisitBinaryOperator_search sm mm s i op st) =
   astMutations st @ valid_points sm mm s (binary_offers s i op)"
proof (cases "op = BO_Assign")
  case True
  have none: "concat (map (\<lambda>(from_op, kind, to_op). if from_op = BO_Assign
      then [(kind, BinaryMutation to_op, i, stmt_operatorLoc (stmt s i), False)] else []) BinaryMutations) = []"
    by (simp add: BinaryMutations_def)
  have "astMutations (binary_mutations_loop sm mm s i BO_Assign BinaryMutations st) = astMutations st"
    unfolding binary_mutations_loop_points none by simp
  then show ?thesis
    using True by (simp add: VisitBinaryOperator_search_def binary_offers_def recordMutationPoint_points)
next
  case False
  then show ?thesis
    by (simp add: VisitBinaryOperator_search_def binary_offers_def binary_mutations_loop_points)
qed

lemma VisitCallExpr_search_points:
  "astMutations (VisitCallExpr_search sm mm s i st) = astMutations st @ valid_points sm mm s (call_offers s i)"
  by (auto simp: VisitCallExpr_search_def call_offers_def recordMutationPoint_points Let_def)

lemma visit_points:
  "bind_result (visit sm mm s x st) (\<lambda>st. Inr (astMutations st)) =
   (if uninitialised mm s x then Inl (NullPointer ''getInit'')
    else Inr (astMutations st @ valid_points sm mm s (offers_at s x)))"
proof (cases x)
  case (VisitedStmt i)
  then show ?thesis
    by (cases "stmt_kind (stmt s i)")
       (simp_all add: uninitialised_def VisitUnaryOperator_search_points VisitBinaryOperator_search_points
          VisitCallExpr_search_points)
next
  case (VisitedVar v)
  then show ?thesis
    by (auto simp: uninitialised_def numeric_variable_def variable_init_def VisitVarDecl_search_def
        recordMutationPoint_points split: option.splits)
qed

lemma visit_all_points:
  "bind_result (visit_all sm mm s vs st) (\<lambda>st. Inr (astMutations st)) =
   (if list_ex (uninitialised mm s) vs then Inl (NullPointer ''getInit'')
    else Inr (astMutations st @ valid_points sm mm s (concat (map (offers_at s) vs))))"
proof (induction vs arbitrary: st)
  case (Cons x vs)
  show ?case
  proof (cases "uninitialised mm s x")
    case True
    then have "visit sm mm s x st = Inl (NullPointer ''getInit'')"
      using visit_points [of sm mm s x st] by (cases "visit sm mm s x st") auto
    then show ?thesis using True by simp
  next
    case False
    then obtain st' where "visit sm mm s x st = Inr st'"
        "astMutations st' = astMutations st @ valid_points sm mm s (offers_at s x)"
      using visit_points [of sm mm s x st] by (cases "visit sm mm s x st") auto
    then show ?thesis using Cons.IH [of st'] False by simp
  qed
qed simp

section \<open>A function the plugin mutates\<close>

text \<open>The traversal stays in the tree, and an initialiser has the type of its variable.\<close>

definition visited_in_source :: "frontend_state \<Rightarrow> visited list \<Rightarrow> bool" where
  "visited_in_source s vs \<longleftrightarrow>
     (\<forall>i. VisitedStmt i \<in> set vs \<longrightarrow> i < length (stmts s)) \<and>
     (\<forall>v d i. VisitedVar v \<in> set vs \<longrightarrow> variable s v = Some d \<longrightarrow> vd_init d = Some i \<longrightarrow>
        i < length (stmts s) \<and> stmt_type (stmt s i) = vd_type d)"

definition function_points :: "clang_frontend \<Rightarrow> mutation_map \<Rightarrow> frontend_state \<Rightarrow> visited list \<Rightarrow> ast_mutation_point list" where
  "function_points fe mm s vs = valid_points (fe_source fe) mm s (concat (map (offers_at s) vs))"

text \<open>
  A function of a source tree that is to be mutated: Clang traverses \<open>vs\<close> of it, no node of it has two
  mutations, and each mutated node hangs in the parent Clang gives.
\<close>

definition mutable_function ::
  "clang_frontend \<Rightarrow> mutation_map \<Rightarrow> frontend_state \<Rightarrow> nat \<Rightarrow> visited list \<Rightarrow> bool" where
  "mutable_function fe mm s f vs \<longleftrightarrow>
     source_tree s \<and> astMutator_set s \<and> mutated_function fe s f \<and>
     (\<forall>out. fe_traversal fe (s\<lparr>frontend_output := out\<rparr>) f = vs) \<and> visited_in_source s vs \<and>
     \<not> list_ex (uninitialised mm s) vs \<and>
     distinct (map (target s) (function_points fe mm s vs)) \<and>
     list_all (placed (fe_library fe) s) (function_points fe mm s vs) \<and>
     initialised_is_defined (fe_library fe)"

lemma offer_points_mutation:
  "p \<in> set (offer_points sm mm s (kind, mutation, i, loc, whole)) \<Longrightarrow>
   amp_mutation p = mutation \<and> amp_mutableStmt p = i \<and> amp_mutationType p = kind"
  by (auto simp: offer_points_def ASTMutationPoint_def Let_def split: prod.splits if_splits)

lemma valid_points_offer:
  "p \<in> set (valid_points sm mm s xs) \<Longrightarrow>
   \<exists>kind mutation i loc whole. (kind, mutation, i, loc, whole) \<in> set xs \<and>
     amp_mutation p = mutation \<and> amp_mutableStmt p = i \<and> amp_mutationType p = kind"
  by (fastforce simp: valid_points_def dest: offer_points_mutation)

lemma unary_offer_fits:
  assumes "source_tree s" "i < length (stmts s)" "stmt_kind (stmt s i) = UnaryNode op"
    "(kind, amp_mutation p, amp_mutableStmt p, loc, whole) \<in> set (unary_offers s i op)"
  shows "fits s p"
  using assms
  by (auto simp: unary_offers_def unary_table_def fits_def target_def split: if_splits)

lemma binary_offer_fits:
  assumes "source_tree s" "i < length (stmts s)"
    "stmt_kind (stmt s i) = BinaryNode op \<or> (\<exists>l r. stmt_kind (stmt s i) = CompoundAssignNode op l r)"
    "(kind, amp_mutation p, amp_mutableStmt p, loc, whole) \<in> set (binary_offers s i op)"
  shows "fits s p"
proof -
  have c: "length (stmt_children (stmt s i)) = 2"
    using source_children(1) [OF assms(1,2)] assms(3) by (auto simp: operands_def)
  then have r: "rhs_of s i < length (stmts s)"
    using source_children(2) [OF assms(1,2), of "rhs_of s i"] assms(2) by (simp add: rhs_of_def)
  show ?thesis
  proof (cases "op = BO_Assign")
    case True
    then show ?thesis using assms c r by (auto simp: binary_offers_def fits_def target_def split: if_splits)
  next
    case False
    then obtain op' where "amp_mutation p = BinaryMutation op'" "amp_mutableStmt p = i"
      using assms(4) by (auto simp: binary_offers_def split: if_splits)
    then show ?thesis using assms(2,3) by (auto simp: fits_def target_def)
  qed
qed

lemma call_offer_fits:
  assumes "i < length (stmts s)" "stmt_kind (stmt s i) = CallNode"
    "(kind, amp_mutation p, amp_mutableStmt p, loc, whole) \<in> set (call_offers s i)"
  shows "fits s p"
  using assms by (auto simp: call_offers_def fits_def target_def numeric_type_def split: if_splits)

lemma function_points_fit:
  assumes st: "source_tree s" and vs: "visited_in_source s vs" and p: "p \<in> set (function_points fe mm s vs)"
  shows "fits s p"
proof -
  obtain kind loc whole where "(kind, amp_mutation p, amp_mutableStmt p, loc, whole) \<in> set (concat (map (offers_at s) vs))"
    using valid_points_offer p unfolding function_points_def by blast
  then obtain x where x: "x \<in> set vs" "(kind, amp_mutation p, amp_mutableStmt p, loc, whole) \<in> set (offers_at s x)"
    by auto
  show ?thesis
  proof (cases x)
    case (VisitedStmt i)
    then have i: "i < length (stmts s)" using vs x(1) by (simp add: visited_in_source_def)
    show ?thesis
      using x(2) VisitedStmt unary_offer_fits [OF st i] binary_offer_fits [OF st i] call_offer_fits [OF i]
      by (auto split: stmt_kind.splits)
  next
    case (VisitedVar v)
    then obtain d where d: "variable s v = Some d" "vd_init d = Some (amp_mutableStmt p)" "\<not> vd_is_param d"
        "numeric_type (vd_type d)" "amp_mutation p = ReplaceNumericInitAssignmentMutation v"
      using x(2) by (auto simp: variable_init_def numeric_variable_def split: option.splits if_splits)
    have "amp_mutableStmt p < length (stmts s)" "stmt_type (stmt s (amp_mutableStmt p)) = vd_type d"
      using vs x(1) VisitedVar d(1,2) by (simp_all add: visited_in_source_def)
    then show ?thesis using d by (simp add: fits_def target_def variable_init_def)
  qed
qed

text \<open>Output changes nothing the search reads.\<close>

lemma stmt_output [simp]: "stmt (s\<lparr>frontend_output := out\<rparr>) i = stmt s i"
  by (simp add: stmt_def)

lemma variable_output [simp]:
  "variable (s\<lparr>frontend_output := out\<rparr>) v = variable s v"
  "variable_init (s\<lparr>frontend_output := out\<rparr>) v = variable_init s v"
  by (simp_all add: variable_def variable_init_def)

lemma numeric_variable_output [simp]: "numeric_variable (s\<lparr>frontend_output := out\<rparr>) v = numeric_variable s v"
  by (simp add: numeric_variable_def)

lemma offers_output [simp]:
  "unary_offers (s\<lparr>frontend_output := out\<rparr>) i uop = unary_offers s i uop"
  "binary_offers (s\<lparr>frontend_output := out\<rparr>) i bop = binary_offers s i bop"
  "call_offers (s\<lparr>frontend_output := out\<rparr>) i = call_offers s i"
  by (simp_all only: unary_offers_def binary_offers_def call_offers_def rhs_of_def stmt_output)

lemma offers_at_output [simp]: "offers_at (s\<lparr>frontend_output := out\<rparr>) = offers_at s"
proof
  fix x
  show "offers_at (s\<lparr>frontend_output := out\<rparr>) x = offers_at s x"
    by (cases x) (simp_all split: stmt_kind.split option.split)
qed

lemma valid_points_output [simp]: "valid_points sm mm (s\<lparr>frontend_output := out\<rparr>) xs = valid_points sm mm s xs"
  by (induction xs) (auto simp: offer_points_def)

lemma uninitialised_output [simp]: "uninitialised mm (s\<lparr>frontend_output := out\<rparr>) = uninitialised mm s"
  by (simp add: uninitialised_def fun_eq_iff numeric_variable_def split: visited.split)

text \<open>The consumer on one function: some output, then the mutations of its points.\<close>

lemma handle_function:
  assumes "mutable_function fe mm s f vs"
  shows "\<exists>out. HandleTopLevelDecl fe mm [f] s =
    perform_all (fe_library fe) (function_points fe mm s vs) (s\<lparr>frontend_output := out\<rparr>)"
proof -
  let ?o = "frontend_output s @ [''HandleTopLevelDecl: Looking at function: '' @ fd_name (the (function_decl s f))]"
  let ?s = "s\<lparr>frontend_output := ?o\<rparr>" and ?st = "\<lparr>astMutations = [], search_output = []\<rparr>"
  have m: "astMutator_set s" "mutated_function fe s f" "fe_traversal fe ?s f = vs" "\<not> list_ex (uninitialised mm s) vs"
    using assms by (simp_all add: mutable_function_def)
  have "bind_result (visit_all (fe_source fe) mm ?s vs ?st) (\<lambda>st. Inr (astMutations st)) =
      Inr (function_points fe mm s vs)"
    using m(4) by (simp add: visit_all_points function_points_def)
  then obtain st where st: "visit_all (fe_source fe) mm ?s vs ?st = Inr st" "astMutations st = function_points fe mm s vs"
    by (cases "visit_all (fe_source fe) mm ?s vs ?st") auto
  let ?s' = "s\<lparr>frontend_output := ?o @ search_output st\<rparr>"
  have h: "handle_declaration fe mm f s = perform_all (fe_library fe) (function_points fe mm s vs) ?s'"
    using m st by (simp add: handle_declaration_def search_function_def print_frontend_def st_bind_def st_return_def)
  have "HandleTopLevelDecl fe mm [f] s = st_bind (handle_declaration fe mm f) (\<lambda>_. st_return ()) s"
    using m(1) by (simp add: HandleTopLevelDecl_def ensure_mutator_def st_bind_def)
  then have "HandleTopLevelDecl fe mm [f] s = handle_declaration fe mm f s"
    by (cases "handle_declaration fe mm f s") (auto simp: st_bind_def st_return_def split: sum.split)
  with h have "HandleTopLevelDecl fe mm [f] s = perform_all (fe_library fe) (function_points fe mm s vs) ?s'"
    by simp
  then show ?thesis by (rule exI [of _ "?o @ search_output st"])
qed

lemma links_start: "links s [] (\<lambda>x. x) (s\<lparr>frontend_output := out\<rparr>)"
proof -
  have "redirect_declaration (\<lambda>x. x) d = d" for d by (cases d) (simp_all add: option.map_ident)
  then show ?thesis by (simp add: links_def)
qed

lemma handle_function_links:
  assumes "mutable_function fe mm s f vs"
  shows "\<exists>s' D. HandleTopLevelDecl fe mm [f] s = (s', Inr ()) \<and> links s (rev (function_points fe mm s vs)) D s' \<and>
    records (fe_library fe) s (function_points fe mm s vs) s'"
proof -
  let ?ps = "function_points fe mm s vs" and ?lib = "fe_library fe"
  obtain out where o: "HandleTopLevelDecl fe mm [f] s = perform_all ?lib ?ps (s\<lparr>frontend_output := out\<rparr>)"
    using handle_function [OF assms] by blast
  have "records ?lib s [] (s\<lparr>frontend_output := out\<rparr>)" by (simp add: records_def)
  then have "\<exists>s' D'. perform_all ?lib ?ps (s\<lparr>frontend_output := out\<rparr>) = (s', Inr ()) \<and>
      links s (rev ?ps @ []) D' s' \<and> records ?lib s ([] @ ?ps) s'"
    by (intro perform_all_links [OF links_start])
       (use assms function_points_fit in \<open>auto simp: mutable_function_def list_all_iff\<close>)
  then show ?thesis by (simp add: o)
qed

section \<open>Properties\<close>

text \<open>C29. The visitor records, in the order of the traversal, exactly the mutations on offer whose mutator
  is in use and whose place is the user's; it dereferences a null pointer exactly when \<open>cxx_init_const\<close>
  is in use and a visited numeric variable has no initialiser.\<close>

theorem search_finds_exactly:
  "bind_result (visit_all sm mm s vs \<lparr>astMutations = [], search_output = []\<rparr>) (\<lambda>st. Inr (astMutations st)) =
   (if list_ex (uninitialised mm s) vs then Inl (NullPointer ''getInit'')
    else Inr (valid_points sm mm s (concat (map (offers_at s) vs))))"
  by (simp add: visit_all_points)

text \<open>C3. The tree the plugin leaves of a function is the function's own, when no mutant is selected by the
  environment, and the function's with the one node replaced, when one is.\<close>

theorem plugin_dispatches:
  assumes "mutable_function fe mm s f vs"
  shows "\<exists>s'. HandleTopLevelDecl fe mm [f] s = (s', Inr ()) \<and>
    (\<forall>en q i. selects en (function_points fe mm s vs) q \<longrightarrow> i < length (stmts s) \<longrightarrow>
       (\<forall>p. q = Some p \<longrightarrow> target s p \<noteq> i) \<longrightarrow>
       resolved en s' i = program_tree s q i \<and> program_tree s q i \<noteq> None)"
proof -
  obtain s' D where s': "HandleTopLevelDecl fe mm [f] s = (s', Inr ())"
      "links s (rev (function_points fe mm s vs)) D s'"
    using handle_function_links [OF assms] by blast
  have st: "source_tree s" and inj: "inj_on (target s) (set (rev (function_points fe mm s vs)))"
      and fit: "\<And>p. p \<in> set (function_points fe mm s vs) \<Longrightarrow> fits s p"
    using assms function_points_fit by (auto simp: mutable_function_def distinct_map)
  have "resolved en s' i = program_tree s q i \<and> program_tree s q i \<noteq> None"
    if q: "selects en (function_points fe mm s vs) q" and i: "i < length (stmts s)" "\<forall>p. q = Some p \<longrightarrow> target s p \<noteq> i"
    for en q i
  proof -
    have "selects en (rev (function_points fe mm s vs)) q" using q by (simp add: selects_def)
    then have "resolved en s' i = program_tree s q i"
      using resolve_links [OF s'(2) st _ inj _ i(1), of en q "2 * length (stmts s')" "length (stmts s)"] fit i s'(2)
      by (simp add: resolved_def program_tree_def links_def)
    moreover have "program_tree s q i \<noteq> None"
      unfolding program_tree_def
      by (rule program_tree_at_Some [OF st _ i(1)]) (use fit q i(1) in \<open>auto simp: selects_def\<close>)
    ultimately show ?thesis by blast
  qed
  then show ?thesis using s'(1) by blast
qed

text \<open>C30. Mutating a function ends, and so does every run through the dispatches of the tree it leaves,
  whatever variables are set: two steps for every statement are enough.\<close>

theorem instrumented_tree_terminates:
  assumes "mutable_function fe mm s f vs"
  shows "\<exists>s'. HandleTopLevelDecl fe mm [f] s = (s', Inr ()) \<and>
    (\<forall>en. \<forall>i < length (stmts s). \<forall>k \<ge> 2 * length (stmts s). resolve en s' k i \<noteq> None)"
proof -
  obtain s' D where s': "HandleTopLevelDecl fe mm [f] s = (s', Inr ())"
      "links s (rev (function_points fe mm s vs)) D s'"
    using handle_function_links [OF assms] by blast
  have st: "source_tree s" "visited_in_source s vs" using assms by (simp_all add: mutable_function_def)
  have "resolve en s' k i \<noteq> None" if "i < length (stmts s)" "2 * length (stmts s) \<le> k" for en k i
  proof -
    have "2 * i + 1 \<le> k" using that by simp
    then show ?thesis
      using resolve_links_Some [OF s'(2) st(1) _ that(1), of k en] function_points_fit [OF st] by fastforce
  qed
  then show ?thesis using s'(1) by blast
qed

section \<open>A function\<close>

text \<open>\<open>int f(int a, int b) { return -(a + b); }\<close> with two mutators in use.\<close>

definition sample_stmt :: "stmt_kind \<Rightarrow> clang_type \<Rightarrow> value_kind \<Rightarrow> nat list \<Rightarrow> nat \<Rightarrow> clang_stmt" where
  "sample_stmt kd t v cs loc = (plain_stmt kd t v cs)\<lparr>stmt_operatorLoc := loc\<rparr>"

definition sample_source :: frontend_state where
  "sample_source =
     \<lparr>stmts = [
        sample_stmt (DeclRefNode 4) IntTy VK_LValue [] 0,
        sample_stmt (ImplicitCastNode (CK_Other ''LValueToRValue'')) IntTy VK_RValue [0] 0,
        sample_stmt (DeclRefNode 5) IntTy VK_LValue [] 0,
        sample_stmt (ImplicitCastNode (CK_Other ''LValueToRValue'')) IntTy VK_RValue [2] 0,
        sample_stmt (BinaryNode BO_Add) IntTy VK_RValue [1, 3] 13,
        sample_stmt (UnaryNode UO_Minus) IntTy VK_RValue [4] 10,
        sample_stmt ReturnNode NoTy VK_RValue [5] 0,
        sample_stmt CompoundNode NoTy VK_RValue [6] 0],
      declarations = [
        LinkageSpecC True [1],
        FunctionDeclaration \<lparr>fd_name = ''getenv'', fd_type = FunctionType (PointerType CharTy) [PointerType (ConstType CharTy)],
          fd_storage = SC_Extern, fd_inline = False, fd_prototype = True, fd_constexpr = False, fd_params = [2],
          fd_location = 0\<rparr>,
        OtherDeclaration,
        FunctionDeclaration \<lparr>fd_name = ''f'', fd_type = FunctionType IntTy [IntTy, IntTy], fd_storage = SC_None,
          fd_inline = False, fd_prototype = True, fd_constexpr = False, fd_params = [4, 5], fd_location = 5\<rparr>,
        VarDeclaration \<lparr>vd_name = ''a'', vd_type = IntTy, vd_storage = SC_None, vd_init = None, vd_is_param = True,
          vd_section = None\<rparr>,
        VarDeclaration \<lparr>vd_name = ''b'', vd_type = IntTy, vd_storage = SC_None, vd_init = None, vd_is_param = True,
          vd_section = None\<rparr>],
      unit_declarations = [0, 3], WeakTopLevelDecls = [], getenvFuncDecl = Some 1, astMutator_set = True,
      frontend_output = []\<rparr>"

definition plugin_manager :: frontend_source_manager where
  "plugin_manager =
     \<lparr>isBefore = (<), inSystemHeader = (\<lambda>_. False), isFileID = (\<lambda>_. True), getFileID = (\<lambda>_. 0),
      getFileOffset = of_nat, getExpansionLineNumber = (\<lambda>_. 1), getExpansionColumnNumber = int,
      isInSystemMacro = (\<lambda>_. False), isMacroID = (\<lambda>_. False), getSpellingLoc = (\<lambda>l. l),
      source_getFilename = (\<lambda>_. ''f.cpp''), locForEndOfToken = Suc\<rparr>"

definition sample_library :: clang_library where
  "sample_library =
     \<lparr>llvm_major = 12, on_apple = False,
      getParents = (\<lambda>s i. if i = 4 then [StmtParent 5] else if i = 5 then [StmtParent 6] else []),
      stringLiteralArrayType = (\<lambda>t n. ConstantArrayType (ConstType t) (unat (n + 1))),
      isDefinition = (\<lambda>v. vd_init v \<noteq> None \<or> vd_storage v = SC_None)\<rparr>"

definition sample_traversal :: "visited list" where
  "sample_traversal =
     [VisitedVar 4, VisitedVar 5, VisitedStmt 7, VisitedStmt 6, VisitedStmt 5, VisitedStmt 4, VisitedStmt 1,
      VisitedStmt 0, VisitedStmt 3, VisitedStmt 2]"

definition sample_frontend :: clang_frontend where
  "sample_frontend =
     \<lparr>fe_library = sample_library, fe_source = plugin_manager, fe_traversal = (\<lambda>_ _. sample_traversal)\<rparr>"

definition sample_map :: mutation_map where
  "sample_map =
     \<lparr>usedMutatorSet = {Kind_CXX_AddToSub, Kind_CXX_UnaryMinusToNoop},
      mapKindsToIdentifiers = [Kind_CXX_AddToSub \<mapsto> ''cxx_add_to_sub'', Kind_CXX_UnaryMinusToNoop \<mapsto> ''cxx_minus_to_noop''],
      mapIdentifiersToKinds = [''cxx_add_to_sub'' \<mapsto> Kind_CXX_AddToSub, ''cxx_minus_to_noop'' \<mapsto> Kind_CXX_UnaryMinusToNoop]\<rparr>"

definition sample_minus :: ast_mutation_point where
  "sample_minus =
     ASTMutationPoint (UnaryOperatorRemovalMutation 5) Kind_CXX_UnaryMinusToNoop ''cxx_minus_to_noop'' 5 ''f.cpp'' 1 10 1 11"

definition sample_add :: ast_mutation_point where
  "sample_add =
     ASTMutationPoint (BinaryMutation BO_Sub) Kind_CXX_AddToSub ''cxx_add_to_sub'' 4 ''f.cpp'' 1 13 1 14"

lemmas sample_defs = sample_frontend_def sample_library_def plugin_manager_def sample_map_def

lemma plugin_points: "function_points sample_frontend sample_map sample_source sample_traversal = [sample_minus, sample_add]"
  by (simp add: function_points_def sample_traversal_def sample_source_def sample_stmt_def plain_stmt_def stmt_def
      variable_def variable_init_def unary_offers_def unary_table_def binary_offers_def BinaryMutations_def
      offer_points_def getBeginEndMutationLocation_def isValidMutation_def getIdentifier_def sample_defs
      sample_minus_def sample_add_def eval_nat_numeral)

lemma variable_sample:
  "variable sample_source v = (if v = 4 \<or> v = 5 then var_of (declarations sample_source ! v) else None)"
proof -
  consider "v \<in> {0, 1, 2, 3, 4, 5}" | "6 \<le> v" by fastforce
  then show ?thesis by cases (auto simp: variable_def sample_source_def)
qed

lemma variable_init_sample [simp]: "variable_init sample_source v = None"
  by (simp add: variable_init_def variable_sample) (simp add: sample_source_def)

lemma all_less_8: "(\<forall>i < 8. P i) \<longleftrightarrow> P 0 \<and> P 1 \<and> P 2 \<and> P 3 \<and> P 4 \<and> P 5 \<and> P 6 \<and> P (7::nat)"
  by (simp add: eval_nat_numeral All_less_Suc) blast

lemma sample_mutable: "mutable_function sample_frontend sample_map sample_source 3 sample_traversal"
proof -
  have l: "length (stmts sample_source) = 8" by (simp add: sample_source_def)
  have st: "source_tree sample_source"
    unfolding source_tree_def l all_less_8
    by (simp add: parts_def operands_def stmt_def map_filter_simps)
       (simp add: sample_source_def sample_stmt_def plain_stmt_def function_decl_def)
  have t: "target sample_source sample_minus = 5" "target sample_source sample_add = 4"
    by (simp_all add: target_def sample_minus_def sample_add_def ASTMutationPoint_def)
  have h: "hangs_in sample_source 5 (StmtParent 6)" "hangs_in sample_source 4 (StmtParent 5)"
    unfolding hangs_in.simps l all_less_8
    by (simp_all add: stmt_def) (simp_all add: sample_source_def sample_stmt_def plain_stmt_def)
  have "placed sample_library sample_source sample_minus" "placed sample_library sample_source sample_add"
    unfolding placed_def known_parent_def t
    using h by (auto simp: sample_library_def sample_minus_def sample_add_def ASTMutationPoint_def intro!: exI)
  moreover have "visited_in_source sample_source sample_traversal"
    using variable_init_sample unfolding variable_init_def
    by (auto simp: visited_in_source_def sample_traversal_def l) (metis bind.bind_lunit option.distinct(1))+
  moreover have "\<not> list_ex (uninitialised sample_map sample_source) sample_traversal"
    by (simp add: sample_traversal_def uninitialised_def sample_map_def isValidMutation_def)
  moreover have "astMutator_set sample_source" "mutated_function sample_frontend sample_source 3"
    by (simp_all add: sample_source_def mutated_function_def function_decl_def sample_defs)
  moreover have "initialised_is_defined sample_library"
    by (simp add: initialised_is_defined_def sample_library_def)
  ultimately show ?thesis
    by (simp add: mutable_function_def st plugin_points t) (simp add: sample_frontend_def)
qed

lemma plugin_dispatches_witness:
  "\<exists>s'. HandleTopLevelDecl sample_frontend sample_map [3] sample_source = (s', Inr ()) \<and>
     resolved (\<lambda>t. t = ''cxx_add_to_sub:f.cpp:1:13'') s' 7 = program_tree sample_source (Some sample_add) 7 \<and>
     resolved (\<lambda>t. False) s' 7 = program_tree sample_source None 7"
proof -
  have t: "target sample_source sample_add \<noteq> 7"
    by (simp add: target_def sample_add_def ASTMutationPoint_def)
  have l: "7 < length (stmts sample_source)" by (simp add: sample_source_def)
  have i: "mutationIdentifier sample_minus = ''cxx_minus_to_noop:f.cpp:1:10''"
      "mutationIdentifier sample_add = ''cxx_add_to_sub:f.cpp:1:13''"
    by (simp_all add: sample_minus_def sample_add_def ASTMutationPoint_def string_of_int_def string_of_nat.simps
        digit_char_def)
  have ne: "sample_minus \<noteq> sample_add" by (simp add: sample_minus_def sample_add_def ASTMutationPoint_def)
  have e: "selects (\<lambda>t. t = ''cxx_add_to_sub:f.cpp:1:13'') [sample_minus, sample_add] (Some sample_add)"
      "selects (\<lambda>t. False) [sample_minus, sample_add] None"
    using i ne by (auto simp: selects_def)
  show ?thesis
    using plugin_dispatches [OF sample_mutable, unfolded plugin_points] e l t by fastforce
qed

lemma instrumented_tree_terminates_witness:
  "\<exists>s'. HandleTopLevelDecl sample_frontend sample_map [3] sample_source = (s', Inr ()) \<and>
     resolve (\<lambda>t. True) s' 16 7 \<noteq> None"
proof -
  have "7 < length (stmts sample_source)" "2 * length (stmts sample_source) \<le> 16" by (simp_all add: sample_source_def)
  then show ?thesis using instrumented_tree_terminates [OF sample_mutable] by blast
qed

lemma sample_trees:
  "program_tree sample_source (Some sample_add) 5 =
    Some (Tree (UnaryNode UO_Minus) IntTy VK_RValue
      [Tree (BinaryNode BO_Sub) IntTy VK_RValue
        [Tree (ImplicitCastNode (CK_Other ''LValueToRValue'')) IntTy VK_RValue
           [Tree (DeclRefNode 4) IntTy VK_LValue []],
         Tree (ImplicitCastNode (CK_Other ''LValueToRValue'')) IntTy VK_RValue
           [Tree (DeclRefNode 5) IntTy VK_LValue []]]])"
  by (simp add: program_tree_def sample_source_def sample_add_def ASTMutationPoint_def target_def replacement_def
      stmt_def sample_stmt_def plain_stmt_def parts_def eval_nat_numeral)

end
