(* ===== verification/FrontendRecords.thy ===== *)
theory FrontendRecords
  imports FrontendProperties
begin

text \<open>
  What is left of the plugin \<open>tools/mull-cxx-frontend\<close>: the mutants section mull-runner reads, a node
  mutated twice, the plugin's arguments and its table of mutators.
\<close>

section \<open>The mutants section\<close>

text \<open>
  Clang emits a string literal at the size of its type: a parameter, with the law the language gives an
  array of \<open>n\<close> characters initialised by a string.
\<close>

definition emits_at_size :: "(clang_type \<Rightarrow> string \<Rightarrow> string) \<Rightarrow> bool" where
  "emits_at_size bytes \<longleftrightarrow>
     (\<forall>t n v. bytes (ConstantArrayType t n) v = take n (v @ replicate (n - length v) CHR 0x00))"

definition variable_contents :: "(clang_type \<Rightarrow> string \<Rightarrow> string) \<Rightarrow> frontend_state \<Rightarrow> nat \<Rightarrow> string" where
  "variable_contents bytes s d =
     (case variable_init s d of
        None \<Rightarrow> []
      | Some l \<Rightarrow> (case stmt_kind (stmt s l) of StringNode t \<Rightarrow> bytes (stmt_type (stmt s l)) t | _ \<Rightarrow> []))"

text \<open>Where a variable goes: to the section its attribute names, which is the part after the comma where the
  name of a segment comes before it, as on macOS; without an attribute to the data section.\<close>

definition object_section_name :: "clang_library \<Rightarrow> string \<Rightarrow> string" where
  "object_section_name lib n =
     (if on_apple lib \<and> CHR '','' \<in> set n then tl (dropWhile (\<lambda>c. c \<noteq> CHR '','') n) else n)"

definition emitted_variable ::
  "clang_library \<Rightarrow> (clang_type \<Rightarrow> string \<Rightarrow> string) \<Rightarrow> frontend_state \<Rightarrow> nat \<Rightarrow> string \<times> string" where
  "emitted_variable lib bytes s d =
     (case Option.bind (variable s d) vd_section of
        None \<Rightarrow> ''.data''
      | Some n \<Rightarrow> object_section_name lib n, variable_contents bytes s d)"

text \<open>The sections of the object file: each holds the variables handed to code generation that belong to it, in
  their order.\<close>

definition emitted_sections ::
  "clang_library \<Rightarrow> (clang_type \<Rightarrow> string \<Rightarrow> string) \<Rightarrow> frontend_state \<Rightarrow> (string \<times> string) list" where
  "emitted_sections lib bytes s =
     (let vs = map (emitted_variable lib bytes s) (WeakTopLevelDecls s)
      in map (\<lambda>n. (n, concat (map snd (filter (\<lambda>v. fst v = n) vs)))) (remdups (map fst vs)))"

lemma one_section:
  assumes "list_all (\<lambda>v. fst v = n) vs" "vs \<noteq> []"
  shows "map (\<lambda>n. (n, concat (map snd (filter (\<lambda>v. fst v = n) vs)))) (remdups (map fst vs)) = [(n, concat (map snd vs))]"
proof -
  have f: "filter (\<lambda>v. fst v = n) vs = vs" using assms(1) by (induction vs) auto
  have "map fst vs = replicate (length vs) n" using assms(1) by (induction vs) auto
  moreover have "remdups (replicate (length vs) n) = [n]"
    using assms(2) by (induction vs) auto
  ultimately show ?thesis by (simp add: f)
qed

text \<open>A point whose record can be read back and fits the type of its literal.\<close>

definition readable :: "clang_library \<Rightarrow> string \<Rightarrow> ast_mutation_point \<Rightarrow> bool" where
  "readable lib identifier p \<longleftrightarrow>
     p = ASTMutationPoint (amp_mutation p) (amp_mutationType p) identifier (amp_mutableStmt p) (amp_sourceFilePath p)
           (amp_beginLine p) (amp_beginColumn p) (amp_endLine p) (amp_endColumn p) \<and>
     clean identifier \<and> clean (amp_sourceFilePath p) \<and>
     int_range (amp_beginLine p) \<and> int_range (amp_beginColumn p) \<and>
     int_range (amp_endLine p) \<and> int_range (amp_endColumn p) \<and>
     length (mutationBinaryRecord p) < (if 10 \<le> llvm_major lib then 255 else 2 ^ 32 - 1)"

definition recorded_mutant :: "string \<Rightarrow> ast_mutation_point \<Rightarrow> mutant" where
  "recorded_mutant identifier p =
     Mutant (mutationIdentifier p) identifier
       (location_at (amp_sourceFilePath p) (amp_beginLine p) (amp_beginColumn p))
       (location_at (amp_sourceFilePath p) (amp_endLine p) (amp_endColumn p)) True"

lemma readable_record:
  assumes "readable lib identifier p"
  shows "mutationBinaryRecord p = identifier @ '':'' @ amp_sourceFilePath p @ '':'' @ string_of_int (amp_beginLine p) @
      '':'' @ string_of_int (amp_beginColumn p) @ '':'' @ string_of_int (amp_endLine p) @
      '':'' @ string_of_int (amp_endColumn p) @ '':1''"
    "mutationIdentifier p = identifier @ '':'' @ amp_sourceFilePath p @ '':'' @ string_of_int (amp_beginLine p) @
      '':'' @ string_of_int (amp_beginColumn p)"
proof -
  obtain m k i f bl bc el ec where p: "p = ASTMutationPoint m k identifier i f bl bc el ec"
    using assms unfolding readable_def by blast
  show "mutationBinaryRecord p = identifier @ '':'' @ amp_sourceFilePath p @ '':'' @ string_of_int (amp_beginLine p) @
      '':'' @ string_of_int (amp_beginColumn p) @ '':'' @ string_of_int (amp_endLine p) @
      '':'' @ string_of_int (amp_endColumn p) @ '':1''"
    "mutationIdentifier p = identifier @ '':'' @ amp_sourceFilePath p @ '':'' @ string_of_int (amp_beginLine p) @
      '':'' @ string_of_int (amp_beginColumn p)"
    unfolding p by (simp_all add: ASTMutationPoint_def)
qed

lemma decode_readable:
  assumes r: "readable lib identifier p"
  shows "decode_mutant (mutationBinaryRecord p) = Inr (recorded_mutant identifier p)"
proof -
  have n: "stoi (string_of_int i) = Inr i" if "int_range i" for i
    using that stoi_string_of_int by (simp add: int_range_def)
  have one: "stoi ''1'' = Inr 1" by (simp add: stoi_def is_space_def is_digit_def digits_value_def digit_value_def)
  have "split_nonempty (mutationBinaryRecord p) CHR '':'' =
      [identifier, amp_sourceFilePath p, string_of_int (amp_beginLine p), string_of_int (amp_beginColumn p),
       string_of_int (amp_endLine p), string_of_int (amp_endColumn p), ''1'']"
    using r unfolding readable_record(1) [OF r]
    by (simp add: readable_def clean_def split_nonempty_step split_nonempty_last string_of_int_delims)
  then show ?thesis
    using r n one
    by (simp add: decode_mutant_def chunk_at_def readable_def recorded_mutant_def readable_record(2) [OF r] Let_def)
qed

lemma readable_no_zero: "readable lib identifier p \<Longrightarrow> CHR 0x00 \<notin> set (mutationBinaryRecord p)"
  by (subst readable_record(1), assumption) (auto simp: readable_def clean_def string_of_int_delims)

lemma readable_nonempty: "readable lib identifier p \<Longrightarrow> mutationBinaryRecord p \<noteq> []"
  by (subst readable_record(1), assumption) simp

text \<open>The record is emitted with its terminating zero, to the section of the mutants.\<close>

lemma record_section:
  assumes "record_at lib s0 s p d"
  shows "fst (emitted_variable lib bytes s d) = ''.mull_mutants''"
proof -
  have "Option.bind (variable s d) vd_section = Some (mullSection lib)"
    using assms by (auto simp: record_at_def variable_def mutant_variable_def createSectionAttr_def)
  then show ?thesis by (simp add: emitted_variable_def object_section_name_def mullSection_def)
qed

lemma record_contents:
  assumes "record_at lib s0 s p d" "readable lib identifier p" "emits_at_size bytes"
  shows "variable_contents bytes s d = mutationBinaryRecord p @ [CHR 0x00]"
proof -
  let ?r = "mutationBinaryRecord p"
  obtain l where l: "variable_init s d = Some l" "stmt_kind (stmt s l) = StringNode ?r"
      "stmt_type (stmt s l) = getConstantArrayType lib (ConstType CharTy) (of_nat (length ?r))"
    using assms(1)
    by (auto simp: record_at_def variable_init_def variable_def mutant_variable_def plain_stmt_def)
  have n: "length ?r < 2 ^ 32 - 1" "10 \<le> llvm_major lib \<Longrightarrow> length ?r < 255"
    using assms(2) by (auto simp: readable_def split: if_splits)
  have "getConstantArrayType lib (ConstType CharTy) (of_nat (length ?r)) = ConstantArrayType (ConstType CharTy) (length ?r + 1)"
    unfolding getConstantArrayType_room [OF n(1)] using n(2) by simp
  then show ?thesis using l assms(3) by (simp add: variable_contents_def emits_at_size_def)
qed

lemma extract_section_records:
  assumes "\<And>p. p \<in> set ps \<Longrightarrow> readable lib (identify p) p"
  shows "extract_section (concat (map (\<lambda>p. mutationBinaryRecord p @ [CHR 0x00]) ps)) =
    Inr (map (\<lambda>p. recorded_mutant (identify p) p) ps)"
proof -
  have "split_nonempty (concat (map (\<lambda>p. mutationBinaryRecord p @ [CHR 0x00]) ps)) CHR 0x00 = map mutationBinaryRecord ps"
    using assms
  proof (induction ps)
    case (Cons p ps)
    have r: "readable lib (identify p) p" using Cons.prems by simp
    show ?case
      using Cons split_nonempty_step [OF readable_no_zero [OF r] readable_nonempty [OF r]] by simp
  qed simp
  moreover have "map_result_list decode_mutant (map mutationBinaryRecord ps) = Inr (map (\<lambda>p. recorded_mutant (identify p) p) ps)"
  proof -
    have "\<forall>p \<in> set ps. decode_mutant (mutationBinaryRecord p) = Inr (recorded_mutant (identify p) p)"
      using assms decode_readable by blast
    then show ?thesis by (induction ps) auto
  qed
  ultimately show ?thesis by (simp add: extract_section_def)
qed

lemma section_mutants_append:
  "list_all (\<lambda>(n, _). n \<noteq> ''.mull_mutants'') ss \<Longrightarrow> section_mutants (ss @ rest) = section_mutants rest"
  by (induction ss) auto

lemma section_mutants_only:
  assumes "list_all (\<lambda>(n, _). n \<noteq> ''.mull_mutants'') (before @ after)"
  shows "section_mutants (before @ [(''.mull_mutants'', content)] @ after) = extract_section content"
    "section_mutants (before @ after) = Inr []"
proof -
  have ba: "list_all (\<lambda>(n, _). n \<noteq> ''.mull_mutants'') before" "list_all (\<lambda>(n, _). n \<noteq> ''.mull_mutants'') after"
    using assms by simp_all
  have "section_mutants after = Inr []" using section_mutants_append [OF ba(2), of "[]"] by simp
  then show "section_mutants (before @ [(''.mull_mutants'', content)] @ after) = extract_section content"
    "section_mutants (before @ after) = Inr []"
    using section_mutants_append [OF ba(1)] by (simp_all, cases "extract_section content") simp_all
qed

text \<open>C5. The plugin's variables end up in the mutants section of the object file, and what mull-runner reads
  from there are the mutants of the function, in order, all covered, whatever other sections there are. The
  names of mutators and files must be non-empty and hold neither a colon nor a zero, and from LLVM 10 on
  each record must be shorter than 255 characters, since longer ones are cut.\<close>

theorem frontend_records_roundtrip:
  assumes m: "mutable_function fe mm s f vs" "WeakTopLevelDecls s = []"
    and r: "\<forall>p \<in> set (function_points fe mm s vs). readable (fe_library fe) (getIdentifier mm (amp_mutationType p)) p"
    and e: "emits_at_size bytes" and o: "list_all (\<lambda>(n, _). n \<noteq> ''.mull_mutants'') (before @ after)"
  shows "\<exists>s'. HandleTopLevelDecl fe mm [f] s = (s', Inr ()) \<and>
    (\<forall>sections d. map read_section sections = before @ emitted_sections (fe_library fe) bytes s' @ after \<longrightarrow>
       extractMutants (ObjectFile sections) d =
         (d, Inr (map (\<lambda>p. recorded_mutant (getIdentifier mm (amp_mutationType p)) p) (function_points fe mm s vs))))"
proof -
  let ?ps = "function_points fe mm s vs" and ?lib = "fe_library fe"
  obtain s' where s': "HandleTopLevelDecl fe mm [f] s = (s', Inr ())" "records ?lib s ?ps s'"
    using handle_function_links [OF m(1)] by blast
  obtain ws where ws: "WeakTopLevelDecls s' = ws" "list_all2 (record_at ?lib s s') ?ps ws"
    using s'(2) m(2) by (auto simp: records_def)
  let ?vs = "map (emitted_variable ?lib bytes s') ws"
  have c: "concat (map snd ?vs) = concat (map (\<lambda>p. mutationBinaryRecord p @ [CHR 0x00]) ?ps)"
    using ws(2) r by (induction rule: list_all2_induct) (auto simp: emitted_variable_def record_contents [OF _ _ e])
  have n: "list_all (\<lambda>v. fst v = ''.mull_mutants'') ?vs"
    using ws(2) by (induction rule: list_all2_induct) (auto simp: record_section)
  have x: "extract_section (concat (map snd ?vs)) =
      Inr (map (\<lambda>p. recorded_mutant (getIdentifier mm (amp_mutationType p)) p) ?ps)"
    unfolding c by (rule extract_section_records [of ?ps ?lib "\<lambda>p. getIdentifier mm (amp_mutationType p)"]) (use r in blast)
  have "section_mutants (before @ emitted_sections ?lib bytes s' @ after) =
      Inr (map (\<lambda>p. recorded_mutant (getIdentifier mm (amp_mutationType p)) p) ?ps)"
  proof (cases "ws = []")
    case True
    then have "?ps = []" using ws(2) by simp
    then show ?thesis using section_mutants_only(2) [OF o] by (simp add: True emitted_sections_def ws(1))
  next
    case False
    then have v: "?vs \<noteq> []" by simp
    show ?thesis
      unfolding emitted_sections_def ws(1) Let_def one_section [OF n v] section_mutants_only(1) [OF o] by (rule x)
  qed
  then show ?thesis using s'(1) by (auto simp: extractMutants_def st_lift_def)
qed

text \<open>From LLVM 10 on, a record of 255 characters or more is cut and loses its terminating zero.\<close>

lemma long_record_cut:
  assumes "record_at lib s0 s p d" "emits_at_size bytes" "10 \<le> llvm_major lib"
    "255 \<le> length (mutationBinaryRecord p)" "length (mutationBinaryRecord p) < 2 ^ 32 - 1"
  shows "variable_contents bytes s d =
    take ((length (mutationBinaryRecord p) + 1) mod 256) (mutationBinaryRecord p)"
proof -
  let ?r = "mutationBinaryRecord p"
  obtain l where l: "variable_init s d = Some l" "stmt_kind (stmt s l) = StringNode ?r"
      "stmt_type (stmt s l) = getConstantArrayType lib (ConstType CharTy) (of_nat (length ?r))"
    using assms(1)
    by (auto simp: record_at_def variable_init_def variable_def mutant_variable_def plain_stmt_def)
  have "(length ?r + 1) mod 256 \<le> length ?r"
    using assms(4) mod_less_divisor [of 256 "length ?r + 1"] by linarith
  moreover have "stmt_type (stmt s l) = ConstantArrayType (ConstType CharTy) ((length ?r + 1) mod 256)"
    using l(3) getConstantArrayType_room [OF assms(5)] assms(3) by simp
  ultimately show ?thesis using l assms(2) by (simp add: variable_contents_def emits_at_size_def)
qed

lemma frontend_records_roundtrip_witness:
  "\<exists>s'. HandleTopLevelDecl sample_frontend sample_map [3] sample_source = (s', Inr ()) \<and>
    extractMutants (ObjectFile (map (\<lambda>(n, c). \<lparr>section_name = Inr n, section_contents_of = Inr c\<rparr>)
      ((''.text'', ''code'') # emitted_sections sample_library (\<lambda>t v. case t of
        ConstantArrayType u n \<Rightarrow> take n (v @ replicate (n - length v) CHR 0x00) | _ \<Rightarrow> []) s'))) new_diagnostics =
      (new_diagnostics,
       Inr [recorded_mutant ''cxx_minus_to_noop'' sample_minus, recorded_mutant ''cxx_add_to_sub'' sample_add])"
proof -
  let ?bytes = "\<lambda>t v. case t of ConstantArrayType u n \<Rightarrow> take n (v @ replicate (n - length v) CHR 0x00) | _ \<Rightarrow> []"
  have k: "amp_mutationType sample_minus = Kind_CXX_UnaryMinusToNoop" "amp_mutationType sample_add = Kind_CXX_AddToSub"
      "getIdentifier sample_map Kind_CXX_UnaryMinusToNoop = ''cxx_minus_to_noop''"
      "getIdentifier sample_map Kind_CXX_AddToSub = ''cxx_add_to_sub''"
    by (simp_all add: sample_minus_def sample_add_def ASTMutationPoint_def getIdentifier_def sample_map_def)
  have "readable sample_library ''cxx_minus_to_noop'' sample_minus" "readable sample_library ''cxx_add_to_sub'' sample_add"
    by (simp_all add: readable_def sample_minus_def sample_add_def ASTMutationPoint_def clean_def int_range_def
        string_of_int_def string_of_nat.simps digit_char_def)
  then have "\<forall>p \<in> set [sample_minus, sample_add]. readable (fe_library sample_frontend) (getIdentifier sample_map (amp_mutationType p)) p"
    by (simp add: k sample_frontend_def)
  moreover have "WeakTopLevelDecls sample_source = []" by (simp add: sample_source_def)
  moreover have "emits_at_size ?bytes" by (simp add: emits_at_size_def)
  moreover have "fe_library sample_frontend = sample_library" by (simp add: sample_frontend_def)
  ultimately obtain s' where s': "HandleTopLevelDecl sample_frontend sample_map [3] sample_source = (s', Inr ())"
    and x: "\<And>sections d. map read_section sections =
        [(''.text'', ''code'')] @ emitted_sections sample_library ?bytes s' @ [] \<Longrightarrow>
      extractMutants (ObjectFile sections) d = (d, Inr (map (\<lambda>p. recorded_mutant (getIdentifier sample_map
        (amp_mutationType p)) p) [sample_minus, sample_add]))"
    using frontend_records_roundtrip [OF sample_mutable, of ?bytes "[(''.text'', ''code'')]" "[]"]
    unfolding plugin_points by auto
  let ?obj = "\<lambda>ss. map (\<lambda>(n, c). \<lparr>section_name = Inr n, section_contents_of = Inr c\<rparr>) ss"
  have "map read_section (?obj ss) = ss" for ss
    by (induction ss) (auto simp: read_section_def getSectionName_def getSectionContent_def)
  then have "map read_section (?obj ((''.text'', ''code'') # emitted_sections sample_library ?bytes s')) =
      [(''.text'', ''code'')] @ emitted_sections sample_library ?bytes s' @ []"
    by (simp only: append_Cons append_Nil append_Nil2)
  then have "extractMutants (ObjectFile (?obj ((''.text'', ''code'') # emitted_sections sample_library ?bytes s')))
      new_diagnostics = (new_diagnostics, Inr (map (\<lambda>p. recorded_mutant (getIdentifier sample_map
        (amp_mutationType p)) p) [sample_minus, sample_add]))"
    by (rule x)
  then have "extractMutants (ObjectFile (?obj ((''.text'', ''code'') # emitted_sections sample_library ?bytes s')))
      new_diagnostics =
    (new_diagnostics, Inr [recorded_mutant ''cxx_minus_to_noop'' sample_minus, recorded_mutant ''cxx_add_to_sub'' sample_add])"
    by (simp only: k list.map)
  with s' show ?thesis by blast
qed

section \<open>A node mutated twice\<close>

lemma find_child_missing: "(\<And>c. c \<in> set cs \<Longrightarrow> D c \<noteq> x) \<Longrightarrow> find_child x (map D cs) = None"
  by (induction cs) auto

lemma links_gone:
  assumes "links s0 ps D s" "x \<in> target s0 ` set ps" "x < length (stmts s0)"
  shows "D c \<noteq> x"
proof (cases "c \<in> target s0 ` set ps")
  case True
  then obtain p where p: "p \<in> set ps" "c = target s0 p" by blast
  obtain t where "dispatch_built (length (stmts s0)) s (D c) (mutationIdentifier p) t c"
    using links_dispatch [OF assms(1) p(1)] p(2) by blast
  then show ?thesis using dispatch_built_range assms(3) by fastforce
next
  case False
  then show ?thesis using assms by (auto simp: links_def)
qed

lemma perform_all_append: "perform_all lib (ps @ qs) = st_bind (perform_all lib ps) (\<lambda>_. perform_all lib qs)"
  by (induction ps) (simp_all add: st_bind_assoc)

text \<open>The node a parent has lost to a dispatch is not found again.\<close>

lemma replaceExpression_gone:
  assumes l: "links s0 ps D s" "source_tree s0" and x: "x \<in> target s0 ` set ps" "x < length (stmts s0)"
    and q: "hangs_in s0 x (StmtParent q)" "\<And>s'. \<exists>qs. getParents lib s' x = StmtParent q # qs"
    and r: "r < length (stmts s)"
  shows "\<exists>s'. replaceExpression lib x r t s = (s', Inl (AssertFailed ''parentChildrenIterator''))"
proof -
  obtain g fd where g: "getenvFuncDecl s = Some g" "function_decl s g = Some fd"
    using l function_decl_links [OF l(1)] by (auto simp: source_tree_def links_def)
  let ?s = "s\<lparr>stmts := stmts s @ mutated_expression lib g (fd_type fd) t x r (stmts s)\<rparr>"
  have "links s0 ps D ?s" using l(1) by (rule links_append [where ds = "[]"]) auto
  then have "stmt_children (stmt ?s q) = map D (stmt_children (stmt s0 q))"
    using stmt_links q(1) by auto
  then have "find_child x (stmt_children (stmt ?s q)) = None"
    using find_child_missing [of "stmt_children (stmt s0 q)" D x] links_gone [OF l(1) x] by simp
  moreover obtain qs where "getParents lib ?s x = StmtParent q # qs" using q(2) by blast
  ultimately show ?thesis
    by (simp add: replaceExpression_def st_bind_def createMutatedExpression_eq [OF g r] replace_child_def)
qed

text \<open>C31. When a second operator is put in the place of an operator that has been mutated and whose parent is
  a statement, the parent no longer has the operator among its children: the assertion after \<open>std::find\<close>
  fails and the compilation of the translation unit ends. The table has two mutators for each of \<open><\<close>, \<open><=\<close>,
  \<open>>\<close> and \<open>>=\<close>, and the default is all mutators. For an operator that initialises a variable, which is its
  parent then, no assertion is made (\<open>initialiser_replaced_outright\<close>).\<close>

theorem second_mutation_of_operator_aborts:
  assumes st: "source_tree s" and i: "initialised_is_defined lib"
    and ps: "\<forall>p \<in> set (ps @ p # qs). fits s p \<and> placed lib s p" "distinct (map (target s) (ps @ p # qs))"
    and p': "amp_mutation p' = BinaryMutation op" "target s p' = target s p" "fits s p'"
    and q: "known_parent lib s (target s p) (StmtParent q)"
  shows "\<exists>s'. perform_all lib (ps @ p # qs @ p' # rs) s = (s', Inl (AssertFailed ''parentChildrenIterator''))"
proof -
  let ?x = "target s p"
  have "links s [] (\<lambda>x. x) s" using links_start [of s "frontend_output s"] by simp
  moreover have "records lib s [] s" by (simp add: records_def)
  ultimately obtain s1 D where s1: "perform_all lib (ps @ p # qs) s = (s1, Inr ())"
      "links s (rev (ps @ p # qs) @ []) D s1"
    using perform_all_links [of s "[]" "\<lambda>x. x" s lib "ps @ p # qs" "[]"] st i ps by auto
  have x: "?x \<in> target s ` set (rev (ps @ p # qs) @ [])" "?x < length (stmts s)"
    using p'(2,3) by (auto simp: fits_def)
  have h: "hangs_in s ?x (StmtParent q)" "\<And>s'. \<exists>qs. getParents lib s' ?x = StmtParent q # qs"
    using q by (auto simp: known_parent_def)
  have m: "amp_mutableStmt p' = ?x" using p'(1,2) by (simp add: target_def)
  have k: "stmt_kind (stmt s1 ?x) = stmt_kind (stmt s ?x)" using stmt_links [OF s1(2) x(2)] by simp
  have fail: "\<exists>s'. st_bind (new_stmt nd) (\<lambda>r. st_bind (replaceExpression lib ?x r (mutationIdentifier p'))
      (\<lambda>_. add_record lib p')) s1 = (s', Inl (AssertFailed ''parentChildrenIterator''))" for nd
  proof -
    let ?s = "s1\<lparr>stmts := stmts s1 @ [nd]\<rparr>"
    have "links s (rev (ps @ p # qs) @ []) D ?s" using s1(2) by (rule links_append [where ds = "[]"]) auto
    from replaceExpression_gone [OF this st x h, of "length (stmts s1)" "mutationIdentifier p'"]
    show ?thesis by (auto simp: st_bind_def new_stmt_def)
  qed
  have "\<exists>s'. performMutation lib p' s1 = (s', Inl (AssertFailed ''parentChildrenIterator''))"
    using p' fail
    by (auto simp: performMutation_def performBinaryMutation_def m k fits_def Let_def factory_defs
        simp del: st_bind_new_stmt)
  then obtain s2 where "performMutation lib p' s1 = (s2, Inl (AssertFailed ''parentChildrenIterator''))" by blast
  then have "perform_all lib ((ps @ p # qs) @ p' # rs) s = (s2, Inl (AssertFailed ''parentChildrenIterator''))"
    unfolding perform_all_append [of lib "ps @ p # qs"] using s1(1) by (simp add: st_bind_def)
  then show ?thesis by auto
qed

text \<open>A comparison is offered two mutations.\<close>

lemma comparison_offers:
  "binary_offers s i BO_GT =
     [(Kind_CXX_GreaterThanToLessOrEqual, BinaryMutation BO_LE, i, stmt_operatorLoc (stmt s i), False),
      (Kind_CXX_GreaterThanToGreaterOrEqual, BinaryMutation BO_GE, i, stmt_operatorLoc (stmt s i), False)]"
  by (simp add: binary_offers_def BinaryMutations_def)

lemma second_mutation_of_operator_aborts_witness:
  "\<exists>s'. perform_all sample_library [sample_add, sample_add] sample_source =
     (s', Inl (AssertFailed ''parentChildrenIterator''))"
proof -
  have m: "source_tree sample_source" "initialised_is_defined sample_library" "fits sample_source sample_add"
      "placed sample_library sample_source sample_add"
    using sample_mutable function_points_fit [of sample_source sample_traversal sample_add sample_frontend sample_map]
    by (simp_all add: mutable_function_def plugin_points) (simp_all add: sample_frontend_def)
  have "target sample_source sample_add = 4" by (simp add: target_def sample_add_def ASTMutationPoint_def)
  moreover have "\<exists>q. known_parent sample_library sample_source 4 (StmtParent q)"
    using m(4) calculation by (auto simp: placed_def known_parent_def sample_library_def)
  ultimately show ?thesis
    using second_mutation_of_operator_aborts [OF m(1,2), of "[]" sample_add "[]" sample_add BO_Sub _ "[]"] m(3,4)
    by (auto simp: sample_add_def ASTMutationPoint_def)
qed

text \<open>An initialiser mutated twice loses the first dispatch without a sign of it.\<close>

lemma initialiser_replaced_outright:
  assumes "getenvFuncDecl s = Some g" "function_decl s g = Some fd" "r < length (stmts s)"
    "variable s v = Some d" "\<And>s'. getParents lib s' x = [VarParent v]"
  shows "\<exists>s'. replaceExpression lib x r t s = (s', Inr ()) \<and>
    variable s' v = Some (d\<lparr>vd_init := Some (length (stmts s) + 6)\<rparr>) \<and>
    dispatch_of s' (length (stmts s) + 6) = Some (t, Some r, x)"
proof -
  let ?s = "s\<lparr>stmts := stmts s @ mutated_expression lib g (fd_type fd) t x r (stmts s)\<rparr>"
  let ?s' = "setInit v (length (stmts s) + 6) ?s"
  have v: "v < length (declarations s)" "variable ?s v = Some d"
    using variable_in_range [OF assms(4)] assms(4) by (simp_all add: variable_def)
  have "dispatch_built 0 ?s' (length (stmts s) + 6) t (Some r) x"
    by (rule dispatch_built_expression [OF assms(1)]) (use v assms(1) in \<open>simp_all add: setInit_def set_declaration_def\<close>)
  then have "dispatch_of ?s' (length (stmts s) + 6) = Some (t, Some r, x)" by (rule dispatch_of_built)
  moreover have "variable ?s' v = Some (d\<lparr>vd_init := Some (length (stmts s) + 6)\<rparr>)"
    using v by (simp add: setInit_def set_declaration_def variable_def)
  ultimately show ?thesis
    by (simp add: replaceExpression_def st_bind_def createMutatedExpression_eq [OF assms(1-3)] assms(5))
qed

text \<open>The initialiser of a numeric variable may have another type than the variable, a typedef of it.\<close>

lemma typedef_initialiser_aborts:
  assumes "amp_mutation p = ReplaceNumericInitAssignmentMutation v" "variable s v = Some d" "\<not> vd_is_param d"
    "vd_init d = Some i" "\<not> numeric_type (stmt_type (stmt s i))"
  shows "performMutation lib p s = (s, Inl (AssertFailed ''Not implemented''))"
  using assms
  by (simp add: performMutation_def performReplaceNumericInitAssignmentMutation_def replacement_literal_def
      numeric_type_def st_bind_def st_lift_def)

end
