(* ===== verification/FrontendArguments.thy ===== *)
theory FrontendArguments
  imports FrontendPlugin
begin

text \<open>
  What the arguments of the plugin \<open>tools/mull-cxx-frontend\<close> select, and how its table of mutators
  relates to the mutators of the other tools.
\<close>

section \<open>The table\<close>

definition table_map :: "mutator_kind set \<Rightarrow> mutation_map" where
  "table_map used =
     \<lparr>usedMutatorSet = used, mapKindsToIdentifiers = map_of (map (\<lambda>(i, k). (k, i)) MUTATIONS_MAP),
      mapIdentifiersToKinds = map_of MUTATIONS_MAP\<rparr>"

lemma foldl_table:
  "foldl (\<lambda>m (i, k). m\<lparr>mapKindsToIdentifiers := (mapKindsToIdentifiers m)(k \<mapsto> i),
      mapIdentifiersToKinds := (mapIdentifiersToKinds m)(i \<mapsto> k)\<rparr>) m t =
   m\<lparr>mapKindsToIdentifiers := mapKindsToIdentifiers m ++ map_of (rev (map (\<lambda>(i, k). (k, i)) t)),
     mapIdentifiersToKinds := mapIdentifiersToKinds m ++ map_of (rev t)\<rparr>"
  by (induction t arbitrary: m) auto

lemma table_distinct: "distinct (map fst MUTATIONS_MAP)" "distinct (map snd MUTATIONS_MAP)"
  by (simp_all add: MUTATIONS_MAP_def)

lemma MutationMap_eq: "MutationMap = Inr (table_map {})"
proof -
  have s: "map fst (map (\<lambda>(i, k). (k, i)) MUTATIONS_MAP) = map snd MUTATIONS_MAP" by auto
  have "map_of (rev (map (\<lambda>(i, k). (k, i)) MUTATIONS_MAP)) = map_of (map (\<lambda>(i, k). (k, i)) MUTATIONS_MAP)"
    by (rule map_of_rev_distinct) (simp only: s table_distinct(2))
  moreover have "map_of (rev MUTATIONS_MAP) = map_of MUTATIONS_MAP"
    by (rule map_of_rev_distinct) (rule table_distinct)
  moreover have "map_of (map (\<lambda>(i, k). (k, i)) MUTATIONS_MAP) Kind_CXX_AddToSub \<noteq> None"
    by (simp add: MUTATIONS_MAP_def)
  ultimately show ?thesis
    unfolding MutationMap_def foldl_table by (simp add: table_map_def Let_def)
qed

lemma default_kinds:
  "foldl (\<lambda>m (i, k). m\<lparr>usedMutatorSet := insert k (usedMutatorSet m)\<rparr>) m t =
   m\<lparr>usedMutatorSet := usedMutatorSet m \<union> set (map snd t)\<rparr>"
  by (induction t arbitrary: m) auto

section \<open>The arguments\<close>

text \<open>The mutator an argument of the form \<open>name=identifier\<close> stands for, whatever the name.\<close>

definition argument_name :: "string \<Rightarrow> string" where
  "argument_name arg = takeWhile (\<lambda>c. c \<noteq> CHR ''='') arg"

definition argument_kind :: "string \<Rightarrow> mutator_kind option" where
  "argument_kind arg =
     (if count_list arg CHR ''='' = 1 then map_of MUTATIONS_MAP (drop (length (argument_name arg) + 1) arg) else None)"

definition argument_diagnostics :: "string \<Rightarrow> string list" where
  "argument_diagnostics arg =
     (if argument_name arg = ''mutators'' then [] else [''Only 'mutator=' argument is supported.''])"

text \<open>The code's own split agrees.\<close>

lemma split_equals_nth: "split_equals acc arg ! 0 = acc @ argument_name arg"
  by (induction acc arg rule: split_equals.induct) (auto simp: argument_name_def)

lemma length_split_equals: "length (split_equals acc arg) = Suc (count_list arg CHR ''='')"
  by (induction acc arg rule: split_equals.induct) auto

lemma split_equals_second:
  "count_list arg CHR ''='' = 1 \<Longrightarrow> split_equals acc arg ! 1 = drop (length (argument_name arg) + 1) arg"
proof (induction acc arg rule: split_equals.induct)
  case (2 acc c s)
  have n: "takeWhile (\<lambda>c. c \<noteq> CHR ''='') s = s" if "count_list s CHR ''='' = 0"
    using that by (auto simp: count_list_0_iff takeWhile_eq_all_conv)
  show ?case
  proof (cases "c = CHR ''=''")
    case True
    then have "count_list s CHR ''='' = 0" using 2(3) by simp
    then show ?thesis using True split_equals_nth [of "[]" s] n by (simp add: argument_name_def)
  next
    case False
    then show ?thesis using 2 by (simp add: argument_name_def)
  qed
qed simp

lemma parse_arg_cases:
  "case argument_kind arg of
     Some k \<Rightarrow> parse_arg arg (ds, table_map used) = Inr (ds @ argument_diagnostics arg, table_map (insert k used))
   | None \<Rightarrow> \<exists>msg. parse_arg arg (ds, table_map used) = Inl (AssertFailed msg)"
proof (cases "count_list arg CHR ''='' = 1")
  case True
  then have l: "length (split_equals [] arg) = 2" by (simp add: length_split_equals)
  note s = split_equals_nth [of "[]" arg, simplified] split_equals_second [OF True, of "[]"]
  show ?thesis
    unfolding parse_arg_def Let_def prod.case s l
    by (simp add: argument_kind_def argument_diagnostics_def True MutationMap_addMutation_def table_map_def
        split: option.split)
next
  case False
  then show ?thesis by (simp add: argument_kind_def parse_arg_def cxx_assert_def length_split_equals)
qed

lemma parse_plugin_args_cases:
  "case those (map argument_kind args) of
     Some ks \<Rightarrow> parse_plugin_args args (ds, table_map used) =
       Inr (ds @ concat (map argument_diagnostics args), table_map (set ks \<union> used))
   | None \<Rightarrow> \<exists>msg. parse_plugin_args args (ds, table_map used) = Inl (AssertFailed msg)"
proof (induction args arbitrary: ds used)
  case (Cons a args)
  note a = parse_arg_cases [of a ds used]
  show ?case
  proof (cases "argument_kind a")
    case None
    then show ?thesis using a by auto
  next
    case (Some k)
    then have "parse_arg a (ds, table_map used) = Inr (ds @ argument_diagnostics a, table_map (insert k used))"
      using a by simp
    then show ?thesis
      using Some Cons.IH [of "ds @ argument_diagnostics a" "insert k used"] by (auto split: option.splits)
  qed
qed simp

text \<open>C38. The plugin's arguments select exactly the mutators they name, each after its only equality sign, and
  all forty-three when there is no argument; what comes before the sign is reported when it is not
  \<open>mutators\<close>, but the mutator is taken all the same. An argument that has not exactly one equality sign, or
  names no mutator of the table, fails an assertion.\<close>

theorem ParseArgs_selects:
  "case those (map argument_kind args) of
     Some ks \<Rightarrow> bind_result MutationMap (ParseArgs args) =
       Inr (concat (map argument_diagnostics args),
            table_map (if args = [] then set (map snd MUTATIONS_MAP) else set ks))
   | None \<Rightarrow> \<exists>msg. bind_result MutationMap (ParseArgs args) = Inl (AssertFailed msg)"
proof (cases "those (map argument_kind args)")
  case None
  then show ?thesis
    using parse_plugin_args_cases [of args "[]" "{}"] by (auto simp: MutationMap_eq ParseArgs_def)
next
  case (Some ks)
  have "ks = [] \<longleftrightarrow> args = []" using Some by (cases args) (auto split: option.splits)
  moreover have "parse_plugin_args args ([], table_map {}) = Inr (concat (map argument_diagnostics args), table_map (set ks))"
    using parse_plugin_args_cases [of args "[]" "{}"] Some by simp
  ultimately show ?thesis
    using Some
    by (simp add: MutationMap_eq ParseArgs_def setDefaultMutationsIfNotSpecified_def default_kinds)
       (simp add: table_map_def)
qed

lemma ParseArgs_selects_witness:
  "bind_result MutationMap (ParseArgs [''mutators=cxx_add_to_sub'', ''mutator=cxx_sub_to_add'']) =
     Inr ([''Only 'mutator=' argument is supported.''], table_map {Kind_CXX_AddToSub, Kind_CXX_SubToAdd}) \<and>
   (\<exists>msg. bind_result MutationMap (ParseArgs [''cxx_add_to_sub'']) = Inl (AssertFailed msg))"
proof -
  have k: "argument_kind ''mutators=cxx_add_to_sub'' = Some Kind_CXX_AddToSub"
    "argument_kind ''mutator=cxx_sub_to_add'' = Some Kind_CXX_SubToAdd" "argument_kind ''cxx_add_to_sub'' = None"
    by (simp_all add: argument_kind_def argument_name_def MUTATIONS_MAP_def)
  have d: "argument_diagnostics ''mutators=cxx_add_to_sub'' = []"
    "argument_diagnostics ''mutator=cxx_sub_to_add'' = [''Only 'mutator=' argument is supported.'']"
    by (simp_all add: argument_diagnostics_def argument_name_def)
  show ?thesis
    using ParseArgs_selects [of "[''mutators=cxx_add_to_sub'', ''mutator=cxx_sub_to_add'']"]
      ParseArgs_selects [of "[''cxx_add_to_sub'']"] by (simp add: k d insert_commute)
qed

text \<open>The plugin and the tools that work on bitcode agree on the identifiers of the mutators.\<close>

lemma table_agrees_with_mutators:
  "set (map (\<lambda>(i, k). (k, i)) MUTATIONS_MAP) \<subseteq> set (map (\<lambda>(i, m). (mutatorKind m, i)) registered_mutators)"
  by (simp add: MUTATIONS_MAP_def registered_mutators_def mk_mutator_defs mutator_ID_defs)

lemma plugin_lacks:
  "map (\<lambda>(i, m). mutatorKind m)  (filter (\<lambda>(i, m). mutatorKind m \<notin> set (map snd MUTATIONS_MAP)) registered_mutators) =
   [Kind_NegateMutator, Kind_ScalarValueMutator]"
  by (simp add: MUTATIONS_MAP_def registered_mutators_def mk_mutator_defs)

end
