(* ===== verification/Progress.thy ===== *)
theory Progress
  imports TaskExecutor Diagnostics
begin

text \<open>
  What the executors show: \<open>lib/Parallelization/Progress.cpp\<close>, the single task executor of
  \<open>TaskExecutor.h\<close> and the clock of \<open>lib/Metrics/MetricsMeasure.cpp\<close>. The reporter's thread reads the
  counters in rounds; a round is the list of what it reads.
\<close>

section \<open>Time\<close>

record metrics_measure =
  measure_begin :: int
  measure_end :: int

definition MetricsMeasure :: metrics_measure where
  "MetricsMeasure = \<lparr>measure_begin = 0, measure_end = 0\<rparr>"

text \<open>The clock's milliseconds are an argument.\<close>

definition measure_start :: "int \<Rightarrow> metrics_measure \<Rightarrow> metrics_measure" where
  "measure_start timestamp m = m\<lparr>measure_begin := timestamp\<rparr>"

definition measure_finish :: "int \<Rightarrow> metrics_measure \<Rightarrow> metrics_measure" where
  "measure_finish timestamp m = m\<lparr>measure_end := timestamp\<rparr>"

definition measure_duration :: "metrics_measure \<Rightarrow> int" where
  "measure_duration m = measure_end m - measure_begin m"

definition measure_precision :: string where
  "measure_precision = ''ms''"

definition printTimeSummary :: "metrics_measure \<Rightarrow> unit diag" where
  "printTimeSummary m = diag_progress (''. Finished in '' @ string_of_int (measure_duration m) @ measure_precision)"

section \<open>The reporter\<close>

record progress_state =
  pr_total :: nat
  previousValue :: nat
  pr_name :: string
  pr_workers :: nat
  hasTerminal :: bool

definition progress_reporter :: "bool \<Rightarrow> string \<Rightarrow> nat \<Rightarrow> nat \<Rightarrow> progress_state diag" where
  "progress_reporter terminal name items workers =
     diag_bind (diag_info (name @ '' (threads: '' @ string_of_nat workers @ '')'')) (\<lambda>_.
     diag_return \<lparr>pr_total = items, previousValue = 0, pr_name = name, pr_workers = workers, hasTerminal = terminal\<rparr>)"

definition barWidth :: nat where
  "barWidth = 32"

text \<open>
  \<open>(double)current / total * barWidth\<close>, cut: the double is exact enough for any total below \<open>2\<^sup>47\<close>,
  because the factor is a power of two.
\<close>

definition starsCount :: "nat \<Rightarrow> nat \<Rightarrow> nat" where
  "starsCount current items = current * barWidth div items"

definition progress_text :: "bool \<Rightarrow> nat \<Rightarrow> nat \<Rightarrow> string" where
  "progress_text terminal items current =
     (if terminal then CHR 0x0D else CHR 0x0A) # replicate 7 (CHR '' '') @ ''['' @
     replicate (starsCount current items) (CHR ''#'') @
     replicate (barWidth - starsCount current items) (CHR ''-'') @ ''] '' @
     string_of_nat current @ ''/'' @ string_of_nat items"

text \<open>More stars than the bar is wide make the number of dots wrap around, and \<open>std::string\<close> throws.\<close>

definition printProgress :: "nat \<Rightarrow> nat \<Rightarrow> progress_state \<Rightarrow> progress_state diag" where
  "printProgress current items r =
     (if current = previousValue r then diag_return r
      else if barWidth < starsCount current items then diag_lift (Inl (OutOfRange ''length_error''))
      else diag_bind (diag_progress (progress_text (hasTerminal r) items current)) (\<lambda>_.
           diag_return (r\<lparr>previousValue := current\<rparr>)))"

text \<open>The loop over some rounds; the answer says whether it has ended by the last of them.\<close>

fun progress_loop :: "nat list list \<Rightarrow> progress_state \<Rightarrow> (progress_state \<times> bool) diag" where
  "progress_loop [] r = diag_return (r, False)"
| "progress_loop (counters # rounds) r =
     (let current = sum_list counters in
      if current = 0 then progress_loop rounds r
      else diag_bind (printProgress current (pr_total r) r) (\<lambda>r.
           if current = pr_total r then diag_return (r, True) else progress_loop rounds r))"

section \<open>The single task executor\<close>

definition execute_single :: "bool \<Rightarrow> int \<Rightarrow> int \<Rightarrow> string \<Rightarrow> unit diag \<Rightarrow> unit diag" where
  "execute_single terminal started finished name task =
     (let measure = measure_start started MetricsMeasure in
      diag_bind (progress_reporter terminal name 1 1) (\<lambda>reporter.
      diag_bind task (\<lambda>_.
      diag_bind (printProgress 1 1 reporter) (\<lambda>_.
      printTimeSummary (measure_finish finished measure)))))"

section \<open>What is shown\<close>

lemma starsCount_le: "current \<le> items \<Longrightarrow> starsCount current items \<le> barWidth"
proof -
  assume "current \<le> items"
  then have "current * barWidth div items \<le> barWidth * items div items"
    by (intro div_le_mono) (simp add: mult.commute)
  also have "\<dots> \<le> barWidth" by (cases "items = 0") simp_all
  finally show ?thesis by (simp add: starsCount_def)
qed

text \<open>The bar is 32 characters wide, and full at the end.\<close>

lemma progress_text_length:
  assumes "current \<le> items"
  shows "length (progress_text terminal items current) =
    44 + length (string_of_nat current) + length (string_of_nat items)"
  using starsCount_le [OF assms] by (simp add: progress_text_def barWidth_def)

lemma sum_list_mono_all2: "list_all2 (\<le>) xs ys \<Longrightarrow> sum_list xs \<le> sum_list (ys :: nat list)"
  by (induction rule: list_all2_induct) auto

lemma printProgress_new:
  assumes "current \<noteq> previousValue r" "current \<le> items"
  shows "\<exists>d'. printProgress current items r d = (d', Inr (r\<lparr>previousValue := current\<rparr>)) \<and>
    log_output d' = log_output d @ [ProgressText (progress_text (hasTerminal r) items current)]"
  using assms starsCount_le [OF assms(2)]
  by (simp add: printProgress_def st_bind_def diag_progress_def st_return_def emit_def)

lemma progress_loop_shown:
  assumes "sorted_wrt (list_all2 (\<le>)) rounds" "\<And>xs. xs \<in> set rounds \<Longrightarrow> previousValue r \<le> sum_list xs \<and> sum_list xs \<le> pr_total r"
    "previousValue r < pr_total r" "pr_total r \<in> sum_list ` set rounds"
  shows "\<exists>cs r' d'. progress_loop rounds r d = (d', Inr (r', True)) \<and> sorted_wrt (<) cs \<and> cs \<noteq> [] \<and> last cs = pr_total r \<and>
    set cs = {c \<in> sum_list ` set rounds. previousValue r < c} \<and>
    log_output d' = log_output d @ map (\<lambda>c. ProgressText (progress_text (hasTerminal r) (pr_total r) c)) cs"
  using assms
proof (induction rounds arbitrary: r d)
  case (Cons xs rounds)
  let ?c = "sum_list xs"
  have later: "?c \<le> sum_list ys" if "ys \<in> set rounds" for ys
    using Cons.prems(1) that by (auto intro: sum_list_mono_all2)
  have c: "previousValue r \<le> ?c" "?c \<le> pr_total r" using Cons.prems(2) by simp_all
  show ?case
  proof (cases "?c = previousValue r")
    case True
    then have step: "progress_loop (xs # rounds) r d = progress_loop rounds r d"
      using Cons.prems(3) by (simp add: Let_def printProgress_def)
    have "pr_total r \<in> sum_list ` set rounds" using Cons.prems(3,4) True by auto
    moreover have "{c \<in> sum_list ` set (xs # rounds). previousValue r < c} =
        {c \<in> sum_list ` set rounds. previousValue r < c}" using True by auto
    ultimately show ?thesis
      unfolding step using Cons.IH [of r d] Cons.prems(1-3) by auto
  next
    case False
    let ?r = "r\<lparr>previousValue := ?c\<rparr>"
    obtain d1 where d1: "printProgress ?c (pr_total r) r d = (d1, Inr ?r)"
        "log_output d1 = log_output d @ [ProgressText (progress_text (hasTerminal r) (pr_total r) ?c)]"
      using printProgress_new [OF False c(2)] by blast
    have pos: "?c \<noteq> 0" using c(1) False by (metis le_zero_eq)
    show ?thesis
    proof (cases "?c = pr_total r")
      case True
      have "progress_loop (xs # rounds) r d = (d1, Inr (?r, True))"
        using pos d1(1) True by (simp add: Let_def st_bind_def st_return_def)
      moreover have "set [?c] = {c \<in> sum_list ` set (xs # rounds). previousValue r < c}"
        using True c False Cons.prems(2) later by fastforce
      ultimately show ?thesis
        using d1(2) True by (intro exI [of _ "[?c]"] exI [of _ ?r] exI [of _ d1]) simp
    next
      case less: False
      have step: "progress_loop (xs # rounds) r d = progress_loop rounds ?r d1"
        using pos d1(1) less by (simp add: Let_def st_bind_def del: sum_list_eq_0_iff)
      obtain cs r' d' where ih: "progress_loop rounds ?r d1 = (d', Inr (r', True))" "sorted_wrt (<) cs" "cs \<noteq> []"
          "last cs = pr_total r" "set cs = {c \<in> sum_list ` set rounds. ?c < c}"
          "log_output d' = log_output d1 @ map (\<lambda>c. ProgressText (progress_text (hasTerminal r) (pr_total r) c)) cs"
        using Cons.IH [of ?r d1] Cons.prems later less c by auto
      have "set (?c # cs) = {c \<in> sum_list ` set (xs # rounds). previousValue r < c}"
        using ih(5) c(1) False later by fastforce
      then show ?thesis
        unfolding step using ih d1(2) by (intro exI [of _ "?c # cs"] exI [of _ r'] exI [of _ d']) auto
    qed
  qed
qed simp

text \<open>C40. The reporter shows every number of finished items it reads once, in increasing order, and ends
  with the bar of the total, whatever it reads of the counters on the way; it never throws.\<close>

theorem progress_grows_to_total:
  assumes "0 < items" and "sorted_wrt (list_all2 (\<le>)) rounds" and "\<forall>xs \<in> set rounds. sum_list xs \<le> items"
    and "items \<in> sum_list ` set rounds"
  shows "\<exists>cs r' d'.
    diag_bind (progress_reporter terminal name items workers) (progress_loop rounds) d = (d', Inr (r', True)) \<and>
    sorted_wrt (<) cs \<and> last cs = items \<and> set cs = {c \<in> sum_list ` set rounds. 0 < c} \<and>
    log_output d' = log_output (diag_prepare d) @ LogInfo (name @ '' (threads: '' @ string_of_nat workers @ '')'') #
      map (\<lambda>c. ProgressText (progress_text terminal items c)) cs"
proof -
  let ?r = "\<lparr>pr_total = items, previousValue = 0, pr_name = name, pr_workers = workers, hasTerminal = terminal\<rparr>"
  let ?d = "emit (LogInfo (name @ '' (threads: '' @ string_of_nat workers @ '')'')) (diag_prepare d)"
  have s: "diag_bind (progress_reporter terminal name items workers) (progress_loop rounds) d = progress_loop rounds ?r ?d"
    by (simp add: progress_reporter_def st_bind_def diag_info_def st_return_def)
  show ?thesis
    unfolding s using progress_loop_shown [of rounds ?r ?d] assms by fastforce
qed

lemma progress_grows_to_total_witness:
  "\<exists>cs r' d'.
    diag_bind (progress_reporter True ''Running mutants'' 3 2) (progress_loop [[0, 0], [1, 0], [1, 0], [1, 2]]) new_diagnostics =
      (d', Inr (r', True)) \<and> sorted_wrt (<) cs \<and> last cs = 3 \<and> set cs = {1, 3 :: nat}"
proof -
  let ?rounds = "[[0, 0], [1, 0], [1, 0], [1, 2 :: nat]]"
  have h: "0 < (3 :: nat)" "sorted_wrt (list_all2 (\<le>)) ?rounds" "\<forall>xs \<in> set ?rounds. sum_list xs \<le> 3"
      "3 \<in> sum_list ` set ?rounds" by simp_all
  have "{c \<in> sum_list ` set ?rounds. 0 < c} = {1, 3}" by auto
  with progress_grows_to_total [OF h, of True "''Running mutants''" 2 new_diagnostics]
  show ?thesis by auto
qed

end
