(* ===== verification/Support.thy ===== *)
theory Support
  imports MutationPoints Configuration Mutants SourceManager
begin

text \<open>
  Small parts beside the pipeline: \<open>lib/IDEDiagnostics.cpp\<close> with the object the constructor of
  \<open>Driver\<close> makes, \<open>lib/Version.cpp\<close>, and from \<open>LLVMCompatibility\<close> the search of the compile unit of a
  location, the choice of a demangler and the sections of older versions, and the source context of a
  point. The texts of the version are filled in by the build, the two demanglers are LLVM's: arguments.
\<close>

section \<open>IDE diagnostics\<close>

datatype IDEDiagnostics = NormalIDEDiagnostics IDEDiagnosticsKind | NullIDEDiagnostics

definition make_ideDiagnostics :: "Configuration \<Rightarrow> IDEDiagnostics" where
  "make_ideDiagnostics cfg =
     (if ide_diagnostics cfg \<noteq> DiagNone then NormalIDEDiagnostics (ide_diagnostics cfg) else NullIDEDiagnostics)"

text \<open>What is written to the standard error output.\<close>

definition normal_report :: "IDEDiagnosticsKind \<Rightarrow> mutation_point \<Rightarrow> bool \<Rightarrow> string" where
  "normal_report kind p killed =
     (if kind = DiagNone then []
      else if kind = DiagSurvived \<and> killed then []
      else if kind = DiagKilled \<and> \<not> killed then []
      else
        (let message = getDiagnostics (point_mutator p); loc = sourceLocation p in
         if message = [] then []
         else if isNull loc then []
         else newline @ filePath loc @ '':'' @ string_of_int (line loc) @ '':'' @ string_of_int (column loc) @
              '': warning: '' @ message @ newline))"

fun report :: "IDEDiagnostics \<Rightarrow> mutation_point \<Rightarrow> bool \<Rightarrow> string" where
  "report (NormalIDEDiagnostics kind) p killed = normal_report kind p killed"
| "report NullIDEDiagnostics p killed = []"

text \<open>The two objects agree where the driver chooses between them.\<close>

lemma report_driver: "report (make_ideDiagnostics cfg) p killed = normal_report (ide_diagnostics cfg) p killed"
  by (simp add: make_ideDiagnostics_def normal_report_def)

lemma report_shown_iff:
  "report (make_ideDiagnostics cfg) p killed \<noteq> [] \<longleftrightarrow>
     ide_diagnostics cfg = DiagAll \<and> shown \<or> ide_diagnostics cfg = DiagSurvived \<and> \<not> killed \<and> shown \<or>
     ide_diagnostics cfg = DiagKilled \<and> killed \<and> shown"
  if "shown \<longleftrightarrow> getDiagnostics (point_mutator p) \<noteq> [] \<and> \<not> isNull (sourceLocation p)"
  unfolding report_driver
  by (cases "ide_diagnostics cfg") (auto simp: normal_report_def Let_def newline_def that)

section \<open>Version\<close>

record version_strings =
  mullVersionString :: string
  mullCommitString :: string
  mullBuildDateString :: string
  mullDescriptionString :: string
  mullHomepageString :: string
  llvmVersionString :: string

definition printVersionInformation :: "version_strings \<Rightarrow> string" where
  "printVersionInformation v =
     ''Mull: '' @ mullDescriptionString v @ newline @
     mullHomepageString v @ newline @
     ''Version: '' @ mullVersionString v @ newline @
     ''Commit: '' @ mullCommitString v @ newline @
     ''Date: '' @ mullBuildDateString v @ newline @
     ''LLVM: '' @ llvmVersionString v @ newline"

section \<open>The compile unit of a location\<close>

text \<open>
  A scope is a subprogram with its unit, or another one with the scope around it; \<open>None\<close> is a null
  pointer. The loop asks \<open>isa\<close> of the pointer before it compares it with null.
\<close>

datatype di_scope = DISubprogram "(string \<times> string) option" | DIScope "di_scope option"

fun getUnit :: "di_scope option \<Rightarrow> (string \<times> string) option result" where
  "getUnit None = Inl (NullPointer ''scope'')"
| "getUnit (Some (DISubprogram unit)) = Inr unit"
| "getUnit (Some (DIScope parent)) = getUnit parent"

fun enclosed_in :: "nat \<Rightarrow> di_scope option \<Rightarrow> di_scope option" where
  "enclosed_in 0 s = s"
| "enclosed_in (Suc n) s = Some (DIScope (enclosed_in n s))"

text \<open>Below a subprogram the unit is the subprogram's, however deep the blocks nest; in scopes that lead
  to no subprogram the code does not answer null but dereferences it.\<close>

lemma getUnit_below_subprogram: "getUnit (enclosed_in n (Some (DISubprogram unit))) = Inr unit"
  by (induction n) simp_all

lemma getUnit_outside_subprogram: "getUnit (enclosed_in n None) = Inl (NullPointer ''scope'')"
  by (induction n) simp_all

section \<open>Demangling before LLVM 9\<close>

definition isItaniumEncoding :: "string \<Rightarrow> bool" where
  "isItaniumEncoding name =
     (let pos = length (takeWhile (\<lambda>c. c = CHR ''_'') name) in
      pos < length name \<and> 0 < pos \<and> pos \<le> 4 \<and> name ! pos = CHR ''Z'')"

definition demangle :: "(string \<Rightarrow> string option) \<Rightarrow> (string \<Rightarrow> string option) \<Rightarrow> string \<Rightarrow> string" where
  "demangle itaniumDemangle microsoftDemangle name =
     (case (if isItaniumEncoding name then itaniumDemangle name else microsoftDemangle name) of
        None \<Rightarrow> name
      | Some demangled \<Rightarrow> demangled)"

lemma isItaniumEncoding_iff:
  "isItaniumEncoding name \<longleftrightarrow> (\<exists>k rest. 1 \<le> k \<and> k \<le> 4 \<and> name = replicate k (CHR ''_'') @ CHR ''Z'' # rest)"
proof
  assume a: "isItaniumEncoding name"
  let ?P = "\<lambda>c. c = CHR ''_''" let ?k = "length (takeWhile ?P name)"
  have k: "?k < length name" "0 < ?k" "?k \<le> 4" "name ! ?k = CHR ''Z''"
    using a by (simp_all add: isItaniumEncoding_def Let_def)
  have r: "takeWhile ?P name = replicate ?k (CHR ''_'')"
    by (rule replicate_length_same [symmetric]) (auto dest: set_takeWhileD)
  have "name = takeWhile ?P name @ drop ?k name" by (simp flip: dropWhile_eq_drop)
  also have "drop ?k name = CHR ''Z'' # drop (Suc ?k) name"
    using k(1,4) Cons_nth_drop_Suc [of ?k name] by simp
  finally have "name = replicate ?k (CHR ''_'') @ CHR ''Z'' # drop (Suc ?k) name"
    by (subst r [symmetric])
  then show "\<exists>k rest. 1 \<le> k \<and> k \<le> 4 \<and> name = replicate k (CHR ''_'') @ CHR ''Z'' # rest"
    using k(2,3) by (intro exI [of _ ?k] exI [of _ "drop (Suc ?k) name"] conjI) linarith+
next
  assume "\<exists>k rest. 1 \<le> k \<and> k \<le> 4 \<and> name = replicate k (CHR ''_'') @ CHR ''Z'' # rest"
  then obtain k rest where k: "1 \<le> k" "k \<le> 4" "name = replicate k (CHR ''_'') @ CHR ''Z'' # rest" by blast
  have "takeWhile (\<lambda>c. c = CHR ''_'') name = replicate k (CHR ''_'')"
    unfolding k(3) by (induction k) simp_all
  then show "isItaniumEncoding name"
    using k by (simp add: isItaniumEncoding_def Let_def nth_append)
qed

text \<open>Version 6 has only the Itanium demangler. The versions agree on the names it can read, and on all
  others that no Microsoft compiler made.\<close>

definition demangle_6 :: "(string \<Rightarrow> string option) \<Rightarrow> string \<Rightarrow> string" where
  "demangle_6 itaniumDemangle name =
     (case itaniumDemangle name of None \<Rightarrow> name | Some demangled \<Rightarrow> demangled)"

lemma demangle_versions:
  assumes "\<And>n. itaniumDemangle n \<noteq> None \<Longrightarrow> isItaniumEncoding n" "microsoftDemangle name = None"
  shows "demangle itaniumDemangle microsoftDemangle name = demangle_6 itaniumDemangle name"
  using assms(1) [of name] assms(2) by (auto simp: demangle_def demangle_6_def split: option.split)

section \<open>Sections before LLVM 9\<close>

text \<open>The older interface fills in an argument, here the result beside the error code nobody looks at. A
  section that cannot be read leaves it empty, so all versions give the extractor the same sections.\<close>

definition getSectionContent_7 :: "(string \<Rightarrow> string option \<times> string) \<Rightarrow> string" where
  "getSectionContent_7 getContents = (let content = [] in snd (getContents content))"

definition getSectionName_7 :: "(string \<Rightarrow> string option \<times> string) \<Rightarrow> string" where
  "getSectionName_7 getName = (let name = [] in snd (getName name))"

definition fill_in :: "string + string \<Rightarrow> string \<Rightarrow> string option \<times> string" where
  "fill_in value x = (case value of Inl err \<Rightarrow> (Some err, x) | Inr y \<Rightarrow> (None, y))"

lemma section_versions:
  "read_section s = (getSectionName_7 (fill_in (section_name s)), getSectionContent_7 (fill_in (section_contents_of s)))"
  by (simp add: read_section_def getSectionName_def getSectionContent_def getSectionName_7_def getSectionContent_7_def
      fill_in_def split: sum.split)

section \<open>The context of a point\<close>

text \<open>\<open>dumpSourceCodeContext\<close> reads with a reader of its own, so nothing is cached before.\<close>

definition dumpSourceCodeContext :: "file_system \<Rightarrow> char \<Rightarrow> mutation_point \<Rightarrow> string result" where
  "dumpSourceCodeContext fs garbage p = snd (getContext fs garbage (sourceLocation p) [])"

lemma dumped_context:
  assumes "fs (filePath (sourceLocation p)) = Some (terminated ls)" "has_lines (terminated ls) ls []"
    and "line (sourceLocation p) = 1" "2 \<le> length ls"
    and "column (sourceLocation p) = 1" "hd ls \<noteq> []" "filePath (sourceLocation p) \<noteq> []"
  shows "dumpSourceCodeContext fs g p =
    Inr (''1:'' @ hd ls @ [nl] @ ''  ^'' @ [nl] @ ''2:'' @ ls ! 1 @ [nl])"
proof -
  have d: "string_of_nat 2 = ''2''" "string_of_int 1 = ''1''" "string_of_int 2 = ''2''" by code_simp+
  have h: "hd ls = ls ! 0" "ls \<noteq> []" using assms(4) by (cases ls; simp)+
  have r: "replicate 2 CHR '' '' = ''  ''" by (simp add: numeral_2_eq_2)
  have "\<not> isNull (sourceLocation p)" using assms(3) by (simp add: isNull_iff)
  then show ?thesis
    using context_lines [of fs "[]" "sourceLocation p" "terminated ls" ls "[]" g] assms
    by (simp add: dumpSourceCodeContext_def cache_current_def numbered_line_def setw_def d h r Suc_le_eq
        numeral_2_eq_2 [symmetric])
qed

end
