(* ===== verification/PreparedRecords.thy ===== *)
theory PreparedRecords
  imports DriverRefinement
begin

text \<open>
  From \<open>mull-cxx\<close> to \<open>mull-runner\<close>: what the preparation of a program leaves in the mutants sections of its
  files, what the linker makes of them, and what the runner reads there. The theory composes
  \<open>Driver::prepareMutations\<close>, \<open>MutationPoint::recordMutation\<close> and \<open>MutantExtractor\<close>.
\<close>

section \<open>The globals of a module in the preparation\<close>

lemma used_globals_functions [simp]:
  "used_globals (add_function f m) = used_globals m" "used_globals (update_function n u m) = used_globals m"
  by (simp_all add: add_function_def update_function_def)

lemma used_globals_clone: "used_globals (fst (cloneFunctions un pairs s)) = used_globals (fst s)"
proof -
  have "used_globals (fst (clone_for_point un n i s)) = used_globals (fst s)" for n i s
    by (auto simp: clone_for_point_def Let_def split: prod.splits option.splits)
  then have "used_globals (fst (foldl (\<lambda>s i. clone_for_point un n i s) s ps)) = used_globals (fst s)" for n ps s
    by (induction ps arbitrary: s) simp_all
  then show ?thesis
    unfolding cloneFunctions_def by (induction pairs arbitrary: s) (simp_all split: prod.splits)
qed

lemma used_globals_delete: "used_globals (deleteFunctions un pairs store m) = used_globals m"
  unfolding deleteFunctions_def
  by (induction pairs arbitrary: m) (simp_all add: delete_function_def split: prod.splits option.splits)

lemma used_globals_insert: "used_globals (insertTrampolines un pairs store m) = used_globals m"
proof -
  have "used_globals (foldl (insert_trampoline un store) m pairs) = used_globals m" for m
    by (induction pairs arbitrary: m) (simp_all add: insert_trampoline_def split: prod.splits option.splits)
  then show ?thesis by (simp add: insertTrampolines_def getOrInsertFunction_def)
qed

lemma used_globals_apply: "applyMutation applyM p m = Inr m' \<Longrightarrow> used_globals m' = used_globals m"
  by (auto simp: applyMutation_def split: option.splits)

lemma used_globals_applyMutations:
  "applyMutations applyM ps m = Inr m' \<Longrightarrow> used_globals m' = used_globals m @ map record_global ps"
proof (induction ps arbitrary: m)
  case (Cons p ps)
  then show ?case
    by (auto simp: Let_def used_globals_record dest!: used_globals_apply split: if_splits)
qed simp

section \<open>What cloning leaves of a point\<close>

definition untouched :: "mutation_point \<Rightarrow> mutation_point" where
  "untouched p = p\<lparr>mutatedFunction := None\<rparr>"

lemma untouched_fields [simp]:
  "record_global (untouched p) = record_global p" "bitcode (untouched p) = bitcode p"
  "decoded_mutant (untouched p) = decoded_mutant p" "recordable (untouched p) = recordable p"
  "mutation_encoding (untouched p) = mutation_encoding p"
  by (simp_all add: untouched_def record_global_def mutation_encoding_def decoded_mutant_def recordable_def)

lemma clone_point_untouched:
  "map untouched (snd (clone_for_point un n i s)) = map untouched (snd s)"
proof -
  have "map untouched (t[i := (t ! i)\<lparr>mutatedFunction := x\<rparr>]) = map untouched t" for t x
    by (cases "i < length t") (simp_all add: map_update untouched_def list_update_same_conv not_less list_update_beyond)
  then show ?thesis
    by (auto simp: clone_for_point_def Let_def split: prod.splits option.splits)
qed

lemma cloneFunctions_untouched: "map untouched (snd (cloneFunctions un pairs s)) = map untouched (snd s)"
proof -
  have "map untouched (snd (foldl (\<lambda>s i. clone_for_point un n i s) s ps)) = map untouched (snd s)" for n ps s
    by (induction ps arbitrary: s) (simp_all add: clone_point_untouched)
  then show ?thesis
    unfolding cloneFunctions_def by (induction pairs arbitrary: s) (simp_all split: prod.splits)
qed

lemma clone_all_keeps:
  "clone_all un bs s = (bs', s') \<Longrightarrow> map untouched s' = map untouched s \<and>
     map (\<lambda>b. used_globals (ir b)) bs' = map (\<lambda>b. used_globals (ir b)) bs"
proof (induction bs arbitrary: s bs' s')
  case (Cons b bs)
  obtain m s1 where c: "cloneFunctions un (mutationPoints b) (ir b, s) = (m, s1)" by fastforce
  obtain bs1 s2 where r: "clone_all un bs s1 = (bs1, s2)" by fastforce
  show ?case
    using Cons.IH [OF r] Cons.prems cloneFunctions_untouched [of un "mutationPoints b" "(ir b, s)"]
      used_globals_clone [of un "mutationPoints b" "(ir b, s)"]
    by (auto simp: c r)
qed simp

lemma redirected_keeps:
  assumes "redirected_program env store program = (bs, s)"
  shows "map untouched s = map untouched store"
    "map (\<lambda>b. used_globals (ir b)) bs = map (\<lambda>b. used_globals (ir b)) program"
proof -
  obtain bs1 where c: "clone_all (symbol_names env) (add_mutations store program) store = (bs1, s)"
    and bs: "bs = redirect_all (symbol_names env) s (delete_all (symbol_names env) s bs1)"
    using assms by (auto simp: redirected_program_def split: prod.splits)
  have "map (\<lambda>b. used_globals (ir b)) (add_mutations store program) = map (\<lambda>b. used_globals (ir b)) program"
    by (rule nth_equalityI) (simp_all add: add_mutations_fields)
  then show "map (\<lambda>b. used_globals (ir b)) bs = map (\<lambda>b. used_globals (ir b)) program"
    using clone_all_keeps [OF c]
    by (simp add: bs redirect_all_def delete_all_def used_globals_delete used_globals_insert comp_def)
  show "map untouched s = map untouched store" using clone_all_keeps [OF c] by simp
qed

section \<open>The section of the linked program\<close>

definition points_by_file :: "nat \<Rightarrow> point_store \<Rightarrow> mutation_point list" where
  "points_by_file files store = concat (map (\<lambda>j. filter (\<lambda>p. bitcode p = j) store) [0..<files])"

lemma records_untouched:
  assumes "map untouched s = map untouched store"
  shows "map record_global (filter (\<lambda>p. bitcode p = j) s) = map record_global (filter (\<lambda>p. bitcode p = j) store)"
proof -
  have "map record_global (filter (\<lambda>p. bitcode p = j) t) =
      map record_global (filter (\<lambda>p. bitcode p = j) (map untouched t))" for t
    by (induction t) simp_all
  from this [of s] this [of store] show ?thesis by (simp only: assms)
qed

lemma prepared_globals:
  assumes "program_ready env store program" "\<not> dryRunEnabled cfg" "workers (parallelization cfg) \<noteq> 0"
    and "prepareMutations env cfg store program = Inr (bs, s)" "j < length program"
  shows "used_globals (ir (bs ! j)) =
    used_globals (ir (program ! j)) @ map record_global (filter (\<lambda>p. bitcode p = j) store)"
proof -
  let ?A = "mutator_applyMutation (mutate_instruction env)"
  have bare: "\<forall>b \<in> set program. mutationPoints b = []"
    using assms(1) by (simp add: program_ready_def list_all_iff)
  obtain bs0 s0 where r: "redirected_program env store program = (bs0, s0)" by fastforce
  note keeps = redirected_keeps [OF r]
  have j: "j < length bs0" using redirected_lengths(1) [OF bare r] assms(5) by simp
  have "apply_all ?A s0 bs0 = Inr bs"
    using assms(4) prepareMutations_redirected [OF assms(2,3) r] by auto
  then have "applyMutations ?A (filter (\<lambda>p. bitcode p = j) s0) (ir (bs0 ! j)) = Inr (ir (bs ! j))"
    using apply_all_each j by blast
  then have "used_globals (ir (bs ! j)) = used_globals (ir (bs0 ! j)) @
      map record_global (filter (\<lambda>p. bitcode p = j) s0)"
    by (rule used_globals_applyMutations)
  moreover have "used_globals (ir (bs0 ! j)) = used_globals (ir (program ! j))"
    using keeps(2) j assms(5) by (metis (mono_tags, lifting) nth_map)
  ultimately show ?thesis by (simp add: records_untouched [OF keeps(1)])
qed

text \<open>The linker puts the contents of the section one after the other, file by file, and may pad each with
  zeros.\<close>

definition section_globals :: "bitcode_file list \<Rightarrow> (string \<times> string \<times> string) list" where
  "section_globals bs = filter (\<lambda>g. fst g = ''.mull_mutants'') (concat (map (\<lambda>b. used_globals (ir b)) bs))"

definition linked_section :: "(nat \<Rightarrow> nat) \<Rightarrow> bitcode_file list \<Rightarrow> string" where
  "linked_section pad bs =
     concat (map (\<lambda>(k, sec, name, contents). contents @ replicate (pad k) (CHR 0x00)) (enumerate 0 (section_globals bs)))"

lemma prepared_section:
  assumes "program_ready env store program" "\<not> dryRunEnabled cfg" "workers (parallelization cfg) \<noteq> 0"
    and "prepareMutations env cfg store program = Inr (bs, s)" "length bs = length program"
    and "\<forall>b \<in> set program. section_globals [b] = []"
  shows "section_globals bs = map record_global (points_by_file (length program) store)"
proof -
  have own: "filter (\<lambda>g. fst g = ''.mull_mutants'') (map record_global ps) = map record_global ps" for ps
    by (induction ps) (simp_all add: record_global_def)
  have "filter (\<lambda>g. fst g = ''.mull_mutants'') (used_globals (ir (bs ! j))) =
      map record_global (filter (\<lambda>p. bitcode p = j) store)" if "j < length program" for j
    using prepared_globals [OF assms(1-4) that] assms(6) that by (simp add: own section_globals_def)
  then have "map (\<lambda>b. filter (\<lambda>g. fst g = ''.mull_mutants'') (used_globals (ir b))) bs =
      map (\<lambda>j. map record_global (filter (\<lambda>p. bitcode p = j) store)) [0..<length program]"
    by (intro nth_equalityI) (simp_all add: assms(5))
  then show ?thesis
    by (simp add: section_globals_def points_by_file_def filter_concat map_concat comp_def)
qed

lemma linked_content:
  assumes "program_ready env store program" "\<not> dryRunEnabled cfg" "workers (parallelization cfg) \<noteq> 0"
    and "\<forall>b \<in> set program. section_globals [b] = []"
    and "prepareMutations env cfg store program = Inr (bs, s)" "length bs = length program"
  shows "linked_section pad bs =
    section_content (map (\<lambda>(k, p). (p, pad k)) (enumerate 0 (points_by_file (length program) store)))"
  unfolding linked_section_def prepared_section [OF assms(1-3,5,6,4)] by (rule section_content_linked)

text \<open>C4. What \<open>mull-cxx\<close> prepares, \<open>mull-runner\<close> reads: the preparation records every point, covered or not,
  and however the linker pads the mutants sections of the files and whatever other sections the executable
  has, the runner gets from it exactly one mutant for every point, file by file, in the order of the
  driver's points.\<close>

theorem prepared_program_records:
  assumes "program_ready env store program" "\<not> dryRunEnabled cfg" "workers (parallelization cfg) \<noteq> 0"
    and "list_all recordable store" "\<forall>b \<in> set program. section_globals [b] = []"
    and "list_all (\<lambda>(n, _). n \<noteq> ''.mull_mutants'') (before @ after)"
  shows "\<exists>bs s. prepareMutations env cfg store program = Inr (bs, s) \<and>
    (\<forall>sections. map read_section sections = before @ (''.mull_mutants'', linked_section pad bs) # after \<longrightarrow>
       extractMutants (ObjectFile sections) d =
         (d, Inr (map decoded_mutant (points_by_file (length program) store))))"
proof -
  let ?ps = "points_by_file (length program) store"
  obtain bs s where r: "prepareMutations env cfg store program = Inr (bs, s)" "length bs = length program"
    using prepareMutations_ready [OF assms(1-3)] by blast
  note content = linked_content [OF assms(1-3,5) r, of pad]
  have "list_all recordable ?ps" using assms(4) by (auto simp: points_by_file_def list_all_iff)
  then have "section_mutants (before @ (''.mull_mutants'', linked_section pad bs) # after) =
      Inr (map decoded_mutant ?ps)"
    using extract_sections [of "map (\<lambda>(k, p). (p, pad k)) (enumerate 0 ?ps)" before after] assms(6)
    by (simp only: content numbered_points list_all_append)
  then show ?thesis using r(1) by (auto simp: extractMutants_def st_lift_def)
qed

lemma sample_point_fields [simp]:
  "bitcode sample_point = 0" "originalFunction sample_point = ''f''" "mutatedFunction sample_point = None"
  "covered sample_point" "irMutator sample_point = Some (irm ''AddToSub'' [])" "point_mutator sample_point = mk_AddToSub"
  "address sample_point = MutationPointAddress 0 0 0"
  by (simp_all add: sample_point_def setEndLocation_def MutationPoint_def Let_def addressFromInstruction_def
      sample_defs blocks_of_def insts_of_def get_function_def get_block_def int_of_size_small)

lemma sample_point_identifier: "5 \<le> length (userIdentifier sample_point)" "\<not> reserved (userIdentifier sample_point)"
proof -
  have "\<exists>r. userIdentifier sample_point = ''cxx_add_to_sub:'' @ r"
    by (simp add: sample_point_def setEndLocation_def MutationPoint_def Let_def mk_AddToSub_def TrivialCXXMutator_def
        AddToSub_ID_def)
  then show "5 \<le> length (userIdentifier sample_point)" "\<not> reserved (userIdentifier sample_point)"
    by (auto simp: reserved_def)
qed

lemma recorded_ready: "program_ready dropping_environment [sample_point, setCovered False sample_point] sample_program"
proof -
  have f: "get_function sample_module ''f'' = Some sample_function"
    by (simp add: get_function_def sample_module_def sample_function_def)
  have "\<not> isl (mutator_applyMutation (mutate_instruction dropping_environment) mk_AddToSub
      (MutationPointAddress 0 0 0) (Some (irm ''AddToSub'' [])) g)"
    if "blocks g = blocks sample_function" for g :: ir_function
    using that
    by (simp add: findInstruction_in_function_def MutationPointAddress_def sample_function_def at_next_def
        nth_opt_def mutator_applyMutation_def trivial_applyMutation_def mk_AddToSub_def TrivialCXXMutator_def
        split: option.split)
  then show ?thesis
    using f sample_point_identifier
    by (simp add: program_ready_def point_ready_def setCovered_def dropping_environment_def sample_environment_def
        unique_names_suffix sample_program_def Bitcode_def names_def sample_module_def sample_function_def reserved_def)
qed

lemma prepared_program_records_witness:
  "\<exists>bs s. prepareMutations dropping_environment running_configuration
      [sample_point, setCovered False sample_point] sample_program = Inr (bs, s) \<and>
    extractMutants (ObjectFile
      [\<lparr>section_name = Inr ''.text'', section_contents_of = Inl ''truncated''\<rparr>,
       \<lparr>section_name = Inr ''.mull_mutants'', section_contents_of = Inr (linked_section (\<lambda>k. k) bs)\<rparr>])
      new_diagnostics =
    (new_diagnostics, Inr [decoded_mutant sample_point, decoded_mutant (setCovered False sample_point)])"
proof -
  let ?store = "[sample_point, setCovered False sample_point]"
  have run: "\<not> dryRunEnabled running_configuration" "workers (parallelization running_configuration) \<noteq> 0"
    by (simp_all add: running_configuration_def sample_configuration_def new_Configuration_def
        singleThreadParallelization_def)
  have "recordable (setCovered False sample_point)"
    using sample_recordable by (simp add: recordable_def setCovered_def)
  then have rec: "list_all recordable ?store" using sample_recordable by simp
  have bare: "\<forall>b \<in> set sample_program. section_globals [b] = []"
    by (simp add: sample_program_def Bitcode_def section_globals_def sample_module_def)
  have "points_by_file (length sample_program) ?store = ?store"
    by (simp add: points_by_file_def sample_program_def setCovered_def)
  with prepared_program_records [OF recorded_ready run rec bare, of "[(''.text'', [])]" "[]" "\<lambda>k. k" new_diagnostics]
  show ?thesis by (fastforce simp: read_section_def getSectionName_def getSectionContent_def)
qed

end
