(* ===== verification/EndToEnd.thy ===== *)
theory EndToEnd
  imports Tools PreparedRecords
begin

text \<open>
  The two tools together: \<open>mull-cxx\<close> prepares a program, \<open>mull-runner\<close> runs its mutants. The theory joins
  the meaning of the trampolines, the records in the mutants section and the requests the runner makes.
\<close>

section \<open>What a run of a mutant executes\<close>

text \<open>The request \<open>mull-runner\<close> makes for a mutant. The variables it sets are the only ones that are named
  like a mutant: the user's own environment has none.\<close>

definition tested_program :: "cli_values \<Rightarrow> string \<Rightarrow> string" where
  "tested_program opts path = (if cl_TestProgram opts \<noteq> [] then cl_TestProgram opts else path)"

definition mutant_request :: "tool_environment \<Rightarrow> cli_values \<Rightarrow> string \<Rightarrow> mutation_point \<Rightarrow> process_request" where
  "mutant_request env opts path p =
     (let cmd = tested_program opts path # cl_RunnerArgs opts
      in \<lparr>command = cmd, extra_env = [(userIdentifier p, ''1'')], working_directory = None,
          wait_milliseconds = 10 * elapsed (processes (driver_environment env) 1
            \<lparr>command = cmd, extra_env = [], working_directory = None,
             wait_milliseconds = sint (cl_Timeout opts)\<rparr>)\<rparr>)"

definition variable_set :: "process_request \<Rightarrow> string \<Rightarrow> bool" where
  "variable_set r v \<longleftrightarrow> v \<in> fst ` set (extra_env r)"

lemma variable_set_request [simp]: "variable_set (mutant_request env opts path p) = (\<lambda>v. v = userIdentifier p)"
  by (auto simp: variable_set_def mutant_request_def Let_def)

text \<open>The point whose mutation a function runs with: the last covered one of the function whose variable
  is set.\<close>

definition point_in_force :: "(string \<Rightarrow> bool) \<Rightarrow> point_store \<Rightarrow> nat \<Rightarrow> string \<Rightarrow> mutation_point option" where
  "point_in_force on store j n =
     find (\<lambda>p. bitcode p = j \<and> originalFunction p = n \<and> covered p \<and> on (userIdentifier p)) (rev store)"

text \<open>The mutation of a point, or none, makes the function \<open>f\<close> into one with this body.\<close>

definition mutated_body :: "apply_mutation \<Rightarrow> mutation_point option \<Rightarrow> ir_function \<Rightarrow> string \<Rightarrow> basic_block list \<Rightarrow> bool" where
  "mutated_body applyM q f t body \<longleftrightarrow>
     (case q of
        None \<Rightarrow> body = blocks f
      | Some p \<Rightarrow> \<exists>h. applyM (point_mutator p) (address p) (irMutator p) ((CloneFunction f t)\<lparr>internal_linkage := True\<rparr>) =
          Inr h \<and> body = blocks h)"

text \<open>\<open>f'\<close>, which a module has in the place of \<open>f\<close>, is \<open>f\<close> itself, unmutated, or calls a function of the
  module with the body the mutation makes, with its own arguments, and returns what that returns.\<close>

definition runs_as ::
  "apply_mutation \<Rightarrow> (string \<Rightarrow> bool) \<Rightarrow> ir_module \<Rightarrow> mutation_point option \<Rightarrow> ir_function \<Rightarrow> ir_function \<Rightarrow> bool" where
  "runs_as applyM on m q f f' \<longleftrightarrow>
     q = None \<and> f' = f \<or>
     (\<exists>t g. get_function m t = Some g \<and> mutated_body applyM q f t (blocks g) \<and>
        (\<exists>n0. \<forall>k \<ge> n0. run_function on k f' = Some (trampoline_result f t)))"

section \<open>The point in force\<close>

lemma find_map: "find P (map g xs) = map_option g (find (\<lambda>x. P (g x)) xs)"
  by (induction xs) simp_all

lemma find_filter: "find P (filter Q xs) = find (\<lambda>x. Q x \<and> P x) xs"
  by (induction xs) simp_all

lemma find_mem_cong: "(\<And>x. x \<in> set xs \<Longrightarrow> P x = Q x) \<Longrightarrow> find P xs = find Q xs"
  by (induction xs) auto

lemma find_self: "x \<in> set xs \<Longrightarrow> find (\<lambda>y. y = x) xs = Some x"
  by (induction xs) auto

lemma point_in_force_selected:
  "point_in_force on store j n = map_option ((!) store) (selected_point on store (points_at store j n))"
proof -
  have "rev store = map ((!) store) (rev [0..<length store])" by (simp add: rev_map [symmetric] map_nth)
  then have "point_in_force on store j n = map_option ((!) store) (find (\<lambda>i. bitcode (store ! i) = j \<and>
      originalFunction (store ! i) = n \<and> covered (store ! i) \<and> on (userIdentifier (store ! i))) (rev [0..<length store]))"
    unfolding point_in_force_def by (simp only: find_map)
  then show ?thesis
    by (simp add: selected_point_def points_at_def rev_filter find_filter conj_assoc)
qed

text \<open>Where no two points share an identifier, that is the point of the mutant itself, in its function, and
  none anywhere else.\<close>

lemma point_in_force_alone:
  assumes "distinct (map userIdentifier store)" "p \<in> set store"
  shows "point_in_force (\<lambda>v. v = userIdentifier p) store j n =
    (if bitcode p = j \<and> originalFunction p = n \<and> covered p then Some p else None)"
proof -
  have only: "q = p" if "q \<in> set store" "userIdentifier q = userIdentifier p" for q
    using assms that by (auto simp: distinct_map inj_on_def)
  show ?thesis
  proof (cases "bitcode p = j \<and> originalFunction p = n \<and> covered p")
    case True
    have "find (\<lambda>q. q = p) (rev store) = Some p" using assms(2) by (simp add: find_self)
    moreover have "point_in_force (\<lambda>v. v = userIdentifier p) store j n = find (\<lambda>q. q = p) (rev store)"
      unfolding point_in_force_def by (rule find_mem_cong) (use only True in auto)
    ultimately show ?thesis using True by simp
  next
    case False
    then have "point_in_force (\<lambda>v. v = userIdentifier p) store j n = None"
      unfolding point_in_force_def find_None_iff using only by auto
    then show ?thesis using False by simp
  qed
qed

lemma dispatches_runs_as:
  assumes "dispatches applyM m store (points_at store j n) f f'"
  shows "runs_as applyM on m (point_in_force on store j n) f f'"
proof -
  obtain t g where t: "get_function m t = Some g" "\<exists>n0. \<forall>k \<ge> n0. run_function on k f' = Some (trampoline_result f t)"
    and b: "case selected_point on store (points_at store j n) of None \<Rightarrow> blocks g = blocks f
      | Some i \<Rightarrow> \<exists>h. applyM (point_mutator (store ! i)) (address (store ! i)) (irMutator (store ! i))
          ((CloneFunction f t)\<lparr>internal_linkage := True\<rparr>) = Inr h \<and> blocks g = blocks h"
    using assms unfolding dispatches_def by blast
  have "mutated_body applyM (point_in_force on store j n) f t (blocks g)"
    using b by (auto simp: mutated_body_def point_in_force_selected split: option.splits)
  with t show ?thesis unfolding runs_as_def by blast
qed

lemma uncovered_not_in_force:
  "first_covered store (points_at store j n) = None \<Longrightarrow> point_in_force on store j n = None"
  by (auto simp: first_covered_None point_in_force_selected selected_point_def find_None_iff)

lemma prepared_runs_as:
  assumes "if first_covered store (points_at store j n) = None then get_function m n = Some f
    else \<exists>f'. get_function m n = Some f' \<and> dispatches applyM m store (points_at store j n) f f'"
  shows "\<exists>f'. get_function m n = Some f' \<and> runs_as applyM on m (point_in_force on store j n) f f'"
proof (cases "first_covered store (points_at store j n)")
  case None
  then show ?thesis using assms by (simp add: uncovered_not_in_force runs_as_def)
next
  case (Some i)
  then show ?thesis using assms dispatches_runs_as by fastforce
qed

lemma length_points_by_file: "length (points_by_file files store) \<le> length store"
proof -
  have "length (points_by_file files store) = length (filter (\<lambda>p. bitcode p < files) store)"
  proof (induction files)
    case (Suc n)
    have "length (filter (\<lambda>p. bitcode p < n) store) + length (filter (\<lambda>p. bitcode p = n) store) =
        length (filter (\<lambda>p. bitcode p < Suc n) store)"
      by (induction store) auto
    with Suc show ?case by (simp add: points_by_file_def)
  qed (simp add: points_by_file_def)
  then show ?thesis by simp
qed

section \<open>The tools together\<close>

text \<open>C1. A mutant found by \<open>mull-cxx\<close> is what \<open>mull-runner\<close> tests. The driver prepares the program; the
  linker joins the mutants sections of its files, however it pads them; the runner, started on the
  linked executable, reports one result for every point, in the order of the section, and that of a
  covered one is the outcome of one run with the point's variable set. In that run every function of the
  program does what it did, with its last covered mutation of that identifier applied once, or with
  none where it has none; a function without covered points is left as it was.\<close>

theorem mutants_run_as_recorded:
  assumes "program_ready penv store program" "\<not> dryRunEnabled cfg" "workers (parallelization cfg) \<noteq> 0"
    and "list_all recordable store" "\<forall>b \<in> set program. section_globals [b] = []" "length store < 2 ^ 31"
    and "list_all (\<lambda>(n, _). n \<noteq> ''.mull_mutants'') (before @ after)"
    and "\<not> cl_StrictModeEnabled opts" "readable env (cl_InputFile opts)" "real_path env (cl_InputFile opts) = Some path"
    and "uint (hardware_concurrency env) < 2 ^ 31" "uint (cl_Workers opts) < 2 ^ 31"
    and "starts (processes (driver_environment env))"
  defines "applyM \<equiv> mutator_applyMutation (mutate_instruction penv)"
    and "points \<equiv> points_by_file (length program) store"
  shows "\<exists>bs s. prepareMutations penv cfg store program = Inr (bs, s) \<and>
    (\<forall>sections. open_object env path = ObjectFile sections \<longrightarrow>
       map read_section sections = before @ (''.mull_mutants'', linked_section pad bs) # after \<longrightarrow>
       (\<exists>d reporters. mull_runner_run env opts new_diagnostics = (d, Inr (reporters,
          make_Result (map decoded_mutant points)
            (map (\<lambda>(k, p).
               \<lparr>execution_result =
                  (if covered p
                   then execution_of (processes (driver_environment env) (2 + k) (mutant_request env opts path p))
                     (\<not> (cl_NoMutantOutput opts \<or> cl_NoOutput opts))
                   else new_ExecutionResult\<lparr>status := NotCovered\<rparr>),
                result_mutant = decoded_mutant p\<rparr>) (enumerate 0 points)))))) \<and>
    (\<forall>p j n f. j < length program \<longrightarrow> get_function (ir (program ! j)) n = Some f \<longrightarrow>
       (\<exists>f'. get_function (ir (bs ! j)) n = Some f' \<and>
          (let on = variable_set (mutant_request env opts path p)
           in runs_as applyM on (ir (bs ! j)) (point_in_force on store j n) f f')))"
proof -
  obtain bs s where r: "prepareMutations penv cfg store program = Inr (bs, s)" "length bs = length program"
    and d: "\<And>j n f. j < length program \<Longrightarrow> get_function (ir (program ! j)) n = Some f \<Longrightarrow>
      if first_covered store (points_at store j n) = None then get_function (ir (bs ! j)) n = Some f
      else \<exists>f'. get_function (ir (bs ! j)) n = Some f' \<and> dispatches applyM (ir (bs ! j)) store (points_at store j n) f f'"
    using prepared_dispatch [OF assms(1-3)] unfolding applyM_def by blast
  let ?rs = "map (\<lambda>(k, p). (p, pad k)) (enumerate 0 points)"
  have "list_all recordable points" using assms(4) by (auto simp: points_def points_by_file_def list_all_iff)
  then have rec: "list_all (\<lambda>(p, _). recordable p) ?rs" by (simp only: numbered_points)
  have small: "length ?rs < 2 ^ 31"
    using length_points_by_file [of "length program" store] assms(6) by (simp add: points_def)
  have numbered: "map (\<lambda>(k, p, x). g k p) (enumerate 0 ?rs) = map (\<lambda>(k, p). g k p) (enumerate 0 points)" for g
    by (rule nth_equalityI) (simp_all add: nth_enumerate_eq)
  have run: "\<exists>d reporters. mull_runner_run env opts new_diagnostics = (d, Inr (reporters,
      make_Result (map decoded_mutant points) (map (\<lambda>(k, p).
        \<lparr>execution_result =
           (if covered p
            then execution_of (processes (driver_environment env) (2 + k) (mutant_request env opts path p))
              (\<not> (cl_NoMutantOutput opts \<or> cl_NoOutput opts))
            else new_ExecutionResult\<lparr>status := NotCovered\<rparr>),
         result_mutant = decoded_mutant p\<rparr>) (enumerate 0 points))))"
    if o: "open_object env path = ObjectFile sections"
      and m: "map read_section sections = before @ (''.mull_mutants'', linked_section pad bs) # after" for sections
    using runner_results [OF assms(8-12) o m [unfolded linked_content [OF assms(1-3,5) r] points_def [symmetric]]
        assms(7) rec small assms(13)]
    by (simp only: numbered numbered_points mutant_request_def tested_program_def Let_def)
  have "\<exists>f'. get_function (ir (bs ! j)) n = Some f' \<and>
      (let on = variable_set (mutant_request env opts path p)
       in runs_as applyM on (ir (bs ! j)) (point_in_force on store j n) f f')"
    if "j < length program" "get_function (ir (program ! j)) n = Some f" for p j n f
    unfolding Let_def by (rule prepared_runs_as [OF d [OF that]])
  with r(1) run show ?thesis by blast
qed

text \<open>A program with one function and two points in it, one of them not covered, linked and run.\<close>

definition found_points :: point_store where
  "found_points = [sample_point, setCovered False sample_point]"

definition linked_tool :: tool_environment where
  "linked_tool = sample_tool\<lparr>open_object := (\<lambda>p. ObjectFile
     [\<lparr>section_name = Inr ''.text'', section_contents_of = Inl ''truncated''\<rparr>,
      \<lparr>section_name = Inr ''.mull_mutants'', section_contents_of = Inr (linked_section (\<lambda>k. k)
         (case prepareMutations dropping_environment running_configuration found_points sample_program of
            Inr (bs, s) \<Rightarrow> bs | Inl e \<Rightarrow> []))\<rparr>])\<rparr>"

lemma linked_tool_fields [simp]:
  "readable linked_tool p" "real_path linked_tool p = Some p" "hardware_concurrency linked_tool = 4"
  "driver_environment linked_tool = sample_environment"
  by (simp_all add: linked_tool_def sample_tool_def)

lemma found_points_facts:
  "program_ready dropping_environment found_points sample_program" "list_all recordable found_points"
  "points_by_file (length sample_program) found_points = found_points" "length found_points < 2 ^ 31"
  "\<forall>b \<in> set sample_program. section_globals [b] = []"
proof -
  have "recordable (setCovered False sample_point)"
    using sample_recordable by (simp add: recordable_def setCovered_def)
  then show "list_all recordable found_points" using sample_recordable by (simp add: found_points_def)
qed (use recorded_ready in \<open>simp_all add: found_points_def points_by_file_def sample_program_def setCovered_def
      Bitcode_def section_globals_def sample_module_def\<close>)

lemma mutants_run_as_recorded_witness:
  "\<exists>bs s d reporters rs f' t g k.
     prepareMutations dropping_environment running_configuration found_points sample_program = Inr (bs, s) \<and>
     mull_runner_run linked_tool (initial_values ''prog'') new_diagnostics =
       (d, Inr (reporters, make_Result (map decoded_mutant found_points) rs)) \<and>
     map (\<lambda>r. status (execution_result r)) rs = [Failed, NotCovered] \<and>
     get_function (ir (bs ! 0)) ''f'' = Some f' \<and> get_function (ir (bs ! 0)) t = Some g \<and>
     run_function (\<lambda>v. v = userIdentifier sample_point) k f' = Some (trampoline_result sample_function t) \<and>
     blocks g = tl (blocks sample_function)"
proof -
  let ?opts = "initial_values ''prog''" and ?A = "mutator_applyMutation (mutate_instruction dropping_environment)"
  have opts: "\<not> cl_StrictModeEnabled ?opts" "readable linked_tool (cl_InputFile ?opts)"
      "real_path linked_tool (cl_InputFile ?opts) = Some ''prog''" "uint (hardware_concurrency linked_tool) < 2 ^ 31"
      "uint (cl_Workers ?opts) < 2 ^ 31" "starts (processes (driver_environment linked_tool))"
    by (simp_all add: initial_values_def sample_environment_def starts_def quick_world_def)
  have run: "\<not> dryRunEnabled running_configuration" "workers (parallelization running_configuration) \<noteq> 0"
    by (simp_all add: running_configuration_def sample_configuration_def new_Configuration_def
        singleThreadParallelization_def)
  have names: "list_all (\<lambda>(n, _). n \<noteq> ''.mull_mutants'') ([(''.text'', [])] @ [])" by simp
  obtain bs s where
    prep: "prepareMutations dropping_environment running_configuration found_points sample_program = Inr (bs, s)" and
    rest: "\<And>sections. open_object linked_tool ''prog'' = ObjectFile sections \<Longrightarrow>
       map read_section sections = [(''.text'', [])] @ (''.mull_mutants'', linked_section (\<lambda>k. k) bs) # [] \<Longrightarrow>
       \<exists>d reporters. mull_runner_run linked_tool ?opts new_diagnostics = (d, Inr (reporters,
          make_Result (map decoded_mutant found_points)
            (map (\<lambda>(k, p).
               \<lparr>execution_result =
                  (if covered p
                   then execution_of (processes (driver_environment linked_tool) (2 + k)
                      (mutant_request linked_tool ?opts ''prog'' p))
                     (\<not> (cl_NoMutantOutput ?opts \<or> cl_NoOutput ?opts))
                   else new_ExecutionResult\<lparr>status := NotCovered\<rparr>),
                result_mutant = decoded_mutant p\<rparr>) (enumerate 0 found_points))))"
    and fs: "\<And>p j n f. j < length sample_program \<Longrightarrow> get_function (ir (sample_program ! j)) n = Some f \<Longrightarrow>
       \<exists>f'. get_function (ir (bs ! j)) n = Some f' \<and>
         (let on = variable_set (mutant_request linked_tool ?opts ''prog'' p)
          in runs_as ?A on (ir (bs ! j)) (point_in_force on found_points j n) f f')"
    using mutants_run_as_recorded [OF found_points_facts(1) run found_points_facts(2,5,4) names opts, of "\<lambda>k. k"]
    unfolding found_points_facts(3) by blast
  have sec: "open_object linked_tool ''prog'' = ObjectFile
      [\<lparr>section_name = Inr ''.text'', section_contents_of = Inl ''truncated''\<rparr>,
       \<lparr>section_name = Inr ''.mull_mutants'', section_contents_of = Inr (linked_section (\<lambda>k. k) bs)\<rparr>]"
    by (simp add: linked_tool_def prep)
  obtain d reporters where ran: "mull_runner_run linked_tool ?opts new_diagnostics = (d, Inr (reporters,
      make_Result (map decoded_mutant found_points)
        [\<lparr>execution_result = execution_of (quick_world 2 (mutant_request linked_tool ?opts ''prog'' sample_point)) True,
          result_mutant = decoded_mutant sample_point\<rparr>,
         \<lparr>execution_result = new_ExecutionResult\<lparr>status := NotCovered\<rparr>,
          result_mutant = decoded_mutant (setCovered False sample_point)\<rparr>]))"
    using rest [OF sec]
    by (auto simp: read_section_def getSectionName_def getSectionContent_def found_points_def setCovered_def
        sample_environment_def initial_values_def)
  have failed: "status (execution_of (quick_world 2 (mutant_request linked_tool ?opts ''prog'' sample_point)) True) = Failed"
    by (simp add: execution_of_def quick_world_def mutant_request_def Let_def sample_environment_def)
  have j: "0 < length sample_program" by (simp add: sample_program_def)
  have f: "get_function (ir (sample_program ! 0)) ''f'' = Some sample_function"
    by (simp add: sample_program_def Bitcode_def get_function_def sample_module_def sample_function_def)
  have force: "point_in_force (\<lambda>v. v = userIdentifier sample_point) found_points 0 ''f'' = Some sample_point"
    by (simp add: point_in_force_def found_points_def setCovered_def)
  obtain f' t g n0 where f': "get_function (ir (bs ! 0)) ''f'' = Some f'" "get_function (ir (bs ! 0)) t = Some g"
      "mutated_body ?A (Some sample_point) sample_function t (blocks g)"
      "\<forall>k \<ge> n0. run_function (\<lambda>v. v = userIdentifier sample_point) k f' = Some (trampoline_result sample_function t)"
    using fs [OF j f, of sample_point] by (auto simp: runs_as_def force)
  have "blocks g = tl (blocks sample_function)"
    using f'(3) by (auto simp: mutated_body_def mutator_applyMutation_def trivial_applyMutation_def mk_AddToSub_def
        TrivialCXXMutator_def dropping_environment_def CloneFunction_def split: option.splits)
  with prep ran failed f'(1,2,4) show ?thesis by fastforce
qed

end
