(* ===== verification/Compiler.thy ===== *)
theory Compiler
  imports Driver
begin

text \<open>
  \<open>lib/Toolchain/Compiler.cpp\<close> with its messages, and the two tasks around object files. The pipeline of
  \<open>Driver\<close> compiles on worker threads and takes of each compilation only its outcome; here a compilation
  also writes its log, and the two are proved to agree. What LLVM's code generator makes is not modelled,
  only whether it can.
\<close>

section \<open>Compiling one file\<close>

definition log_tempFile :: "environment \<Rightarrow> ir_module \<Rightarrow> string \<Rightarrow> string diag" where
  "log_tempFile env m extension =
     (case temporary_for env m ''mull'' extension of
        Inl err \<Rightarrow> diag_error (''Cannot create temporary file'' @ err)
      | Inr path \<Rightarrow> diag_return path)"

definition log_open :: "environment \<Rightarrow> string \<Rightarrow> string \<Rightarrow> unit diag" where
  "log_open env message path =
     (case open_for_writing env path of
        Some err \<Rightarrow> diag_error (message @ err)
      | None \<Rightarrow> diag_return ())"

text \<open>The bitcode is written too in debug mode; when its file cannot be opened the object file is lost.\<close>

definition keep_bitcode :: "environment \<Rightarrow> ir_module \<Rightarrow> string \<Rightarrow> string diag" where
  "keep_bitcode env m object_file =
     diag_bind (log_tempFile env m ''bc'') (\<lambda>bitcodePath.
     case open_for_writing env bitcodePath of
       Some err \<Rightarrow> diag_bind (diag_warning (''Could not open temp bc file: '' @ err)) (\<lambda>_. diag_return [])
     | None \<Rightarrow> diag_bind
         (diag_debug (''Emitted object file: '' @ object_file @ '' for bitcode file: '' @ bitcodePath))
         (\<lambda>_. diag_return object_file))"

definition log_compileBitcode :: "environment \<Rightarrow> Configuration \<Rightarrow> ir_module \<Rightarrow> string diag" where
  "log_compileBitcode env cfg m =
     diag_bind (case verify_module env m of Some err \<Rightarrow> diag_error err | None \<Rightarrow> diag_return ()) (\<lambda>_.
     diag_bind
       (case lookup_target env m of
          Some err \<Rightarrow> diag_error (''Cannot lookup target: '' @ err @ newline)
        | None \<Rightarrow> diag_return ()) (\<lambda>_.
     diag_bind (log_tempFile env m ''o'') (\<lambda>object_file.
     diag_bind (log_open env ''Could not open file: '' object_file) (\<lambda>_.
     if \<not> can_emit_object env m then diag_error ''TargetMachine can not emit object file''
     else if debugEnabled cfg then keep_bitcode env m object_file
     else diag_return object_file))))"

section \<open>The outcome the pipeline uses\<close>

lemmas compile_log_defs = log_compileBitcode_def log_tempFile_def log_open_def keep_bitcode_def
  st_bind_def st_return_def diag_error_def diag_debug_def

lemma tempFile_outcome: "snd (log_tempFile env m extension d) = tempFile env m extension"
  by (simp add: log_tempFile_def tempFile_def diag_error_def st_return_def split: sum.split)

text \<open>Writing the log changes no outcome.\<close>

lemma compile_outcome: "snd (log_compileBitcode env cfg m d) = compileBitcode env cfg (strictModeEnabled d) m"
proof -
  have keep: "snd (keep_bitcode env m object_file d) =
      bind_result (tempFile env m ''bc'') (\<lambda>bitcode_file.
        if open_for_writing env bitcode_file \<noteq> None
        then (if strictModeEnabled d then Inl (Exited 1) else Inr []) else Inr object_file)" for object_file
    by (auto simp: keep_bitcode_def log_tempFile_def tempFile_def st_bind_def st_return_def diag_error_def
        diag_debug_def diag_warning_def Let_def split: sum.split option.split)
  show ?thesis
    using keep
    by (auto simp: log_compileBitcode_def compileBitcode_def log_tempFile_def tempFile_def log_open_def st_bind_def
        st_return_def diag_error_def split: sum.split option.split)
qed

text \<open>A file LLVM's verifier rejects is the first thing reported, and ends the process.\<close>

lemma rejected_module:
  assumes "verify_module env m = Some err"
  shows "log_compileBitcode env cfg m d = diag_error err d"
  using assms by (simp add: log_compileBitcode_def st_bind_def diag_error_def)

text \<open>Outside of debug mode a compilation that succeeds writes nothing.\<close>

lemma silent_success:
  assumes "\<not> debugEnabled cfg" "log_compileBitcode env cfg m d = (d', Inr path)"
  shows "d' = d"
  using assms by (auto simp: compile_log_defs split: option.splits sum.splits if_splits)

text \<open>A debug run that cannot keep the bitcode has no object file, although it was written.\<close>

lemma debug_loses_object_file:
  assumes "verify_module env m = None" "lookup_target env m = None" "can_emit_object env m" "debugEnabled cfg"
    and "temporary_for env m ''mull'' ''o'' = Inr object_file" "open_for_writing env object_file = None"
    and "temporary_for env m ''mull'' ''bc'' = Inr bitcode_file" "open_for_writing env bitcode_file = Some err"
    and "\<not> strictModeEnabled d"
  shows "snd (log_compileBitcode env cfg m d) = Inr []"
  using assms by (simp add: compile_outcome compileBitcode_def tempFile_def)

section \<open>Loading object files\<close>

text \<open>\<open>LoadObjectFilesTask\<close>: files that cannot be read are left out; a warning ends a strict run.\<close>

definition load_object_task :: "(string \<Rightarrow> 'o option) \<Rightarrow> bool \<Rightarrow> string \<Rightarrow> 'o result list" where
  "load_object_task createObjectFile strict path =
     (case createObjectFile path of
        None \<Rightarrow> (if strict then [Inl (Exited 1)] else [])
      | Some file \<Rightarrow> [Inr file])"

lemma load_object_lenient:
  assumes "0 < n" "length paths < 2 ^ 31"
  shows "run_tasks n (load_object_task createObjectFile False) paths = Inr (List.map_filter createObjectFile paths)"
proof -
  have "concat (map (load_object_task createObjectFile False) paths) = map Inr (List.map_filter createObjectFile paths)"
    by (induction paths) (auto simp: load_object_task_def List.map_filter_simps split: option.split)
  then show ?thesis
    using run_tasks_eq [OF assms, of "load_object_task createObjectFile False"] by (simp add: map_result_list_Inr)
qed

end
