(* ===== verification/ScalarConstants.thy ===== *)
theory ScalarConstants
  imports ClangTree
begin

text \<open>
  \<open>isConstant\<close> and \<open>isDeclRefConstant\<close> of \<open>lib/JunkDetection/CXX/Visitors/ScalarValueVisitor.cpp\<close>, on the
  store of \<open>ClangTree\<close>. The two functions call each other through the initialisers of variables, without
  anything that stops them; fuel counts the variables entered. Clang's \<open>IgnoreImplicit\<close>, the
  identity on a statement that is no expression, is an argument.
\<close>

section \<open>The functions\<close>

text \<open>The loop over the children; \<open>None\<close> is a call that has not returned.\<close>

fun all_constant :: "('a \<Rightarrow> bool option) \<Rightarrow> 'a list \<Rightarrow> bool option" where
  "all_constant P [] = Some True"
| "all_constant P (x # xs) =
     (case P x of None \<Rightarrow> None | Some b \<Rightarrow> if b then all_constant P xs else Some False)"

definition constant_statement :: "frontend_state \<Rightarrow> (nat \<Rightarrow> bool option) \<Rightarrow> nat \<Rightarrow> bool option" where
  "constant_statement s declRefConstant i =
     (case stmt_kind (stmt s i) of
        IntegerNode _ \<Rightarrow> Some True
      | FloatingNode _ _ \<Rightarrow> Some True
      | DeclRefNode d \<Rightarrow> declRefConstant d
      | _ \<Rightarrow> Some False)"

primrec isDeclRefConstant :: "(frontend_state \<Rightarrow> nat \<Rightarrow> nat) \<Rightarrow> frontend_state \<Rightarrow> nat \<Rightarrow> nat \<Rightarrow> bool option" where
  "isDeclRefConstant ignoreImplicit s 0 d = None"
| "isDeclRefConstant ignoreImplicit s (Suc k) d =
     (case variable_init s d of
        None \<Rightarrow> Some False
      | Some init \<Rightarrow>
          (case constant_statement s (isDeclRefConstant ignoreImplicit s k) (ignoreImplicit s init) of
             None \<Rightarrow> None
           | Some b \<Rightarrow>
               if b then Some True
               else all_constant (\<lambda>child. constant_statement s (isDeclRefConstant ignoreImplicit s k)
                      (ignoreImplicit s child)) (stmt_children (stmt s init))))"

definition isConstant :: "(frontend_state \<Rightarrow> nat \<Rightarrow> nat) \<Rightarrow> frontend_state \<Rightarrow> nat \<Rightarrow> nat \<Rightarrow> bool option" where
  "isConstant ignoreImplicit s k i = constant_statement s (isDeclRefConstant ignoreImplicit s k) i"

section \<open>When they return\<close>

lemma all_constant_Some: "(\<And>x. x \<in> set xs \<Longrightarrow> P x \<noteq> None) \<Longrightarrow> all_constant P xs \<noteq> None"
  by (induction xs) (auto split: option.split)

lemma constant_statement_Some:
  "(\<And>d. stmt_kind (stmt s i) = DeclRefNode d \<Longrightarrow> f d \<noteq> None) \<Longrightarrow> constant_statement s f i \<noteq> None"
  by (auto simp: constant_statement_def split: stmt_kind.split)

text \<open>What the initialiser of a variable refers to: itself, or one of its children.\<close>

definition refers_to :: "(frontend_state \<Rightarrow> nat \<Rightarrow> nat) \<Rightarrow> frontend_state \<Rightarrow> nat \<Rightarrow> nat \<Rightarrow> bool" where
  "refers_to ignoreImplicit s d d' \<longleftrightarrow>
     (\<exists>init. variable_init s d = Some init \<and>
        (\<exists>i \<in> set (init # stmt_children (stmt s init)). stmt_kind (stmt s (ignoreImplicit s i)) = DeclRefNode d'))"

text \<open>Where initialisers refer to earlier variables only, they return; the number of the variable is fuel
  enough.\<close>

lemma isDeclRefConstant_returns:
  assumes "\<And>d d'. refers_to ignoreImplicit s d d' \<Longrightarrow> rank d' < (rank d :: nat)"
  shows "rank d < k \<Longrightarrow> isDeclRefConstant ignoreImplicit s k d \<noteq> None"
proof (induction k arbitrary: d)
  case (Suc k)
  have sub: "constant_statement s (isDeclRefConstant ignoreImplicit s k) (ignoreImplicit s i) \<noteq> None"
    if "variable_init s d = Some init" "i \<in> set (init # stmt_children (stmt s init))" for init i
  proof (rule constant_statement_Some)
    fix d' assume "stmt_kind (stmt s (ignoreImplicit s i)) = DeclRefNode d'"
    with that have "refers_to ignoreImplicit s d d'" by (auto simp: refers_to_def)
    then show "isDeclRefConstant ignoreImplicit s k d' \<noteq> None"
      using assms Suc.prems by (intro Suc.IH) fastforce
  qed
  show ?case
  proof (cases "variable_init s d")
    case (Some init)
    have "all_constant (\<lambda>child. constant_statement s (isDeclRefConstant ignoreImplicit s k) (ignoreImplicit s child))
         (stmt_children (stmt s init)) \<noteq> None"
      by (rule all_constant_Some, rule sub [OF Some]) simp
    moreover have "constant_statement s (isDeclRefConstant ignoreImplicit s k) (ignoreImplicit s init) \<noteq> None"
      by (rule sub [OF Some]) simp
    ultimately show ?thesis using Some by (auto split: option.split)
  qed simp
qed simp

text \<open>A variable initialised with itself, \<open>int x = x;\<close>, keeps them calling each other for ever.\<close>

lemma self_initialised_never_returns:
  assumes "variable_init s d = Some init" "stmt_kind (stmt s (ignoreImplicit s init)) = DeclRefNode d"
  shows "isDeclRefConstant ignoreImplicit s k d = None"
  using assms by (induction k) (simp_all add: constant_statement_def)

end
