(* ===== verification/Spec2Isabelle.thy ===== *)
theory Spec2Isabelle
  imports Prelude Caches IR SourceLocations Diagnostics TaskExecutor Tasks Mutators MutatorsFactory MutationPoints
    Mutants Trampolines LogicalMutators Filters Configuration MutantRunner Driver DriverRefinement SourceManager MutationScore
    Reporters ElementsReport CompilationDatabase ASTStorage JunkDetector BitcodeLoading CLIOptions Tools
    FrontendRecords FrontendArguments Progress Support PreparedRecords
    EndToEnd Compiler ScalarConstants
begin

text \<open>
  Mull is a mutation testing tool for C and C++. It makes small changes to a program (mutants), runs the
  program's tests against every one of them, and reports the mutants no test notices. This library models
  the repository's own code, component by component, and proves what makes each of them correct.

  \<^bold>\<open>How the program works.\<close>
  There are two ways to get mutants into a program.
  \<open>tools/mull-cxx\<close> loads LLVM bitcode, lets the mutators look for mutation points in the selected
  functions, filters the points, and prepares the modules: a covered point gets a clone of its function,
  the function becomes a trampoline that asks the environment which clone to call, the mutations are
  applied to the clones, every point is recorded in a section of the program. It then compiles and links.
  \<open>tools/mull-cxx-frontend\<close> is a Clang plugin that does the same on the syntax tree: a mutated node becomes
  a conditional on \<open>getenv\<close>.
  \<open>tools/mull-runner\<close> reads the recorded mutants back from the executable, runs the tests once without a
  mutant and then once for each mutant, with its identifier set in the environment, and reports.

  \<^bold>\<open>Conventions.\<close>
  A C++ computation that can fail has a value of type \<open>'a result\<close>: a failed assertion, a standard library
  exception, a null pointer dereferenced, or the end of the process. Code that logs has type \<open>'a diag\<close>, a
  state transformer over the logger; the reporters and the plugin have states of their own of the same
  shape. \<open>int\<close> fields are bounded where it matters (\<open>int_range\<close>, \<open>int_of_size\<close>), words are kept at their
  width where they come from LLVM or the command line. A \<open>std::map\<close> is an ordered association list, an
  unordered one a list in any order. Pointers to shared objects are indices into a store (the points of the
  driver, the statements and declarations of the plugin) or names (functions, blocks, instructions).

  \<^bold>\<open>Theories and sources\<close>, in the order of their dependencies:
  \<^item> \<open>Prelude\<close>: failures, state transformers, \<open>std::to_string\<close>, \<open>std::stoi\<close>, \<open>std::getline\<close>, facts on lists.
  \<^item> \<open>Caches\<close>: the locales \<open>cached_lookup\<close> and \<open>paid_lookup\<close>, the contract of a lookup that fills a cache:
    answers do not depend on the cache, a key is paid for once. Interpreted by the file path filter, the
    storage of syntax trees, the junk detector and the source manager.
  \<^item> \<open>IR\<close>, \<open>SourceLocations\<close> (\<open>lib/SourceLocation.cpp\<close>, \<open>lib/Path.cpp\<close>): the part of LLVM's data Mull reads.
  \<^item> \<open>Diagnostics\<close> (\<open>lib/Diagnostics\<close>): the logger, with strict and debug mode.
  \<^item> \<open>TaskExecutor\<close>, \<open>Tasks\<close> (\<open>lib/Parallelization\<close>): batches, the executor as a function and as a step
    relation of threads, the locale \<open>batch_task\<close> of what it relies on, the exit of the reporter thread.
  \<^item> \<open>Progress\<close> (\<open>Progress.cpp\<close>, \<open>lib/Metrics\<close>): the progress bar, the time summary, the single executor.
  \<^item> \<open>Mutators\<close>, \<open>MutatorsFactory\<close> (\<open>lib/Mutators\<close>): all mutators with their low-level mutations, the groups
    and what a list of names selects.
  \<^item> \<open>MutationPoints\<close> (\<open>MutationPoint.cpp\<close>, \<open>FunctionUnderTest.cpp\<close>, \<open>Bitcode.cpp\<close>), \<open>LogicalMutators\<close>
    (\<open>LogicalAndToOr.cpp\<close>, \<open>LogicalOrToAnd.cpp\<close>): addresses, points, the search, the rewriting of branches.
  \<^item> \<open>Mutants\<close> (\<open>Mutant.cpp\<close>, \<open>MutantExtractor.cpp\<close>): the mutants, their order, and reading back what
    \<open>recordMutation\<close> leaves in the section.
  \<^item> \<open>Trampolines\<close> (\<open>MutantPreparationTasks.cpp\<close>, \<open>ApplyMutationTask.cpp\<close>): the preparation of one module,
    with an interpreter of trampolines.
  \<^item> \<open>Filters\<close> (\<open>lib/Filters\<close>), \<open>Configuration\<close> (\<open>lib/Config\<close>), \<open>MutantRunner\<close> (\<open>Runner.cpp\<close>,
    \<open>MutantRunner.cpp\<close>, \<open>MutantExecutionTask.cpp\<close>, \<open>Linker.cpp\<close>).
  \<^item> \<open>Driver\<close>, \<open>DriverRefinement\<close> (\<open>Driver.cpp\<close>, \<open>MutationsFinder.cpp\<close>, \<open>Compiler.cpp\<close>): the pipeline; the
    second theory proves that its stages over all files prepare each file as if it were alone,
    \<open>PreparedRecords\<close> follows what it records to the runner.
  \<^item> \<open>Compiler\<close> (\<open>Compiler.cpp\<close>, \<open>LoadObjectFilesTask.cpp\<close>): the compilation with what it logs, which has the
    outcome of the one the pipeline uses (\<open>compile_outcome\<close>), and the loading of object files.
  \<^item> \<open>SourceManager\<close>, \<open>MutationScore\<close>, \<open>Reporters\<close>, \<open>ElementsReport\<close> (\<open>lib/Reporters\<close>): the three reporters and
    the sources they quote; the score is computed with the rounding of \<open>double\<close>.
  \<^item> \<open>CompilationDatabase\<close>, \<open>ASTStorage\<close>, \<open>JunkDetector\<close> (\<open>lib/JunkDetection\<close>, \<open>lib/AST\<close>): compiler flags, the
    syntax trees of files, the visitors that decide whether a point is one of the user's expressions.
  \<^item> \<open>BitcodeLoading\<close> (\<open>BitcodeLoader.cpp\<close>, \<open>BitcodeMetadataReader.cpp\<close>, the loading tasks), \<open>CLIOptions\<close>
    (\<open>tools/CLIOptions\<close>), \<open>Tools\<close> (\<open>mull-cxx.cpp\<close>, \<open>mull-runner.cpp\<close>): the two main functions.
  \<^item> \<open>EndToEnd\<close>: both tools one after the other. A test program made of prepared modules, started by
    mull-runner with the identifier of a recorded mutant in its environment, runs that mutant.
  \<^item> \<open>ClangTree\<close>, \<open>ClangInstrumentation\<close>, \<open>FrontendSearch\<close>, \<open>FrontendPlugin\<close> (\<open>tools/mull-cxx-frontend\<close>): the
    store of the tree and the node factory; \<open>ASTInstrumentation.cpp\<close> and \<open>ClangASTMutator.cpp\<close>;
    \<open>MutationMap.cpp\<close>, \<open>ASTMutationPoint.cpp\<close> and the visitor; \<open>MullASTMutator.cpp\<close> and \<open>MullClangPlugin.cpp\<close>.
  \<^item> \<open>FrontendDispatch\<close>, \<open>DispatchRefinement\<close>, \<open>FrontendProperties\<close>, \<open>FrontendRecords\<close>, \<open>FrontendArguments\<close>: what
    a tree with dispatches means, the refinement of the source's tree, and the plugin's properties.
  \<^item> \<open>ScalarConstants\<close> (\<open>ScalarValueVisitor.cpp\<close>): the check for constant expressions, which nothing calls.
  \<^item> \<open>Support\<close>: IDE diagnostics, version texts, the source context of a point, and \<open>LLVMCompatibility\<close>: the
    search of a compile unit, the choice of a demangler, the sections, where the versions agree.

  \<^bold>\<open>What the theorems show.\<close>
  The main results are on the two ways a mutant gets into a program and back out of it. A prepared module
  calls the original body, or the last enabled clone with its mutation applied once
  (\<open>prepared_program_dispatch\<close>); the plugin's tree is the source's tree with at most the one selected node
  replaced (\<open>plugin_dispatches\<close>), and following its dispatches ends (\<open>instrumented_tree_terminates\<close>). What
  either leaves in the mutants section, the runner reads back (\<open>extract_recorded_mutants\<close>,
  \<open>prepared_program_records\<close>, \<open>frontend_records_roundtrip\<close>) and runs (\<open>runner_tests_recorded_mutants\<close>); together, each run of a mutant executes the program with exactly
  the points of its identifier mutated (\<open>mutants_run_as_recorded\<close>). The parallel stages equal their
  sequential specification, for the executor under every schedule of its threads. The searches, filters,
  the diff parser, the lookup of declarations and the visitors are proved sound and complete against
  declarative specifications; deduplication, caches and the junk detector against the order of what they
  are asked. The reporters end and print what the results say: the statements and rows of the
  database, the JSON value with the status of every mutant, the counts and the score of the log, the lines
  around a place. The storage of syntax trees runs Clang once for each file. Where the code fails, the theorem says
  how: assertions in the plugin, the stale \<open>phi\<close> after a logical mutation, a tree Clang could not give, strict mode.

  \<^bold>\<open>Bounds and fuel.\<close>
  Numbers of points, mutants and files are below \<open>2 ^ 31\<close> where the code casts them to \<open>int\<close>. Groups of
  mutators are expanded with fuel \<open>group_depth\<close>, which is the depth of the built-in groups
  (\<open>builtin_groups_complete\<close> shows that it is enough). A tree of the plugin is read with fuel twice the size
  of its store, enough because sources' children precede their parents and a dispatch adds one level
  (\<open>instrumented_tree_terminates\<close>). The progress bar is exact for totals below \<open>2 ^ 47\<close>.
  Sums the code computes in \<open>int\<close> are exact in the model also where they would overflow: the batches of more
  than \<open>2 ^ 30\<close> items, the last line of a range of a diff near \<open>2 ^ 31\<close>, and the conversions of ten times
  the baseline's running time. The number of workers is not negative. The loop of the
  reporter thread is given its rounds; that it ends is \<open>reporter_exits_iff_workers_done\<close>.

  \<^bold>\<open>Parameters\<close>, because their code is not in the repository: what low-level mutations apply to and do (irm);
  names LLVM gives, its bitcode, coverage, object file and command line parsers and its code generator; Clang's
  trees, parents, traversal and places; processes (reproc; git is one of them), regular expressions of the user, JSON
  texts (json11), the database (sqlite), the file system, the clock, the number of processors.

  \<^bold>\<open>Not modelled.\<close>
  Code that only calls LLVM or Clang (target machines, writing bitcode, the registration of the plugin), the
  variadic functions in \<open>insert_trampoline\<close>, a test program's own \<open>getenv\<close>, what a step of an insertion into the
  database answers (the code ignores it too), the functions of \<open>LLVMCompatibility\<close> for other versions of LLVM where they do what the newest does, accessors of
  one field, locks around single operations (the locales of \<open>Caches\<close> cover the order of queries), the
  order in which worker threads write to the log (\<open>Compiler\<close> has what one of them writes), and the waiting
  times of the reporter thread. Functions that nothing calls are modelled all the same (\<open>isConstant\<close>,
  \<open>sqlite_step\<close>, \<open>load_object_task\<close>). The tests and the bundled libraries are
  not part of the program.
\<close>

end
